(* ===== verification/Vdo_Prelude.thy ===== *)
theory Vdo_Prelude
  imports Main "HOL-Library.Char_ord" "HOL-Library.List_Lexorder" "HOL-Library.AList"
    "HOL-Library.Sublist"
begin

text \<open>
  The prelude of the development: the collections the component theories add to, the errors
  and outcomes of Go functions, and the facts on lists that several components share.

  A Go function that returns a value and an error is modelled by a value of
  \<open>'a outcome\<close>: \<open>Ok\<close> for a nil error, \<open>Err\<close> for an error, and \<open>Panic\<close> for a run-time
  panic (a nil dereference, a write to a nil map), which no \<^verbatim>\<open>if err != nil\<close> of the source
  sees.
\<close>

named_theorems keeps_intro \<open>rules that prove that an operation keeps a relation of states\<close>
named_theorems no_panic_intro \<open>rules that prove that an operation does not panic\<close>
named_theorems ops \<open>definitions of the operations on the state\<close>
named_theorems go_strings \<open>equations of the string functions of Go's standard library\<close>

section \<open>Errors\<close>

text \<open>
  An error is a reply of the API server (with the reason of its status), a plain message
  (\<^verbatim>\<open>errors.New\<close>, \<^verbatim>\<open>errors.Errorf\<close>) or a wrapped error (\<^verbatim>\<open>errors.Wrap\<close>,
  \<^verbatim>\<open>errors.Wrapf\<close>). The predicates of \<^verbatim>\<open>apierrors\<close> look through the wrapping, as
  \<^verbatim>\<open>errors.As\<close> does.
\<close>

datatype reason = NotFound | AlreadyExists | OtherReason

datatype err = ApiErr reason string | Msg string | Wrapped string err

fun ReasonForError :: "err \<Rightarrow> reason option" where
  "ReasonForError (ApiErr r m) = Some r"
| "ReasonForError (Msg m) = None"
| "ReasonForError (Wrapped m e) = ReasonForError e"

definition IsNotFound :: "err \<Rightarrow> bool" where
  "IsNotFound e \<longleftrightarrow> ReasonForError e = Some NotFound"

definition IsAlreadyExists :: "err \<Rightarrow> bool" where
  "IsAlreadyExists e \<longleftrightarrow> ReasonForError e = Some AlreadyExists"

fun Error :: "err \<Rightarrow> string" where
  "Error (ApiErr r m) = m"
| "Error (Msg m) = m"
| "Error (Wrapped m e) = m @ '': '' @ Error e"

lemma IsNotFound_simps [simp]:
  "IsNotFound (ApiErr r m) \<longleftrightarrow> r = NotFound"
  "\<not> IsNotFound (Msg m)"
  "IsNotFound (Wrapped m e) \<longleftrightarrow> IsNotFound e"
  by (auto simp: IsNotFound_def)

lemma IsAlreadyExists_simps [simp]:
  "IsAlreadyExists (ApiErr r m) \<longleftrightarrow> r = AlreadyExists"
  "\<not> IsAlreadyExists (Msg m)"
  "IsAlreadyExists (Wrapped m e) \<longleftrightarrow> IsAlreadyExists e"
  by (auto simp: IsAlreadyExists_def)

lemma not_both_reasons: "IsNotFound e \<Longrightarrow> \<not> IsAlreadyExists e"
  by (simp add: IsNotFound_def IsAlreadyExists_def)

section \<open>Outcomes\<close>

datatype 'a outcome = Ok 'a | Err err | Panic string

fun bindO :: "'a outcome \<Rightarrow> ('a \<Rightarrow> 'b outcome) \<Rightarrow> 'b outcome" where
  "bindO (Ok x) f = f x"
| "bindO (Err e) f = Err e"
| "bindO (Panic m) f = Panic m"

definition outcome_of :: "err + 'a \<Rightarrow> 'a outcome" where
  "outcome_of r = (case r of Inl e \<Rightarrow> Err e | Inr x \<Rightarrow> Ok x)"

lemma outcome_of_simps [simp]:
  "outcome_of (Inl e) = Err e"
  "outcome_of (Inr x) = Ok x"
  by (simp_all add: outcome_of_def)

lemma outcome_of_not_Panic [simp]: "outcome_of r \<noteq> Panic m" "Panic m \<noteq> outcome_of r"
  by (cases r; simp)+

lemma outcome_of_Ok [simp]: "outcome_of r = Ok x \<longleftrightarrow> r = Inr x"
  by (cases r) auto

lemma bindO_Ok_iff: "bindO m f = Ok y \<longleftrightarrow> (\<exists>x. m = Ok x \<and> f x = Ok y)"
  by (cases m) auto

section \<open>Lists\<close>

lemma map_of_None_keys: "map_of m k = None \<longleftrightarrow> k \<notin> fst ` set m"
  by (rule map_of_eq_None_iff)

end
