(* ===== verification/Go_Strings.thy ===== *)
theory Go_Strings
  imports Vdo_Prelude
begin

text \<open>
  The functions of Go's \<^verbatim>\<open>strings\<close> package that the program calls, on byte strings. The
  separators and the replaced strings of the program are never empty; \<open>Split\<close> takes the
  one-byte separators the program uses (\<^verbatim>\<open>":"\<close>, \<^verbatim>\<open>","\<close>).
\<close>

fun HasPrefix :: "string \<Rightarrow> string \<Rightarrow> bool" where
  "HasPrefix s [] = True"
| "HasPrefix [] (c # cs) = False"
| "HasPrefix (d # ds) (c # cs) = (d = c \<and> HasPrefix ds cs)"

fun Contains :: "string \<Rightarrow> string \<Rightarrow> bool" where
  "Contains [] sub = HasPrefix [] sub"
| "Contains (c # cs) sub = (HasPrefix (c # cs) sub \<or> Contains cs sub)"

text \<open>\<^verbatim>\<open>strings.Replace(s, old, new, 1)\<close>: the first occurrence only.\<close>

fun Replace1 :: "string \<Rightarrow> string \<Rightarrow> string \<Rightarrow> string" where
  "Replace1 [] old new = (if old = [] then new else [])"
| "Replace1 (c # cs) old new =
     (if HasPrefix (c # cs) old then new @ drop (length old) (c # cs)
      else c # Replace1 cs old new)"

text \<open>\<^verbatim>\<open>strings.Replace(s, old, new, -1)\<close> for an \<open>old\<close> of one byte.\<close>

fun ReplaceAll :: "string \<Rightarrow> char \<Rightarrow> string \<Rightarrow> string" where
  "ReplaceAll [] old new = []"
| "ReplaceAll (c # cs) old new =
     (if c = old then new @ ReplaceAll cs old new else c # ReplaceAll cs old new)"

text \<open>\<^verbatim>\<open>strings.Split\<close>: always at least one field.\<close>

fun Split :: "string \<Rightarrow> char \<Rightarrow> string list" where
  "Split [] sep = [[]]"
| "Split (c # cs) sep =
     (if c = sep then [] # Split cs sep
      else (case Split cs sep of [] \<Rightarrow> [[c]] | f # fs \<Rightarrow> (c # f) # fs))"

text \<open>\<^verbatim>\<open>SplitAfter\<close> leaves the separator at the end of the pieces.\<close>

fun SplitAfter :: "string \<Rightarrow> char \<Rightarrow> string list" where
  "SplitAfter [] sep = [[]]"
| "SplitAfter (c # cs) sep =
     (if c = sep then [c] # SplitAfter cs sep
      else (case SplitAfter cs sep of [] \<Rightarrow> [[c]] | f # fs \<Rightarrow> (c # f) # fs))"

fun Join :: "string list \<Rightarrow> string \<Rightarrow> string" where
  "Join [] sep = []"
| "Join [s] sep = s"
| "Join (s # t # ts) sep = s @ sep @ Join (t # ts) sep"

definition FormatBool :: "bool \<Rightarrow> string" where
  "FormatBool b = (if b then ''true'' else ''false'')"

text \<open>The verb \<^verbatim>\<open>%d\<close> of \<^verbatim>\<open>fmt\<close>.\<close>

fun digits :: "nat \<Rightarrow> string" where
  "digits n = (if n < 10 then [char_of (48 + n)] else digits (n div 10) @ [char_of (48 + n mod 10)])"

declare digits.simps [simp del]

definition FormatInt :: "int \<Rightarrow> string" where
  "FormatInt i = (if i < 0 then CHR ''-'' # digits (nat (- i)) else digits (nat i))"

text \<open>
  \<^verbatim>\<open>ToLower\<close> and \<^verbatim>\<open>TrimSpace\<close> on ASCII text (the program applies them to addresses).
\<close>

definition lower :: "char \<Rightarrow> char" where
  "lower c = (let n = (of_char c :: nat) in if 65 \<le> n \<and> n \<le> 90 then char_of (n + 32) else c)"

text \<open>
  \<^verbatim>\<open>EqualFold\<close> with an ASCII text: besides the other case of a letter, the long s (bytes
  C5 BF) folds to s and the Kelvin sign (bytes E2 84 AA) to k.
\<close>

fun EqualFold :: "string \<Rightarrow> string \<Rightarrow> bool" where
  "EqualFold s [] \<longleftrightarrow> s = []"
| "EqualFold s (d # ds) \<longleftrightarrow>
     (s \<noteq> [] \<and> lower (hd s) = lower d \<and> EqualFold (tl s) ds) \<or>
     (lower d = CHR ''s'' \<and> HasPrefix s [CHR 0xC5, CHR 0xBF] \<and> EqualFold (drop 2 s) ds) \<or>
     (lower d = CHR ''k'' \<and> HasPrefix s [CHR 0xE2, CHR 0x84, CHR 0xAA] \<and> EqualFold (drop 3 s) ds)"

definition ToLower :: "string \<Rightarrow> string" where
  "ToLower s = map lower s"

definition isSpace :: "char \<Rightarrow> bool" where
  "isSpace c = (let n = (of_char c :: nat) in n = 32 \<or> (9 \<le> n \<and> n \<le> 13))"

definition TrimSpace :: "string \<Rightarrow> string" where
  "TrimSpace s = rev (dropWhile isSpace (rev (dropWhile isSpace s)))"

text \<open>\<^verbatim>\<open>fmt.Sprintf\<close> with the quoted verb of the program's configuration files.\<close>

definition quoted :: "string \<Rightarrow> string" where
  "quoted s = CHR 34 # s @ [CHR 34]"

section \<open>What the functions compute\<close>

lemma HasPrefix_prefix: "HasPrefix s p \<longleftrightarrow> prefix p s"
  by (induction s p rule: HasPrefix.induct) auto

lemma HasPrefix_append [simp]: "HasPrefix (p @ s) p"
  by (simp add: HasPrefix_prefix)

lemma HasPrefix_take: "HasPrefix s p \<Longrightarrow> s = p @ drop (length p) s"
  by (metis HasPrefix_prefix append_eq_conv_conj prefix_def)

lemma Contains_sublist: "Contains s sub \<longleftrightarrow> sublist sub s"
  by (induction s) (auto simp: HasPrefix_prefix sublist_Cons_right)

lemma Contains_single [simp]: "Contains s [c] \<longleftrightarrow> c \<in> set s"
  by (induction s) auto

lemma HasPrefix_Contains: "HasPrefix s sub \<Longrightarrow> Contains s sub"
  by (cases s) auto

lemma Contains_append: "Contains (ps @ sub @ ss) sub"
  by (auto simp: Contains_sublist sublist_def)

lemma Replace1_prefix: "old \<noteq> [] \<Longrightarrow> Replace1 (old @ s) old new = new @ s"
  by (cases old) (auto simp: HasPrefix_append [of "_ # _", simplified])

lemma Replace1_id: "\<not> Contains s old \<Longrightarrow> Replace1 s old new = s"
  by (induction s) auto

text \<open>Replacing splits the string at the first occurrence.\<close>

lemma Replace1_decomp:
  "Contains s old \<Longrightarrow>
   \<exists>ps ss. s = ps @ old @ ss \<and> Replace1 s old new = ps @ new @ ss"
proof (induction s)
  case Nil
  then show ?case by (cases old) auto
next
  case (Cons c cs)
  show ?case
  proof (cases "HasPrefix (c # cs) old")
    case True
    then have "c # cs = [] @ old @ drop (length old) (c # cs)"
      using HasPrefix_take by fastforce
    moreover have "Replace1 (c # cs) old new = [] @ new @ drop (length old) (c # cs)"
      using True by simp
    ultimately show ?thesis by blast
  next
    case False
    with Cons.prems have "Contains cs old" by simp
    then obtain ps ss where "cs = ps @ old @ ss" "Replace1 cs old new = ps @ new @ ss"
      using Cons.IH by blast
    with False have "c # cs = (c # ps) @ old @ ss \<and> Replace1 (c # cs) old new = (c # ps) @ new @ ss"
      by simp
    then show ?thesis by blast
  qed
qed

lemma ReplaceAll_filter: "ReplaceAll s c [] = filter (\<lambda>d. d \<noteq> c) s"
  by (induction s) auto

lemma ReplaceAll_removes: "c \<notin> set (ReplaceAll s c [])"
  by (simp add: ReplaceAll_filter)

lemma Split_not_Nil [simp]: "Split s c \<noteq> []"
  by (induction s) (auto split: list.splits)

lemma Split_no_sep: "c \<notin> set s \<Longrightarrow> Split s c = [s]"
  by (induction s) auto

lemma Split_append: "c \<notin> set s \<Longrightarrow> Split (s @ c # t) c = s # Split t c"
  by (induction s) auto

lemma length_Split: "length (Split s c) = Suc (count_list s c)"
  by (induction s) (auto split: list.splits)

lemma SplitAfter_not_Nil [simp]: "SplitAfter s c \<noteq> []"
  by (induction s) (auto split: list.splits)

lemma concat_SplitAfter: "concat (SplitAfter s c) = s"
  by (induction s) (auto split: list.split)

lemma SplitAfter_butlast: "x \<in> set (butlast (SplitAfter s c)) \<Longrightarrow> last x = c \<and> x \<noteq> []"
  by (induction s arbitrary: x) (auto split: list.splits if_splits)

lemma lower_lower [simp]: "lower (lower c) = lower c"
  by (auto simp: lower_def Let_def)

lemma isSpace_lower [simp]: "isSpace (lower c) = isSpace c"
  by (auto simp: lower_def isSpace_def Let_def)

lemma dropWhile_TrimSpace: "dropWhile isSpace (TrimSpace s) = TrimSpace s"
proof (cases "TrimSpace s")
  case (Cons c cs)
  define t where "t = dropWhile isSpace s"
  have "TrimSpace s = rev (dropWhile isSpace (rev t))" by (simp add: TrimSpace_def t_def)
  then obtain u where u: "t = TrimSpace s @ u"
    by (metis rev_append rev_rev_ident takeWhile_dropWhile_id)
  with Cons have "t = c # cs @ u" by simp
  then have "\<not> isSpace c" unfolding t_def by (metis dropWhile_eq_Cons_conv)
  with Cons show ?thesis by simp
qed simp

lemma TrimSpace_idem [simp]: "TrimSpace (TrimSpace s) = TrimSpace s"
proof -
  have "dropWhile isSpace (rev (TrimSpace s)) = rev (TrimSpace s)"
    by (simp add: TrimSpace_def)
  then show ?thesis
    using dropWhile_TrimSpace [of s] by (simp add: TrimSpace_def [of "TrimSpace s"])
qed

lemma dropWhile_map_lower: "dropWhile isSpace (map lower s) = map lower (dropWhile isSpace s)"
  by (simp add: dropWhile_map comp_def)

lemma TrimSpace_ToLower: "TrimSpace (ToLower s) = ToLower (TrimSpace s)"
  by (simp add: TrimSpace_def ToLower_def dropWhile_map_lower rev_map)

lemma ToLower_idem [simp]: "ToLower (ToLower s) = ToLower s"
  by (simp add: ToLower_def)

lemma FormatBool_inj: "FormatBool a = FormatBool b \<longleftrightarrow> a = b"
  by (simp add: FormatBool_def)

lemma quoted_inj [simp]: "quoted a = quoted b \<longleftrightarrow> a = b"
  by (simp add: quoted_def)

end
