(* ===== verification/Go_Maps.thy ===== *)
theory Go_Maps
  imports Vdo_Prelude
begin

text \<open>
  Go maps and slices. A Go map is nil or an association list in the order in which one
  \<^verbatim>\<open>range\<close> over it visits the entries: that order is unspecified in Go, so a result that
  depends on it is a result the program does not determine. A key occurs at most once
  (\<open>wf_gomap\<close>). A slice is nil or a list; the distinction matters to \<^verbatim>\<open>reflect.DeepEqual\<close>
  and to comparisons with nil, not to \<^verbatim>\<open>len\<close>, \<^verbatim>\<open>range\<close> or a lookup.
\<close>

type_synonym ('k, 'v) gomap = "('k \<times> 'v) list option"
type_synonym 'a slice = "'a list option"

definition entries :: "'a list option \<Rightarrow> 'a list" where
  "entries m = (case m of None \<Rightarrow> [] | Some xs \<Rightarrow> xs)"

definition make_map :: "('k, 'v) gomap" where
  "make_map = Some []"

definition mlookup :: "('k, 'v) gomap \<Rightarrow> 'k \<Rightarrow> 'v option" where
  "mlookup m k = map_of (entries m) k"

text \<open>Indexing a missing key of a string map gives the zero value.\<close>

definition mindex :: "('k, string) gomap \<Rightarrow> 'k \<Rightarrow> string" where
  "mindex m k = (case mlookup m k of None \<Rightarrow> [] | Some v \<Rightarrow> v)"

definition mlen :: "'a list option \<Rightarrow> nat" where
  "mlen m = length (entries m)"

definition mkeys :: "('k, 'v) gomap \<Rightarrow> 'k list" where
  "mkeys m = map fst (entries m)"

text \<open>A write to a nil map panics.\<close>

definition mstore :: "('k, 'v) gomap \<Rightarrow> 'k \<Rightarrow> 'v \<Rightarrow> ('k, 'v) gomap outcome" where
  "mstore m k v = (case m of None \<Rightarrow> Panic ''assignment to entry in nil map''
                   | Some xs \<Rightarrow> Ok (Some (AList.update k v xs)))"

text \<open>The same write on a map that the code has just made.\<close>

definition mput :: "('k, 'v) gomap \<Rightarrow> 'k \<Rightarrow> 'v \<Rightarrow> ('k, 'v) gomap" where
  "mput m k v = Some (AList.update k v (entries m))"

definition wf_gomap :: "('k, 'v) gomap \<Rightarrow> bool" where
  "wf_gomap m \<longleftrightarrow> distinct (mkeys m)"

definition DeepEqual_map :: "('k, 'v) gomap \<Rightarrow> ('k, 'v) gomap \<Rightarrow> bool" where
  "DeepEqual_map a b =
     ((a = None \<longleftrightarrow> b = None) \<and>
      list_all (\<lambda>k. mlookup a k = mlookup b k) (mkeys a @ mkeys b))"

lemma entries_simps [simp]: "entries None = []" "entries (Some xs) = xs"
  by (simp_all add: entries_def)

lemma mlookup_make_map [simp]: "mlookup make_map k = None"
  by (simp add: mlookup_def make_map_def)

lemma mlookup_mput [simp]: "mlookup (mput m k v) k' = (if k' = k then Some v else mlookup m k')"
  by (simp add: mlookup_def mput_def update_conv')

lemma mput_not_nil [simp]: "mput m k v \<noteq> None"
  by (simp add: mput_def)

lemma mstore_Some [simp]: "mstore (Some xs) k v = Ok (mput (Some xs) k v)"
  by (simp add: mstore_def mput_def)

lemma mstore_nil [simp]: "mstore None k v = Panic ''assignment to entry in nil map''"
  by (simp add: mstore_def)

lemma mkeys_mlookup: "k \<in> set (mkeys m) \<longleftrightarrow> mlookup m k \<noteq> None"
  by (auto simp: mkeys_def mlookup_def map_of_eq_None_iff)

lemma set_mkeys_mput [simp]: "set (mkeys (mput m k v)) = insert k (set (mkeys m))"
  by (auto simp: mkeys_def mput_def dom_update)

lemma wf_make_map [simp]: "wf_gomap make_map"
  by (simp add: wf_gomap_def make_map_def mkeys_def)

lemma wf_mput [simp]: "wf_gomap m \<Longrightarrow> wf_gomap (mput m k v)"
  by (simp add: wf_gomap_def mkeys_def mput_def distinct_update)

lemma mput_nonempty [simp]: "0 < mlen (mput m k v)"
  by (simp add: mlen_def mput_def update_nonempty)

lemma mlen_zero: "mlen m = 0 \<longleftrightarrow> (\<forall>k. mlookup m k = None)"
  by (cases "entries m") (auto simp: mlen_def mlookup_def)

text \<open>\<^verbatim>\<open>reflect.DeepEqual\<close> on two maps that are not nil is equality of their lookups.\<close>

lemma DeepEqual_map_iff:
  "DeepEqual_map a b \<longleftrightarrow> (a = None \<longleftrightarrow> b = None) \<and> mlookup a = mlookup b"
proof -
  have "list_all (\<lambda>k. mlookup a k = mlookup b k) (mkeys a @ mkeys b) \<Longrightarrow> mlookup a k = mlookup b k" for k
    by (cases "k \<in> set (mkeys a @ mkeys b)")
      (auto simp: list_all_iff mkeys_mlookup)
  then show ?thesis
    by (auto simp: DeepEqual_map_def list_all_iff fun_eq_iff)
qed

lemma DeepEqual_map_refl [simp]: "DeepEqual_map a a"
  by (simp add: DeepEqual_map_iff)

lemma DeepEqual_map_sym: "DeepEqual_map a b \<longleftrightarrow> DeepEqual_map b a"
  by (auto simp: DeepEqual_map_iff)

text \<open>
  Two lists of entries of one map differ in their order only: everything the program reads
  through lookups and sorted keys agrees.
\<close>

definition same_map :: "('k, 'v) gomap \<Rightarrow> ('k, 'v) gomap \<Rightarrow> bool" where
  "same_map a b \<longleftrightarrow> wf_gomap a \<and> wf_gomap b \<and> mlookup a = mlookup b"

lemma same_map_sorted_keys:
  "same_map a b \<Longrightarrow> sort (mkeys a) = sort (mkeys (b :: ('k::linorder, 'v) gomap))"
  by (rule sorted_distinct_set_unique)
    (auto simp: same_map_def wf_gomap_def mkeys_mlookup set_eq_iff)

end
