(* ===== verification/Api_Types.thy ===== *)
theory Api_Types
  imports Go_Strings Go_Maps
begin

text \<open>
  The data of the program: the custom resources of \<^verbatim>\<open>api/v1alpha1\<close>, the compatibility matrix
  of \<^verbatim>\<open>pkg/models\<close>, the constants of the controllers, and the fields of the Kubernetes and
  vSphere objects that the program reads or writes. Strings are byte lists. A string type with
  named constants is a datatype of these constants and the empty (unset) value.
\<close>

section \<open>The custom resources (api/v1alpha1)\<close>

record TopologyInfo =
  Zone :: string
  Region :: string

record CloudProviderConfig =
  VsphereCloudConfigs :: "string list"
  Topology :: TopologyInfo

record NetPermission =
  Ip :: string
  Permission :: string
  RootSquash :: bool

record FileVolume =
  VSanDataStoreUrl :: "string slice"
  NetPermissions :: "NetPermission list"

record StorageProviderConfig =
  SpVsphereCloudConfig :: string
  ClusterDistribution :: string
  FileVolumes :: FileVolume
  CustomKubeletPath :: string

record VDOConfigSpec =
  CloudProvider :: CloudProviderConfig
  StorageProvider :: StorageProviderConfig

datatype NodeStatus = NodeStatusPending | NodeStatusFailed | NodeStatusReady

datatype VDOConfigPhase = PhaseUnset | Deploying | Deployed | Configuring | Configured | Failed

record CPIStatus =
  CpiPhase :: VDOConfigPhase
  CpiStatusMsg :: string
  CpiNodeStatus :: "(string, NodeStatus) gomap"

record CSIStatus =
  CsiPhase :: VDOConfigPhase
  CsiStatusMsg :: string

record VDOConfigStatus =
  StCPI :: CPIStatus
  StCSI :: CSIStatus

record VDOConfig =
  VdoName :: string
  VdoNamespace :: string
  VdoSpec :: VDOConfigSpec
  VdoStatus :: VDOConfigStatus

datatype ConfigStatus = ConfigUnset | VsphereConfigFailed | VsphereConfigVerified

record VsphereCloudConfigSpec =
  VcIP :: string
  Insecure :: bool
  Credentials :: string
  Thumbprint :: string
  DataCenters :: "string slice"

record VsphereCloudConfigStatus =
  ConfigState :: ConfigStatus
  Message :: string

record VsphereCloudConfig =
  VccName :: string
  VccNamespace :: string
  VccSpec :: VsphereCloudConfigSpec
  VccStatus :: VsphereCloudConfigStatus

record CompatibilityConfig =
  CcName :: string
  CcNamespace :: string
  MatrixURL :: string

section \<open>The compatibility matrix (pkg/models)\<close>

record VersionRange =
  Min :: string
  Max :: string

record CSIVersionInfo =
  CsiVSphereVersion :: VersionRange
  CsiK8sVersion :: VersionRange
  IsCPIRequired :: bool
  CsiDeploymentPaths :: "string list"

record CPIVersionInfo =
  CpiVSphereVersion :: VersionRange
  SkewVersion :: string
  CpiDeploymentPaths :: "string list"

record CompatMatrix =
  CSISpecList :: "(string, CSIVersionInfo) gomap"
  CPISpecList :: "(string, CPIVersionInfo) gomap"

section \<open>Kubernetes objects\<close>

text \<open>\<^verbatim>\<open>types.NamespacedName\<close> and its \<^verbatim>\<open>String\<close> method.\<close>

record NamespacedName =
  NnNamespace :: string
  NnName :: string

definition nnString :: "NamespacedName \<Rightarrow> string" where
  "nnString k = NnNamespace k @ ''/'' @ NnName k"

record Secret =
  SecretKey :: NamespacedName
  SecretType :: string
  SecretData :: "(string, string) gomap"

record ConfigMap =
  CmKey :: NamespacedName
  CmData :: "(string, string) gomap"

record Taint =
  TaintKey :: string

datatype AddressType = NodeInternalIP | OtherAddress

record NodeAddress =
  AddrType :: AddressType
  Address :: string

record Node =
  NodeName :: string
  NodeLabels :: "(string, string) gomap"
  ProviderID :: string
  Taints :: "Taint list"
  Addresses :: "NodeAddress list"

datatype PodPhase = PodRunning | PodOtherPhase

record Pod =
  PodName :: string
  PodPhaseOf :: PodPhase

text \<open>A deployment: the name and image of its containers and the replica counts of its status.\<close>

record Deployment =
  DepName :: string
  DepNamespace :: string
  DepContainers :: "(string \<times> string) list"
  Replicas :: int
  AvailableReplicas :: int

text \<open>The source of a volume attachment: two pointers, of which one is set.\<close>

record VolumeAttachment =
  InlineAccessModes :: "string list option"
  PersistentVolumeName :: "string option"

text \<open>How \<^verbatim>\<open>vdoctl\<close> checks an input (\<^verbatim>\<open>vdoctl/pkg/utils/promptutil.go\<close>).\<close>

datatype ValidationFlags = IsPwd | IsURL | IsIPorFQDN | IsString

record VolumeMount =
  MountName :: string
  MountPath :: string

record EnvVar =
  EnvName :: string
  EnvValue :: string

text \<open>
  A probe and its action are pointers in Go: \<open>LivenessProbe\<close> is \<open>None\<close> without a probe,
  \<open>Some None\<close> for a probe without an exec action.
\<close>

record Container =
  ContainerName :: string
  Image :: string
  VolumeMounts :: "VolumeMount list"
  ContainerEnv :: "EnvVar list"
  LivenessProbe :: "string list option option"

record Volume =
  VolumeName :: string
  HostPath :: "string option"

text \<open>\<open>NumberUnavailable\<close> is an \<^verbatim>\<open>int32\<close>.\<close>

record DaemonSet =
  DsKey :: NamespacedName
  NumberUnavailable :: int
  Volumes :: "Volume list"
  Containers :: "Container list"

text \<open>
  An object of a deployment spec file: the program reads its kind and name and sets its
  namespace; the rest of its content is opaque to it.
\<close>

record Unstructured =
  UKind :: string
  UName :: string
  UNamespace :: string
  UBody :: string

section \<open>vSphere objects\<close>

text \<open>A client is an opaque connection to a vCenter server, with the version it reports.\<close>

record VcClient =
  ClientId :: nat
  AboutVersion :: string
  UserAgent :: string

record Datacenter =
  DcId :: nat
  InventoryPath :: string

record Session =
  SessClient :: VcClient
  Datacenters :: "Datacenter list"
  VsphereVersion :: string

record Url =
  UrlText :: string
  UrlHost :: string
  UrlUser :: string
  UrlPassword :: string

section \<open>Constants of the controllers\<close>

definition CLOUD_PROVIDER_INIT_TAINT_KEY :: string where
  "CLOUD_PROVIDER_INIT_TAINT_KEY = ''node.cloudprovider.kubernetes.io/uninitialized''"
definition VDO_NODE_LABEL_KEY :: string where
  "VDO_NODE_LABEL_KEY = ''vdo.vmware.com/vdoconfig''"
definition CPI_DEPLOYMENT_NAME :: string where
  "CPI_DEPLOYMENT_NAME = ''vsphere-cloud-controller-manager''"
definition DEPLOYMENT_NS :: string where
  "DEPLOYMENT_NS = ''kube-system''"
definition CPI_DAEMON_POD_KEY :: string where
  "CPI_DAEMON_POD_KEY = ''k8s-app''"
definition SECRET_NAME :: string where
  "SECRET_NAME = ''cpi-global-secret''"
definition CONFIGMAP_NAME :: string where
  "CONFIGMAP_NAME = ''cloud-config''"
definition CSI_DAEMONSET_NAME :: string where
  "CSI_DAEMONSET_NAME = ''vsphere-csi-node''"
definition CSI_DAEMON_POD_KEY :: string where
  "CSI_DAEMON_POD_KEY = ''app''"
definition CSI_SECRET_NAME :: string where
  "CSI_SECRET_NAME = ''vsphere-config-secret''"
definition CSI_FSS_CONFIGMAP :: string where
  "CSI_FSS_CONFIGMAP = ''internal-feature-states.csi.vsphere.vmware.com''"
definition CSI_NODE_ID :: string where
  "CSI_NODE_ID = ''use-csinode-id''"
definition CSI_SECRET_CONFIG_FILE :: string where
  "CSI_SECRET_CONFIG_FILE = ''/tmp/csi-vsphere.conf''"
definition COMPAT_MATRIX_CONFIG_URL :: string where
  "COMPAT_MATRIX_CONFIG_URL = ''MATRIX_CONFIG_URL''"
definition COMPAT_MATRIX_CONFIG_CONTENT :: string where
  "COMPAT_MATRIX_CONFIG_CONTENT = ''MATRIX_CONFIG_CONTENT''"
definition CM_NAME :: string where
  "CM_NAME = ''compat-matrix-config''"
definition CM_URL_KEY :: string where
  "CM_URL_KEY = ''versionConfigURL''"
definition CM_CONTENT_KEY :: string where
  "CM_CONTENT_KEY = ''versionConfigContent''"
definition CSI_DRIVER_REG_PATH :: string where
  "CSI_DRIVER_REG_PATH = ''DRIVER_REG_SOCK_PATH''"
definition VC_CREDS_SECRET_NS :: string where
  "VC_CREDS_SECRET_NS = ''kube-system''"

section \<open>Access to the nested records\<close>

abbreviation cpi_phase :: "VDOConfig \<Rightarrow> VDOConfigPhase" where
  "cpi_phase c \<equiv> CpiPhase (StCPI (VdoStatus c))"
abbreviation csi_phase :: "VDOConfig \<Rightarrow> VDOConfigPhase" where
  "csi_phase c \<equiv> CsiPhase (StCSI (VdoStatus c))"
abbreviation node_status :: "VDOConfig \<Rightarrow> (string, NodeStatus) gomap" where
  "node_status c \<equiv> CpiNodeStatus (StCPI (VdoStatus c))"
abbreviation cloud_configs :: "VDOConfig \<Rightarrow> string list" where
  "cloud_configs c \<equiv> VsphereCloudConfigs (CloudProvider (VdoSpec c))"
abbreviation storage_config :: "VDOConfig \<Rightarrow> string" where
  "storage_config c \<equiv> SpVsphereCloudConfig (StorageProvider (VdoSpec c))"

definition upd_cpi :: "(CPIStatus \<Rightarrow> CPIStatus) \<Rightarrow> VDOConfig \<Rightarrow> VDOConfig" where
  "upd_cpi f c = c\<lparr>VdoStatus := (VdoStatus c)\<lparr>StCPI := f (StCPI (VdoStatus c))\<rparr>\<rparr>"

definition upd_csi :: "(CSIStatus \<Rightarrow> CSIStatus) \<Rightarrow> VDOConfig \<Rightarrow> VDOConfig" where
  "upd_csi f c = c\<lparr>VdoStatus := (VdoStatus c)\<lparr>StCSI := f (StCSI (VdoStatus c))\<rparr>\<rparr>"

lemma upd_cpi_simps [simp]:
  "StCPI (VdoStatus (upd_cpi f c)) = f (StCPI (VdoStatus c))"
  "StCSI (VdoStatus (upd_cpi f c)) = StCSI (VdoStatus c)"
  "VdoSpec (upd_cpi f c) = VdoSpec c"
  "VdoName (upd_cpi f c) = VdoName c"
  "VdoNamespace (upd_cpi f c) = VdoNamespace c"
  by (simp_all add: upd_cpi_def)

lemma upd_csi_simps [simp]:
  "StCSI (VdoStatus (upd_csi f c)) = f (StCSI (VdoStatus c))"
  "StCPI (VdoStatus (upd_csi f c)) = StCPI (VdoStatus c)"
  "VdoSpec (upd_csi f c) = VdoSpec c"
  "VdoName (upd_csi f c) = VdoName c"
  "VdoNamespace (upd_csi f c) = VdoNamespace c"
  by (simp_all add: upd_csi_def)

end
