(* ===== verification/Effects.thy ===== *)
theory Effects
  imports Api_Types
begin

text \<open>
  The state of the operator process and the world it talks to.

  The Kubernetes API server, vCenter, the file system and the web are not part of the
  repository. Each request is an event, the \<open>trace\<close> records the requests made so far, and a
  \<open>world\<close> gives for every kind of request the reply as a function of the trace before it and
  of the request: a world is arbitrary, so it may fail at any point and show the effects of
  other actors between two requests. The pure functions of third-party libraries (version
  parsing, YAML, JSON and INI encoding) are fields of the world too.

  Operations are functions from a state to an outcome and the next state; \<open>bindM\<close> stops at the
  first error or panic, \<open>tryM\<close> turns an error into a value as \<^verbatim>\<open>x, err := f()\<close> does.
\<close>

section \<open>Requests\<close>

datatype call =
    ListVDOConfigs
  | StatusUpdateVDO VDOConfig
  | GetVCC NamespacedName
  | StatusUpdateVCC VsphereCloudConfig
  | GetCompatConfig NamespacedName
  | GetSecret NamespacedName
  | CreateSecretReq Secret
  | UpdateSecretReq Secret
  | GetConfigMap NamespacedName
  | CreateConfigMapReq ConfigMap
  | UpdateConfigMapReq ConfigMap
  | GetDaemonSet NamespacedName
  | UpdateDaemonSet DaemonSet
  | CreateNamespace string
  | DeleteNamespace string
  | CreateObject Unstructured
  | UpdateObject Unstructured
  | DeleteObject Unstructured
  | ListPods string string
  | ListNodes
  | UpdateNode Node
  | ListCSINodes
  | ListCSIDrivers
  | NewClientset
  | NewDiscoveryClient
  | ServerVersion
  | HttpGet string
  | ReadFile string
  | OpenFile string
  | TruncateFile string
  | WriteFile string string
  | RemoveFile string
  | SessionIsActive VcClient
  | NewVimClient Url bool string
  | Login VcClient Url
  | FindDatacenter VcClient string
  | FindByIp Datacenter string
  | ListDeployments
  | ListVCCs
  | CreateVCC VsphereCloudConfig
  | UpdateVCC VsphereCloudConfig
  | CreateVDO VDOConfig
  | ListVolumeAttachments
  | ListClusterRoleBindings string
  | DeleteClusterRoleBinding string
  | ListClusterRoles string
  | DeleteClusterRole string
  | PromptInput string ValidationFlags
  | PromptSelect "string list" string
  | Print string

section \<open>The world\<close>

text \<open>A read of a body is separate from the reply's status: both can fail.\<close>

record HttpResponse =
  StatusCode :: int
  Body :: "err + string"

text \<open>
  \<open>p_iniLoad\<close> says whether \<^verbatim>\<open>ini.Load\<close> accepts the content of a file; \<open>p_iniText\<close> is the
  text that \<^verbatim>\<open>SaveTo\<close> writes after the given \<^verbatim>\<open>SetValue\<close> calls (section, key, value) on
  the file loaded from that content.

  The answer of a selection of \<^verbatim>\<open>promptui\<close> is an index (negative for an added item), the item
  and an error or nil. \<open>p_requestHost\<close> is the host of the URL that \<^verbatim>\<open>url.ParseRequestURI\<close>
  reads, \<open>p_isIP\<close> says whether \<^verbatim>\<open>net.ParseIP\<close> reads an address.

  The data that \<open>CreateVsphereConfig\<close> marshals (\<^verbatim>\<open>cpi.Config\<close>).
\<close>

record Vcenter =
  Server :: string
  VcDatacenters :: "string slice"
  SecretName :: string
  SecretNamespace :: string
  Port :: nat
  InsecureFlag :: bool

record CpiConfig =
  VcenterMap :: "(string, Vcenter) gomap"
  LabelRegion :: string
  LabelZone :: string

type_synonym setting = "string \<times> string \<times> string"

record 'v world =
  w_listVDO :: "call list \<Rightarrow> err + VDOConfig list"
  w_statusVDO :: "call list \<Rightarrow> VDOConfig \<Rightarrow> err + VDOConfig"
  w_getVCC :: "call list \<Rightarrow> NamespacedName \<Rightarrow> err + VsphereCloudConfig"
  w_statusVCC :: "call list \<Rightarrow> VsphereCloudConfig \<Rightarrow> err + VsphereCloudConfig"
  w_getCompat :: "call list \<Rightarrow> NamespacedName \<Rightarrow> err + CompatibilityConfig"
  w_getSecret :: "call list \<Rightarrow> NamespacedName \<Rightarrow> err + Secret"
  w_createSecret :: "call list \<Rightarrow> Secret \<Rightarrow> err + unit"
  w_updateSecret :: "call list \<Rightarrow> Secret \<Rightarrow> err + unit"
  w_getConfigMap :: "call list \<Rightarrow> NamespacedName \<Rightarrow> err + ConfigMap"
  w_createConfigMap :: "call list \<Rightarrow> ConfigMap \<Rightarrow> err + unit"
  w_updateConfigMap :: "call list \<Rightarrow> ConfigMap \<Rightarrow> err + unit"
  w_getDaemonSet :: "call list \<Rightarrow> NamespacedName \<Rightarrow> err + DaemonSet"
  w_updateDaemonSet :: "call list \<Rightarrow> DaemonSet \<Rightarrow> err + unit"
  w_createNamespace :: "call list \<Rightarrow> string \<Rightarrow> err + unit"
  w_deleteNamespace :: "call list \<Rightarrow> string \<Rightarrow> err + unit"
  w_createObject :: "call list \<Rightarrow> Unstructured \<Rightarrow> err + unit"
  w_updateObject :: "call list \<Rightarrow> Unstructured \<Rightarrow> err + unit"
  w_deleteObject :: "call list \<Rightarrow> Unstructured \<Rightarrow> err + unit"
  w_listPods :: "call list \<Rightarrow> string \<Rightarrow> string \<Rightarrow> err + Pod list"
  w_listNodes :: "call list \<Rightarrow> err + Node list"
  w_updateNode :: "call list \<Rightarrow> Node \<Rightarrow> err + unit"
  w_listCSINodes :: "call list \<Rightarrow> err + string list"
  w_listCSIDrivers :: "call list \<Rightarrow> err + string list"
  w_newClientset :: "call list \<Rightarrow> err + unit"
  w_newDiscovery :: "call list \<Rightarrow> err + unit"
  w_serverVersion :: "call list \<Rightarrow> err + (string \<times> string)"
  w_httpGet :: "call list \<Rightarrow> string \<Rightarrow> err + HttpResponse"
  w_readFile :: "call list \<Rightarrow> string \<Rightarrow> err + string"
  w_openFile :: "call list \<Rightarrow> string \<Rightarrow> err + unit"
  w_truncateFile :: "call list \<Rightarrow> string \<Rightarrow> err + unit"
  w_writeFile :: "call list \<Rightarrow> string \<Rightarrow> string \<Rightarrow> err + unit"
  w_removeFile :: "call list \<Rightarrow> string \<Rightarrow> err + unit"
  w_sessionIsActive :: "call list \<Rightarrow> VcClient \<Rightarrow> err + bool"
  w_newVimClient :: "call list \<Rightarrow> Url \<Rightarrow> bool \<Rightarrow> string \<Rightarrow> err + VcClient"
  w_login :: "call list \<Rightarrow> VcClient \<Rightarrow> Url \<Rightarrow> err + unit"
  w_findDatacenter :: "call list \<Rightarrow> VcClient \<Rightarrow> string \<Rightarrow> err + Datacenter option"
  w_findByIp :: "call list \<Rightarrow> Datacenter \<Rightarrow> string \<Rightarrow> err + nat option"
  w_listDeployments :: "call list \<Rightarrow> err + Deployment list"
  w_listVCC :: "call list \<Rightarrow> err + VsphereCloudConfig list"
  w_createVCC :: "call list \<Rightarrow> VsphereCloudConfig \<Rightarrow> err + unit"
  w_updateVCC :: "call list \<Rightarrow> VsphereCloudConfig \<Rightarrow> err + unit"
  w_createVDO :: "call list \<Rightarrow> VDOConfig \<Rightarrow> err + unit"
  w_listVolumeAttachments :: "call list \<Rightarrow> err + VolumeAttachment list"
  w_listClusterRoleBindings :: "call list \<Rightarrow> string \<Rightarrow> err + string list"
  w_deleteClusterRoleBinding :: "call list \<Rightarrow> string \<Rightarrow> err + unit"
  w_listClusterRoles :: "call list \<Rightarrow> string \<Rightarrow> err + string list"
  w_deleteClusterRole :: "call list \<Rightarrow> string \<Rightarrow> err + unit"
  w_input :: "call list \<Rightarrow> string \<Rightarrow> ValidationFlags \<Rightarrow> err + string"
  w_select :: "call list \<Rightarrow> string list \<Rightarrow> string \<Rightarrow> int \<times> string \<times> err option"
  w_randHex :: "call list \<Rightarrow> nat \<Rightarrow> string"
  p_parseURL :: "string \<Rightarrow> err + Url option"
  p_requestHost :: "string \<Rightarrow> err + string"
  p_isIP :: "string \<Rightarrow> bool"
  p_newVersion :: "string \<Rightarrow> err + 'v"
  p_versionCompare :: "'v \<Rightarrow> 'v \<Rightarrow> int"
  p_jsonMatrix :: "string \<Rightarrow> err + CompatMatrix"
  p_yamlDocuments :: "string \<Rightarrow> string list \<times> err option"
  p_yamlKind :: "string \<Rightarrow> err + string"
  p_yamlListItems :: "string \<Rightarrow> err + string list"
  p_yamlObject :: "string \<Rightarrow> err + Unstructured"
  p_yamlCpiConfig :: "CpiConfig \<Rightarrow> string"
  p_iniLoad :: "string \<Rightarrow> err + unit"
  p_iniText :: "string \<Rightarrow> setting list \<Rightarrow> string"

section \<open>The state of the process\<close>

text \<open>
  \<open>cfg\<close> is the \<^verbatim>\<open>VDOConfig\<close> that a run of \<open>Reconcile\<close> works on: one object, shared by
  pointer with every function it is passed to. \<open>environ\<close> is the process environment,
  \<open>VDO_NAMESPACE\<close> and \<open>CsiNamespace\<close> are the package variables of \<^verbatim>\<open>controllers\<close>,
  \<open>VdoCurrentNamespace\<close> is that of the command line tool, \<open>sessionCache\<close> that of \<^verbatim>\<open>session\<close>; the others are fields of the reconciler.
\<close>

record St =
  trace :: "call list"
  cfg :: VDOConfig
  CsiDeploymentYamls :: "string list"
  CpiDeploymentYamls :: "string list"
  CurrentCSIDeployedVersion :: string
  CurrentCPIDeployedVersion :: string
  environ :: "string \<Rightarrow> string"
  VDO_NAMESPACE :: string
  CsiNamespace :: string
  sessionCache :: "(string \<times> Session) list"
  VdoCurrentNamespace :: string

type_synonym 'a M = "St \<Rightarrow> 'a outcome \<times> St"

definition ret :: "'a \<Rightarrow> 'a M" where
  "ret x s = (Ok x, s)"
definition throw :: "err \<Rightarrow> 'a M" where
  "throw e s = (Err e, s)"
definition panic :: "string \<Rightarrow> 'a M" where
  "panic m s = (Panic m, s)"
definition liftO :: "'a outcome \<Rightarrow> 'a M" where
  "liftO r s = (r, s)"

definition bindM :: "'a M \<Rightarrow> ('a \<Rightarrow> 'b M) \<Rightarrow> 'b M" where
  "bindM m k s = (case m s of (Ok x, t) \<Rightarrow> k x t | (Err e, t) \<Rightarrow> (Err e, t)
                  | (Panic p, t) \<Rightarrow> (Panic p, t))"

definition thenM :: "'a M \<Rightarrow> 'b M \<Rightarrow> 'b M" where
  "thenM m k = bindM m (\<lambda>_. k)"

definition tryM :: "'a M \<Rightarrow> (err + 'a) M" where
  "tryM m s = (case m s of (Ok x, t) \<Rightarrow> (Ok (Inr x), t) | (Err e, t) \<Rightarrow> (Ok (Inl e), t)
               | (Panic p, t) \<Rightarrow> (Panic p, t))"

text \<open>\<^verbatim>\<open>if err != nil { h(err); return err }\<close>\<close>

definition onErr :: "'a M \<Rightarrow> (err \<Rightarrow> unit M) \<Rightarrow> 'a M" where
  "onErr m h = bindM (tryM m) (\<lambda>r. case r of Inl e \<Rightarrow> thenM (h e) (throw e) | Inr x \<Rightarrow> ret x)"

text \<open>\<^verbatim>\<open>if err != nil { return errors.Wrap(err, msg) }\<close>\<close>

definition wrapM :: "string \<Rightarrow> 'a M \<Rightarrow> 'a M" where
  "wrapM msg m s = (case m s of (Err e, t) \<Rightarrow> (Err (Wrapped msg e), t) | r \<Rightarrow> r)"

text \<open>\<^verbatim>\<open>defer h()\<close>, with the results of \<open>h\<close> dropped.\<close>

definition deferM :: "'a M \<Rightarrow> 'b M \<Rightarrow> 'a M" where
  "deferM m h s = (case m s of (r, t) \<Rightarrow> (r, snd (h t)))"

definition getS :: "(St \<Rightarrow> 'a) \<Rightarrow> 'a M" where
  "getS f s = (Ok (f s), s)"
definition modS :: "(St \<Rightarrow> St) \<Rightarrow> unit M" where
  "modS f s = (Ok (), f s)"

text \<open>One request: the reply depends on the trace before it.\<close>

definition ask :: "call \<Rightarrow> (call list \<Rightarrow> err + 'a) \<Rightarrow> 'a M" where
  "ask c f s = (outcome_of (f (trace s)), s\<lparr>trace := trace s @ [c]\<rparr>)"

fun mapM :: "('a \<Rightarrow> 'b M) \<Rightarrow> 'a list \<Rightarrow> 'b list M" where
  "mapM f [] = ret []"
| "mapM f (x # xs) = bindM (f x) (\<lambda>y. bindM (mapM f xs) (\<lambda>ys. ret (y # ys)))"

fun forM :: "('a \<Rightarrow> unit M) \<Rightarrow> 'a list \<Rightarrow> unit M" where
  "forM f [] = ret ()"
| "forM f (x # xs) = thenM (f x) (forM f xs)"

fun foldM :: "('a \<Rightarrow> 'b \<Rightarrow> 'b M) \<Rightarrow> 'a list \<Rightarrow> 'b \<Rightarrow> 'b M" where
  "foldM f [] acc = ret acc"
| "foldM f (x # xs) acc = bindM (f x acc) (foldM f xs)"

definition modCfg :: "(VDOConfig \<Rightarrow> VDOConfig) \<Rightarrow> unit M" where
  "modCfg f = modS (\<lambda>s. s\<lparr>cfg := f (cfg s)\<rparr>)"

lemmas monad_defs = ret_def throw_def panic_def liftO_def bindM_def thenM_def tryM_def
  onErr_def wrapM_def deferM_def getS_def modS_def ask_def modCfg_def
  Let_def


section \<open>Reading a run\<close>

lemma ret_simp [simp]: "ret x s = (Ok x, s)" by (simp add: ret_def)
lemma throw_simp [simp]: "throw e s = (Err e, s)" by (simp add: throw_def)
lemma panic_simp [simp]: "panic m s = (Panic m, s)" by (simp add: panic_def)
lemma liftO_simp [simp]: "liftO r s = (r, s)" by (simp add: liftO_def)
lemma getS_simp [simp]: "getS f s = (Ok (f s), s)" by (simp add: getS_def)
lemma modS_simp [simp]: "modS f s = (Ok (), f s)" by (simp add: modS_def)
lemma modCfg_simp [simp]: "modCfg f s = (Ok (), s\<lparr>cfg := f (cfg s)\<rparr>)"
  by (simp add: modCfg_def)

lemma bindM_Ok_iff:
  "bindM m k s = (Ok y, u) \<longleftrightarrow> (\<exists>x t. m s = (Ok x, t) \<and> k x t = (Ok y, u))"
  by (auto simp: bindM_def split: prod.splits outcome.splits)

lemma bindM_Err_iff:
  "bindM m k s = (Err e, u) \<longleftrightarrow>
   m s = (Err e, u) \<or> (\<exists>x t. m s = (Ok x, t) \<and> k x t = (Err e, u))"
  by (auto simp: bindM_def split: prod.splits outcome.splits)

lemma thenM_Ok_iff:
  "thenM m k s = (Ok y, u) \<longleftrightarrow> (\<exists>x t. m s = (Ok x, t) \<and> k t = (Ok y, u))"
  by (simp add: thenM_def bindM_Ok_iff)

lemma tryM_Ok_iff:
  "tryM m s = (Ok r, t) \<longleftrightarrow>
   (\<exists>x. r = Inr x \<and> m s = (Ok x, t)) \<or> (\<exists>e. r = Inl e \<and> m s = (Err e, t))"
  by (auto simp: tryM_def split: prod.splits outcome.splits)

lemma tryM_not_Err [simp]: "tryM m s \<noteq> (Err e, t)"
  by (auto simp: tryM_def split: prod.splits outcome.splits)

lemma onErr_Ok_iff: "onErr m h s = (Ok x, t) \<longleftrightarrow> m s = (Ok x, t)"
  by (auto simp: onErr_def bindM_def tryM_def thenM_def split: prod.splits outcome.splits sum.splits)

lemma onErr_Err_iff:
  "(\<And>e s f t. h e s \<noteq> (Err f, t)) \<Longrightarrow>
   onErr m h s = (Err e, u) \<longleftrightarrow> (\<exists>t. m s = (Err e, t) \<and> h e t = (Ok (), u))"
  by (auto simp: onErr_def bindM_def tryM_def thenM_def split: prod.splits outcome.splits sum.splits)

lemma wrapM_Ok_iff: "wrapM msg m s = (Ok x, t) \<longleftrightarrow> m s = (Ok x, t)"
  by (auto simp: wrapM_def split: prod.splits outcome.splits)

lemma wrapM_Err_iff:
  "wrapM msg m s = (Err f, t) \<longleftrightarrow> (\<exists>e. f = Wrapped msg e \<and> m s = (Err e, t))"
  by (auto simp: wrapM_def split: prod.splits outcome.splits)

lemma deferM_Ok_iff:
  "deferM m h s = (Ok x, u) \<longleftrightarrow> (\<exists>t. m s = (Ok x, t) \<and> u = snd (h t))"
  by (auto simp: deferM_def split: prod.splits)

lemma ask_Ok_iff:
  "ask c f s = (Ok x, t) \<longleftrightarrow> f (trace s) = Inr x \<and> t = s\<lparr>trace := trace s @ [c]\<rparr>"
  by (auto simp: ask_def)

lemmas runs = bindM_Ok_iff thenM_Ok_iff tryM_Ok_iff onErr_Ok_iff wrapM_Ok_iff deferM_Ok_iff ask_Ok_iff

lemma bindM_assoc: "bindM (bindM m f) g = bindM m (\<lambda>x. bindM (f x) g)"
  by (auto simp: bindM_def fun_eq_iff split: prod.split outcome.split)

lemma bindM_ret [simp]: "bindM (ret x) k = k x"
  by (simp add: bindM_def fun_eq_iff)

lemma thenM_ret [simp]: "thenM (ret x) k = k"
  by (simp add: thenM_def)

section \<open>Relations that operations keep\<close>

text \<open>
  \<open>keeps R m\<close>: every run of \<open>m\<close>, whatever its outcome, ends in a state related by \<open>R\<close> to the
  one it starts in. For a reflexive and transitive \<open>R\<close> it follows from the parts of \<open>m\<close>; the
  rules below are collected in \<open>keeps_intro\<close> when the locale is interpreted.
\<close>

definition keeps :: "(St \<Rightarrow> St \<Rightarrow> bool) \<Rightarrow> 'a M \<Rightarrow> bool" where
  "keeps R m \<longleftrightarrow> (\<forall>s. R s (snd (m s)))"

lemma keepsD: "keeps R m \<Longrightarrow> m s = (r, t) \<Longrightarrow> R s t"
  by (metis keeps_def snd_conv)

lemma keepsI: "(\<And>s r t. m s = (r, t) \<Longrightarrow> R s t) \<Longrightarrow> keeps R m"
  by (simp add: keeps_def prod_eq_iff)

lemma snd_tryM: "snd (tryM m s) = snd (m s)"
  by (simp add: tryM_def split: prod.split outcome.split)

lemma snd_wrapM: "snd (wrapM msg m s) = snd (m s)"
  by (simp add: wrapM_def split: prod.split outcome.split)

locale step_relation =
  fixes R :: "St \<Rightarrow> St \<Rightarrow> bool"
  assumes R_refl: "R s s"
    and R_trans: "R s t \<Longrightarrow> R t u \<Longrightarrow> R s u"
begin

lemma keeps_pure [keeps_intro]:
  "keeps R (ret x)" "keeps R (throw e)" "keeps R (panic p)" "keeps R (liftO r)" "keeps R (getS f)"
  "keeps R (Pair r)"
  by (simp_all add: keeps_def R_refl)

lemma keeps_modS: "(\<And>s. R s (f s)) \<Longrightarrow> keeps R (modS f)"
  by (simp add: keeps_def)

lemma keeps_modCfg: "(\<And>s. R s (s\<lparr>cfg := f (cfg s)\<rparr>)) \<Longrightarrow> keeps R (modCfg f)"
  by (simp add: keeps_def)

lemma keeps_ask: "(\<And>s. R s (s\<lparr>trace := trace s @ [c]\<rparr>)) \<Longrightarrow> keeps R (ask c f)"
  by (simp add: keeps_def ask_def)

lemma keeps_bindM [keeps_intro]:
  assumes "keeps R m" and "\<And>x s t. m s = (Ok x, t) \<Longrightarrow> keeps R (k x)"
  shows "keeps R (bindM m k)"
proof (rule keepsI)
  fix s r u
  assume run: "bindM m k s = (r, u)"
  obtain q t where m: "m s = (q, t)" by (cases "m s")
  with assms(1) have "R s t" by (rule keepsD)
  show "R s u"
  proof (cases q)
    case (Ok x)
    with m assms(2) have "keeps R (k x)" by simp
    moreover have "k x t = (r, u)" using run m Ok by (simp add: bindM_def)
    ultimately have "R t u" by (rule keepsD)
    with \<open>R s t\<close> show ?thesis by (rule R_trans)
  qed (use run m \<open>R s t\<close> in \<open>auto simp: bindM_def\<close>)
qed

lemma keeps_thenM [keeps_intro]: "keeps R m \<Longrightarrow> keeps R k \<Longrightarrow> keeps R (thenM m k)"
  unfolding thenM_def by (rule keeps_bindM)

lemma keeps_tryM [keeps_intro]: "keeps R m \<Longrightarrow> keeps R (tryM m)"
  by (simp add: keeps_def snd_tryM)

lemma keeps_wrapM [keeps_intro]: "keeps R m \<Longrightarrow> keeps R (wrapM msg m)"
  by (simp add: keeps_def snd_wrapM)

lemma keeps_onErr [keeps_intro]:
  "keeps R m \<Longrightarrow> (\<And>e. keeps R (h e)) \<Longrightarrow> keeps R (onErr m h)"
  unfolding onErr_def
  by (intro keeps_bindM keeps_tryM) (auto split: sum.splits intro: keeps_thenM keeps_pure)

lemma keeps_deferM [keeps_intro]: "keeps R m \<Longrightarrow> keeps R h \<Longrightarrow> keeps R (deferM m h)"
  by (auto simp: keeps_def deferM_def split: prod.splits) (metis R_trans snd_conv)

lemma keeps_mapM [keeps_intro]: "(\<And>x. x \<in> set xs \<Longrightarrow> keeps R (f x)) \<Longrightarrow> keeps R (mapM f xs)"
  by (induction xs) (auto intro!: keeps_bindM keeps_pure)

lemma keeps_forM [keeps_intro]: "(\<And>x. x \<in> set xs \<Longrightarrow> keeps R (f x)) \<Longrightarrow> keeps R (forM f xs)"
  by (induction xs) (auto intro!: keeps_thenM keeps_pure)

lemma keeps_foldM [keeps_intro]:
  "(\<And>x acc. x \<in> set xs \<Longrightarrow> keeps R (f x acc)) \<Longrightarrow> keeps R (foldM f xs acc)"
  by (induction xs arbitrary: acc) (auto intro!: keeps_bindM keeps_pure)

end

lemma keeps_if [keeps_intro]:
  "(b \<Longrightarrow> keeps R m) \<Longrightarrow> (\<not> b \<Longrightarrow> keeps R k) \<Longrightarrow> keeps R (if b then m else k)"
  by simp

lemma keeps_case_option [keeps_intro]:
  "(x = None \<Longrightarrow> keeps R m) \<Longrightarrow> (\<And>y. x = Some y \<Longrightarrow> keeps R (k y)) \<Longrightarrow>
   keeps R (case x of None \<Rightarrow> m | Some y \<Rightarrow> k y)"
  by (cases x) auto

lemma keeps_case_sum [keeps_intro]:
  "(\<And>y. x = Inl y \<Longrightarrow> keeps R (m y)) \<Longrightarrow> (\<And>y. x = Inr y \<Longrightarrow> keeps R (k y)) \<Longrightarrow>
   keeps R (case x of Inl y \<Rightarrow> m y | Inr y \<Rightarrow> k y)"
  by (cases x) auto

lemma keeps_case_prod [keeps_intro]:
  "(\<And>a b. x = (a, b) \<Longrightarrow> keeps R (m a b)) \<Longrightarrow> keeps R (case x of (a, b) \<Rightarrow> m a b)"
  by (cases x) auto

lemma keeps_case_list [keeps_intro]:
  "(x = [] \<Longrightarrow> keeps R m) \<Longrightarrow> (\<And>y ys. x = y # ys \<Longrightarrow> keeps R (k y ys)) \<Longrightarrow>
   keeps R (case x of [] \<Rightarrow> m | y # ys \<Rightarrow> k y ys)"
  by (cases x) auto

lemma keeps_Let [keeps_intro]: "keeps R (f x) \<Longrightarrow> keeps R (Let x f)"
  by simp

section \<open>Absence of panics\<close>

definition no_panic :: "'a M \<Rightarrow> bool" where
  "no_panic m \<longleftrightarrow> (\<forall>s p. fst (m s) \<noteq> Panic p)"

lemma no_panicD: "no_panic m \<Longrightarrow> m s \<noteq> (Panic p, t)"
  by (metis no_panic_def fst_conv)

lemma no_panic_pure [no_panic_intro]:
  "no_panic (ret x)" "no_panic (throw e)" "no_panic (getS f)" "no_panic (modS g)" "no_panic (modCfg h)"
  "no_panic (ask c q)" "no_panic (liftO (outcome_of v))" "no_panic (Pair (Ok x))" "no_panic (Pair (Err e))"
  by (simp_all add: no_panic_def ask_def)

lemma no_panic_bindM [no_panic_intro]:
  "no_panic m \<Longrightarrow> (\<And>x s t. m s = (Ok x, t) \<Longrightarrow> no_panic (k x)) \<Longrightarrow> no_panic (bindM m k)"
  by (auto simp: no_panic_def bindM_def split: prod.splits outcome.splits) (metis fst_conv)+

lemma no_panic_thenM [no_panic_intro]: "no_panic m \<Longrightarrow> no_panic k \<Longrightarrow> no_panic (thenM m k)"
  unfolding thenM_def by (rule no_panic_bindM)

lemma no_panic_tryM [no_panic_intro]: "no_panic m \<Longrightarrow> no_panic (tryM m)"
  by (auto simp: no_panic_def tryM_def split: prod.splits outcome.splits) (metis fst_conv)

lemma no_panic_wrapM [no_panic_intro]: "no_panic m \<Longrightarrow> no_panic (wrapM msg m)"
  by (auto simp: no_panic_def wrapM_def split: prod.splits outcome.splits) (metis fst_conv)

lemma no_panic_onErr [no_panic_intro]:
  "no_panic m \<Longrightarrow> (\<And>e. no_panic (h e)) \<Longrightarrow> no_panic (onErr m h)"
  unfolding onErr_def
  by (intro no_panic_bindM no_panic_tryM) (auto split: sum.splits intro: no_panic_thenM no_panic_pure)

lemma no_panic_deferM [no_panic_intro]: "no_panic m \<Longrightarrow> no_panic (deferM m h)"
  by (auto simp: no_panic_def deferM_def split: prod.splits) (metis fst_conv)

lemma no_panic_mapM [no_panic_intro]:
  "(\<And>x. x \<in> set xs \<Longrightarrow> no_panic (f x)) \<Longrightarrow> no_panic (mapM f xs)"
  by (induction xs) (auto intro!: no_panic_intro)

lemma no_panic_forM [no_panic_intro]:
  "(\<And>x. x \<in> set xs \<Longrightarrow> no_panic (f x)) \<Longrightarrow> no_panic (forM f xs)"
  by (induction xs) (auto intro!: no_panic_intro)

lemma no_panic_foldM [no_panic_intro]:
  "(\<And>x acc. x \<in> set xs \<Longrightarrow> no_panic (f x acc)) \<Longrightarrow> no_panic (foldM f xs acc)"
  by (induction xs arbitrary: acc) (auto intro!: no_panic_intro)

lemma no_panic_cases [no_panic_intro]:
  "(b \<Longrightarrow> no_panic m) \<Longrightarrow> (\<not> b \<Longrightarrow> no_panic k) \<Longrightarrow> no_panic (if b then m else k)"
  "(x = None \<Longrightarrow> no_panic m) \<Longrightarrow> (\<And>y. x = Some y \<Longrightarrow> no_panic (g y)) \<Longrightarrow>
   no_panic (case x of None \<Rightarrow> m | Some y \<Rightarrow> g y)"
  "(\<And>l. u = Inl l \<Longrightarrow> no_panic (h l)) \<Longrightarrow> (\<And>r. u = Inr r \<Longrightarrow> no_panic (j r)) \<Longrightarrow>
   no_panic (case u of Inl l \<Rightarrow> h l | Inr r \<Rightarrow> j r)"
  "(\<And>a c. q = (a, c) \<Longrightarrow> no_panic (i a c)) \<Longrightarrow> no_panic (case q of (a, c) \<Rightarrow> i a c)"
  "no_panic (f v) \<Longrightarrow> no_panic (Let v f)"
  by (auto split: option.split sum.split prod.split)

section \<open>The relations of the development\<close>

text \<open>
  \<open>emits Q\<close>: the trace only grows, by requests that satisfy \<open>Q\<close>. \<open>fixes_field f\<close>: the
  component \<open>f\<close> of the state does not change.
\<close>

definition new_calls :: "St \<Rightarrow> St \<Rightarrow> call list" where
  "new_calls s t = drop (length (trace s)) (trace t)"

definition emits :: "(call \<Rightarrow> bool) \<Rightarrow> St \<Rightarrow> St \<Rightarrow> bool" where
  "emits Q s t \<longleftrightarrow> trace t = trace s @ new_calls s t \<and> list_all Q (new_calls s t)"

definition fixes_field :: "(St \<Rightarrow> 'b) \<Rightarrow> St \<Rightarrow> St \<Rightarrow> bool" where
  "fixes_field f s t \<longleftrightarrow> f t = f s"

lemma emitsI: "trace t = trace s @ cs \<Longrightarrow> list_all Q cs \<Longrightarrow> emits Q s t"
  by (simp add: emits_def new_calls_def)

lemma emitsE:
  assumes "emits Q s t"
  obtains cs where "trace t = trace s @ cs" "list_all Q cs" "new_calls s t = cs"
  using assms by (auto simp: emits_def)

interpretation emits: step_relation "emits Q" for Q
proof unfold_locales
  fix s t u
  show "emits Q s s" by (rule emitsI [where cs = "[]"]) simp_all
  assume "emits Q s t" "emits Q t u"
  then obtain cs ds where "trace t = trace s @ cs" "list_all Q cs"
    "trace u = trace t @ ds" "list_all Q ds"
    by (metis emitsE)
  then show "emits Q s u" by (intro emitsI [where cs = "cs @ ds"]) simp_all
qed

interpretation fixed: step_relation "fixes_field f" for f
  by unfold_locales (simp_all add: fixes_field_def)

lemma emits_ask [keeps_intro]: "Q c \<Longrightarrow> keeps (emits Q) (ask c f)"
  by (rule emits.keeps_ask) (rule emitsI, auto)

lemma emits_modCfg [keeps_intro]: "keeps (emits Q) (modCfg f)"
  by (rule emits.keeps_modCfg) (rule emitsI [where cs = "[]"], simp_all)

lemma emits_modS [keeps_intro]: "(\<And>s. trace (f s) = trace s) \<Longrightarrow> keeps (emits Q) (modS f)"
  by (rule emits.keeps_modS) (rule emitsI [where cs = "[]"], simp_all)

lemma emits_mono: "emits Q s t \<Longrightarrow> (\<And>c. Q c \<Longrightarrow> P c) \<Longrightarrow> emits P s t"
  by (auto simp: emits_def list_all_iff)

lemma keeps_emits_mono: "keeps (emits Q) m \<Longrightarrow> (\<And>c. Q c \<Longrightarrow> P c) \<Longrightarrow> keeps (emits P) m"
  by (auto simp: keeps_def intro: emits_mono)

lemma fixed_ask [keeps_intro]:
  "(\<And>s. f (s\<lparr>trace := trace s @ [c]\<rparr>) = f s) \<Longrightarrow> keeps (fixes_field f) (ask c g)"
  by (rule fixed.keeps_ask) (simp add: fixes_field_def)

lemma fixed_modCfg [keeps_intro]:
  "(\<And>s. f (s\<lparr>cfg := g (cfg s)\<rparr>) = f s) \<Longrightarrow> keeps (fixes_field f) (modCfg g)"
  by (rule fixed.keeps_modCfg) (simp add: fixes_field_def)

lemma fixed_modS [keeps_intro]:
  "(\<And>s. f (g s) = f s) \<Longrightarrow> keeps (fixes_field f) (modS g)"
  by (rule fixed.keeps_modS) (simp add: fixes_field_def)

section \<open>Operations that start with a given request\<close>

text \<open>\<open>starts c Q m\<close>: every run of \<open>m\<close> makes the request \<open>c\<close> first and then only requests in \<open>Q\<close>.\<close>

definition starts :: "call \<Rightarrow> (call \<Rightarrow> bool) \<Rightarrow> 'a M \<Rightarrow> bool" where
  "starts c Q m \<longleftrightarrow> (\<forall>s. \<exists>cs. trace (snd (m s)) = trace s @ c # cs \<and> list_all Q cs)"

lemma startsD: "starts c Q m \<Longrightarrow> m s = (r, t) \<Longrightarrow> \<exists>cs. trace t = trace s @ c # cs \<and> list_all Q cs"
  by (metis starts_def snd_conv)

lemma starts_ask: "starts c Q (ask c f)"
  by (auto simp: starts_def ask_def)

lemma starts_emits: "starts c Q m \<Longrightarrow> Q c \<Longrightarrow> keeps (emits Q) m"
  by (rule keepsI, drule startsD, assumption) (auto intro: emitsI)

lemma starts_bindM:
  assumes "starts c Q m" and "\<And>x. keeps (emits Q) (k x)"
  shows "starts c Q (bindM m k)"
  unfolding starts_def
proof
  fix s
  obtain q u where m: "m s = (q, u)" by force
  from startsD [OF assms(1) m] obtain cs where u: "trace u = trace s @ c # cs" "list_all Q cs" by blast
  show "\<exists>cs. trace (snd (bindM m k s)) = trace s @ c # cs \<and> list_all Q cs"
  proof (cases q)
    case (Ok x)
    obtain r t where "k x u = (r, t)" by force
    with keepsD [OF assms(2) this] u Ok m show ?thesis
      by (auto simp: bindM_def elim!: emitsE)
  qed (use u m in \<open>auto simp: bindM_def\<close>)
qed

lemma starts_tryM: "starts c Q m \<Longrightarrow> starts c Q (tryM m)"
  by (simp add: starts_def snd_tryM)

lemma starts_wrapM: "starts c Q m \<Longrightarrow> starts c Q (wrapM msg m)"
  by (simp add: starts_def snd_wrapM)

lemma starts_thenM: "starts c Q m \<Longrightarrow> keeps (emits Q) k \<Longrightarrow> starts c Q (thenM m k)"
  unfolding thenM_def by (rule starts_bindM)

lemma starts_onErr: "starts c Q m \<Longrightarrow> (\<And>e. keeps (emits Q) (h e)) \<Longrightarrow> starts c Q (onErr m h)"
  unfolding onErr_def
  by (intro starts_bindM starts_tryM) (auto split: sum.split intro!: keeps_intro)

lemmas starts_intro = starts_ask starts_tryM starts_wrapM starts_thenM starts_onErr starts_bindM

end
