(* ===== verification/Sample_World.thy ===== *)
theory Sample_World
  imports Effects
begin

text \<open>
  A concrete world for the witnesses: every request is refused, version strings are dotted
  decimal numbers, and the encodings are toy ones. A witness overrides the replies it needs.
  The initial state of the process is that of \<^verbatim>\<open>main.go\<close>: a reconciler whose fields are the
  zero values, and an empty session cache.
\<close>

definition sample_refusal :: err where
  "sample_refusal = ApiErr OtherReason ''refused''"

fun sample_nat :: "string \<Rightarrow> nat \<Rightarrow> nat option" where
  "sample_nat [] n = Some n"
| "sample_nat (c # cs) n =
     (let d = (of_char c :: nat) in if 48 \<le> d \<and> d \<le> 57 then sample_nat cs (10 * n + (d - 48)) else None)"

definition sample_field :: "string \<Rightarrow> nat option" where
  "sample_field s = (if s = [] then None else sample_nat s 0)"

definition sample_newVersion :: "string \<Rightarrow> err + nat list" where
  "sample_newVersion s =
     (let fs = map sample_field (Split s (CHR ''.''))
      in if None \<in> set fs then Inl (Msg ''Malformed version'') else Inr (map the fs))"

text \<open>Missing segments count as zero.\<close>

fun sample_compare :: "nat list \<Rightarrow> nat list \<Rightarrow> int" where
  "sample_compare [] [] = 0"
| "sample_compare [] (b # bs) = (if 0 < b then -1 else sample_compare [] bs)"
| "sample_compare (a # as) [] = (if 0 < a then 1 else sample_compare as [])"
| "sample_compare (a # as) (b # bs) =
     (if a < b then -1 else if b < a then 1 else sample_compare as bs)"

definition down_world :: "nat list world" where
  "down_world =
    \<lparr>w_listVDO = (\<lambda>_. Inl sample_refusal),
     w_statusVDO = (\<lambda>_ _. Inl sample_refusal),
     w_getVCC = (\<lambda>_ _. Inl sample_refusal),
     w_statusVCC = (\<lambda>_ _. Inl sample_refusal),
     w_getCompat = (\<lambda>_ _. Inl sample_refusal),
     w_getSecret = (\<lambda>_ _. Inl sample_refusal),
     w_createSecret = (\<lambda>_ _. Inl sample_refusal),
     w_updateSecret = (\<lambda>_ _. Inl sample_refusal),
     w_getConfigMap = (\<lambda>_ _. Inl sample_refusal),
     w_createConfigMap = (\<lambda>_ _. Inl sample_refusal),
     w_updateConfigMap = (\<lambda>_ _. Inl sample_refusal),
     w_getDaemonSet = (\<lambda>_ _. Inl sample_refusal),
     w_updateDaemonSet = (\<lambda>_ _. Inl sample_refusal),
     w_createNamespace = (\<lambda>_ _. Inl sample_refusal),
     w_deleteNamespace = (\<lambda>_ _. Inl sample_refusal),
     w_createObject = (\<lambda>_ _. Inl sample_refusal),
     w_updateObject = (\<lambda>_ _. Inl sample_refusal),
     w_deleteObject = (\<lambda>_ _. Inl sample_refusal),
     w_listPods = (\<lambda>_ _ _. Inl sample_refusal),
     w_listNodes = (\<lambda>_. Inl sample_refusal),
     w_updateNode = (\<lambda>_ _. Inl sample_refusal),
     w_listCSINodes = (\<lambda>_. Inl sample_refusal),
     w_listCSIDrivers = (\<lambda>_. Inl sample_refusal),
     w_newClientset = (\<lambda>_. Inl sample_refusal),
     w_newDiscovery = (\<lambda>_. Inl sample_refusal),
     w_serverVersion = (\<lambda>_. Inl sample_refusal),
     w_httpGet = (\<lambda>_ _. Inl sample_refusal),
     w_readFile = (\<lambda>_ _. Inl sample_refusal),
     w_openFile = (\<lambda>_ _. Inl sample_refusal),
     w_truncateFile = (\<lambda>_ _. Inl sample_refusal),
     w_writeFile = (\<lambda>_ _ _. Inl sample_refusal),
     w_removeFile = (\<lambda>_ _. Inl sample_refusal),
     w_sessionIsActive = (\<lambda>_ _. Inl sample_refusal),
     w_newVimClient = (\<lambda>_ _ _ _. Inl sample_refusal),
     w_login = (\<lambda>_ _ _. Inl sample_refusal),
     w_findDatacenter = (\<lambda>_ _ _. Inl sample_refusal),
     w_findByIp = (\<lambda>_ _ _. Inl sample_refusal),
     w_listDeployments = (\<lambda>_. Inl sample_refusal),
     w_listVCC = (\<lambda>_. Inl sample_refusal),
     w_createVCC = (\<lambda>_ _. Inl sample_refusal),
     w_updateVCC = (\<lambda>_ _. Inl sample_refusal),
     w_createVDO = (\<lambda>_ _. Inl sample_refusal),
     w_listVolumeAttachments = (\<lambda>_. Inl sample_refusal),
     w_listClusterRoleBindings = (\<lambda>_ _. Inl sample_refusal),
     w_deleteClusterRoleBinding = (\<lambda>_ _. Inl sample_refusal),
     w_listClusterRoles = (\<lambda>_ _. Inl sample_refusal),
     w_deleteClusterRole = (\<lambda>_ _. Inl sample_refusal),
     w_input = (\<lambda>_ _ _. Inl sample_refusal),
     w_select = (\<lambda>_ items _. (0, hd items, None)),
     w_randHex = (\<lambda>_ n. replicate n (CHR ''a'')),
     p_parseURL = (\<lambda>u. Inr (Some \<lparr>UrlText = u, UrlHost = u, UrlUser = [], UrlPassword = []\<rparr>)),
     p_requestHost = (\<lambda>u. Inr u),
     p_isIP = (\<lambda>a. set a \<subseteq> set ''0123456789.''),
     p_newVersion = sample_newVersion,
     p_versionCompare = sample_compare,
     p_jsonMatrix = (\<lambda>_. Inl (Msg ''unexpected end of JSON input'')),
     p_yamlDocuments = (\<lambda>d. (Split d (CHR '';''), None)),
     p_yamlKind = (\<lambda>d. Inr (if d = [] then [] else ''Service'')),
     p_yamlListItems = (\<lambda>d. Inr [d]),
     p_yamlObject = (\<lambda>d. Inr \<lparr>UKind = ''Service'', UName = d, UNamespace = [], UBody = d\<rparr>),
     p_yamlCpiConfig = (\<lambda>c. ''region: '' @ LabelRegion c),
     p_iniLoad = (\<lambda>_. Inr ()),
     p_iniText = (\<lambda>_ ss. Join (map (\<lambda>(a, b, c). a @ ''/'' @ b @ ''='' @ c) ss) '';'')\<rparr>"

lemma down_world_simps [simp]:
  "w_listVDO down_world = (\<lambda>_. Inl sample_refusal)"
  "w_statusVDO down_world = (\<lambda>_ _. Inl sample_refusal)"
  "w_getVCC down_world = (\<lambda>_ _. Inl sample_refusal)"
  "w_statusVCC down_world = (\<lambda>_ _. Inl sample_refusal)"
  "w_getCompat down_world = (\<lambda>_ _. Inl sample_refusal)"
  "w_getSecret down_world = (\<lambda>_ _. Inl sample_refusal)"
  "w_createSecret down_world = (\<lambda>_ _. Inl sample_refusal)"
  "w_updateSecret down_world = (\<lambda>_ _. Inl sample_refusal)"
  "w_getConfigMap down_world = (\<lambda>_ _. Inl sample_refusal)"
  "w_createConfigMap down_world = (\<lambda>_ _. Inl sample_refusal)"
  "w_updateConfigMap down_world = (\<lambda>_ _. Inl sample_refusal)"
  "w_getDaemonSet down_world = (\<lambda>_ _. Inl sample_refusal)"
  "w_updateDaemonSet down_world = (\<lambda>_ _. Inl sample_refusal)"
  "w_createNamespace down_world = (\<lambda>_ _. Inl sample_refusal)"
  "w_deleteNamespace down_world = (\<lambda>_ _. Inl sample_refusal)"
  "w_createObject down_world = (\<lambda>_ _. Inl sample_refusal)"
  "w_updateObject down_world = (\<lambda>_ _. Inl sample_refusal)"
  "w_deleteObject down_world = (\<lambda>_ _. Inl sample_refusal)"
  "w_listPods down_world = (\<lambda>_ _ _. Inl sample_refusal)"
  "w_listNodes down_world = (\<lambda>_. Inl sample_refusal)"
  "w_updateNode down_world = (\<lambda>_ _. Inl sample_refusal)"
  "w_listCSINodes down_world = (\<lambda>_. Inl sample_refusal)"
  "w_listCSIDrivers down_world = (\<lambda>_. Inl sample_refusal)"
  "w_newClientset down_world = (\<lambda>_. Inl sample_refusal)"
  "w_newDiscovery down_world = (\<lambda>_. Inl sample_refusal)"
  "w_serverVersion down_world = (\<lambda>_. Inl sample_refusal)"
  "w_httpGet down_world = (\<lambda>_ _. Inl sample_refusal)"
  "w_readFile down_world = (\<lambda>_ _. Inl sample_refusal)"
  "w_openFile down_world = (\<lambda>_ _. Inl sample_refusal)"
  "w_truncateFile down_world = (\<lambda>_ _. Inl sample_refusal)"
  "w_writeFile down_world = (\<lambda>_ _ _. Inl sample_refusal)"
  "w_removeFile down_world = (\<lambda>_ _. Inl sample_refusal)"
  "w_sessionIsActive down_world = (\<lambda>_ _. Inl sample_refusal)"
  "w_newVimClient down_world = (\<lambda>_ _ _ _. Inl sample_refusal)"
  "w_login down_world = (\<lambda>_ _ _. Inl sample_refusal)"
  "w_findDatacenter down_world = (\<lambda>_ _ _. Inl sample_refusal)"
  "w_findByIp down_world = (\<lambda>_ _ _. Inl sample_refusal)"
  "w_listDeployments down_world = (\<lambda>_. Inl sample_refusal)"
  "w_listVCC down_world = (\<lambda>_. Inl sample_refusal)"
  "w_createVCC down_world = (\<lambda>_ _. Inl sample_refusal)"
  "w_updateVCC down_world = (\<lambda>_ _. Inl sample_refusal)"
  "w_createVDO down_world = (\<lambda>_ _. Inl sample_refusal)"
  "w_listVolumeAttachments down_world = (\<lambda>_. Inl sample_refusal)"
  "w_listClusterRoleBindings down_world = (\<lambda>_ _. Inl sample_refusal)"
  "w_deleteClusterRoleBinding down_world = (\<lambda>_ _. Inl sample_refusal)"
  "w_listClusterRoles down_world = (\<lambda>_ _. Inl sample_refusal)"
  "w_deleteClusterRole down_world = (\<lambda>_ _. Inl sample_refusal)"
  "w_input down_world = (\<lambda>_ _ _. Inl sample_refusal)"
  "w_select down_world = (\<lambda>_ items _. (0, hd items, None))"
  "w_randHex down_world = (\<lambda>_ n. replicate n (CHR ''a''))"
  "p_parseURL down_world = (\<lambda>u. Inr (Some \<lparr>UrlText = u, UrlHost = u, UrlUser = [], UrlPassword = []\<rparr>))"
  "p_requestHost down_world = (\<lambda>u. Inr u)"
  "p_isIP down_world = (\<lambda>a. set a \<subseteq> set ''0123456789.'')"
  "p_newVersion down_world = sample_newVersion"
  "p_versionCompare down_world = sample_compare"
  "p_jsonMatrix down_world = (\<lambda>_. Inl (Msg ''unexpected end of JSON input''))"
  "p_yamlDocuments down_world = (\<lambda>d. (Split d (CHR '';''), None))"
  "p_yamlKind down_world = (\<lambda>d. Inr (if d = [] then [] else ''Service''))"
  "p_yamlListItems down_world = (\<lambda>d. Inr [d])"
  "p_yamlObject down_world = (\<lambda>d. Inr \<lparr>UKind = ''Service'', UName = d, UNamespace = [], UBody = d\<rparr>)"
  "p_yamlCpiConfig down_world = (\<lambda>c. ''region: '' @ LabelRegion c)"
  "p_iniLoad down_world = (\<lambda>_. Inr ())"
  "p_iniText down_world = (\<lambda>_ ss. Join (map (\<lambda>(a, b, c). a @ ''/'' @ b @ ''='' @ c) ss) '';'')"
  by (simp_all add: down_world_def)

definition empty_cfg :: VDOConfig where
  "empty_cfg =
    \<lparr>VdoName = [], VdoNamespace = [],
     VdoSpec = \<lparr>CloudProvider = \<lparr>VsphereCloudConfigs = [], Topology = \<lparr>Zone = [], Region = []\<rparr>\<rparr>,
                StorageProvider = \<lparr>SpVsphereCloudConfig = [], ClusterDistribution = [],
                  FileVolumes = \<lparr>VSanDataStoreUrl = None, NetPermissions = []\<rparr>,
                  CustomKubeletPath = []\<rparr>\<rparr>,
     VdoStatus = \<lparr>StCPI = \<lparr>CpiPhase = PhaseUnset, CpiStatusMsg = [], CpiNodeStatus = None\<rparr>,
                  StCSI = \<lparr>CsiPhase = PhaseUnset, CsiStatusMsg = []\<rparr>\<rparr>\<rparr>"

definition init_St :: St where
  "init_St =
    \<lparr>trace = [], cfg = empty_cfg, CsiDeploymentYamls = [], CpiDeploymentYamls = [],
     CurrentCSIDeployedVersion = [], CurrentCPIDeployedVersion = [], environ = (\<lambda>_. []),
     VDO_NAMESPACE = [], CsiNamespace = ''vmware-system-csi'', sessionCache = [], VdoCurrentNamespace = []\<rparr>"

lemma init_St_simps [simp]:
  "trace init_St = []" "cfg init_St = empty_cfg" "CsiDeploymentYamls init_St = []"
  "CpiDeploymentYamls init_St = []" "CurrentCSIDeployedVersion init_St = []"
  "CurrentCPIDeployedVersion init_St = []" "environ init_St = (\<lambda>_. [])" "VDO_NAMESPACE init_St = []"
  "CsiNamespace init_St = ''vmware-system-csi''" "sessionCache init_St = []"
  "VdoCurrentNamespace init_St = []"
  by (simp_all add: init_St_def)

lemmas sample_defs = sample_refusal_def sample_newVersion_def sample_field_def
  empty_cfg_def

lemma sample_versions:
  "sample_newVersion ''2.10.0'' = Inr [2, 10, 0]"
  "sample_newVersion ''100.0.0'' = Inr [100, 0, 0]"
  by (simp_all add: sample_newVersion_def sample_field_def)

end
