(* ===== verification/Dyn_Client.thy ===== *)
theory Dyn_Client
  imports Effects Sample_World
begin

text \<open>
  \<^verbatim>\<open>pkg/client/dynamic_client.go\<close>: applying one object (\<open>applyYamlSpec\<close>), all objects of a
  spec file (\<open>ParseAndProcessK8sObjects\<close>), and reading spec files and the matrix.
\<close>

datatype Action = CREATE | UPDATE | DELETE

text \<open>
  \<^verbatim>\<open>applyYamlSpec\<close>. The object is a pointer that may be nil.
\<close>

definition setNamespaces :: "Unstructured \<Rightarrow> string \<Rightarrow> Unstructured" where
  "setNamespaces obj ns =
     (let obj1 = (if ns \<noteq> [] then obj\<lparr>UNamespace := ns\<rparr> else obj)
      in if UKind obj1 = ''ClusterRoleBinding'' \<and> ns = [] then obj1\<lparr>UNamespace := ''kube-system''\<rparr>
         else obj1)"

definition applyMsg :: "string \<Rightarrow> Unstructured \<Rightarrow> string" where
  "applyMsg verb obj =
     ''Error when '' @ verb @ '' object with '' @ UName obj @ '' name, '' @ UKind obj @ '' kind''"

definition applyYamlSpec :: "'v world \<Rightarrow> Unstructured option \<Rightarrow> string \<Rightarrow> Action \<Rightarrow> unit M" where
  "applyYamlSpec w specObj ns action =
     (case specObj of None \<Rightarrow> ret ()
      | Some obj0 \<Rightarrow>
        (let obj = setNamespaces obj0 ns in
         (case action of
            CREATE \<Rightarrow>
              bindM (tryM (ask (CreateObject obj) (\<lambda>t. w_createObject w t obj)))
                (\<lambda>r. case r of
                   Inl e \<Rightarrow> if \<not> IsAlreadyExists e then throw (Wrapped (applyMsg ''creating'' obj) e)
                            else ret ()
                 | Inr _ \<Rightarrow> ret ())
          | UPDATE \<Rightarrow> wrapM (applyMsg ''updating'' obj)
                        (ask (UpdateObject obj) (\<lambda>t. w_updateObject w t obj))
          | DELETE \<Rightarrow> wrapM (applyMsg ''deleting'' obj)
                        (ask (DeleteObject obj) (\<lambda>t. w_deleteObject w t obj)))))"

text \<open>
  One object of a file: \<^verbatim>\<open>ApplyYamlFunc\<close> and the handling of its error. The result is the new
  value of \<^verbatim>\<open>appliedSpec\<close>.
\<close>

definition processObj ::
  "'v world \<Rightarrow> string \<Rightarrow> Action \<Rightarrow> string \<Rightarrow> bool \<Rightarrow> bool M" where
  "processObj w ns action raw appliedSpec =
     (case p_yamlObject w raw of
        Inl e \<Rightarrow> throw (Wrapped ''failed to unmarshal yaml data'' e)
      | Inr obj \<Rightarrow>
          bindM (tryM (applyYamlSpec w (Some obj) ns action))
            (\<lambda>r. case r of Inl e \<Rightarrow> if \<not> IsAlreadyExists e then throw e else ret appliedSpec
                 | Inr _ \<Rightarrow> ret True))"

definition processDoc ::
  "'v world \<Rightarrow> string \<Rightarrow> Action \<Rightarrow> string \<Rightarrow> bool \<Rightarrow> bool M" where
  "processDoc w ns action buf appliedSpec =
     (case p_yamlKind w buf of
        Inl _ \<Rightarrow> ret appliedSpec
      | Inr kind \<Rightarrow>
          if kind = [] then ret appliedSpec
          else if kind = ''List'' then
            (case p_yamlListItems w buf of
               Inl e \<Rightarrow> throw (Wrapped ''failed to unmarshal yaml data'' e)
             | Inr items \<Rightarrow> foldM (processObj w ns action) items appliedSpec)
          else processObj w ns action buf appliedSpec)"

text \<open>
  The documents of the data up to the end of the file (\<^verbatim>\<open>io.EOF\<close>) or to a read error; the
  loop processes each before it reads the next.
\<close>

definition ParseAndProcessK8sObjects ::
  "'v world \<Rightarrow> string \<Rightarrow> string \<Rightarrow> Action \<Rightarrow> bool M" where
  "ParseAndProcessK8sObjects w data ns action =
     (case p_yamlDocuments w data of (docs, readErr) \<Rightarrow>
        bindM (foldM (processDoc w ns action) docs False)
          (\<lambda>appliedSpec. case readErr of None \<Rightarrow> ret appliedSpec
             | Some e \<Rightarrow> throw (Wrapped ''failed to read yaml data'' e)))"

definition GenerateYamlFromUrl :: "'v world \<Rightarrow> string \<Rightarrow> string M" where
  "GenerateYamlFromUrl w url =
     bindM (ask (HttpGet url) (\<lambda>t. w_httpGet w t url))
       (\<lambda>resp. if StatusCode resp \<noteq> 200
               then throw (Msg (''Received response code '' @ FormatInt (StatusCode resp) @
                       '' reading from url '' @ url))
               else liftO (outcome_of (Body resp)))"

definition GenerateYamlFromFilePath :: "'v world \<Rightarrow> string \<Rightarrow> string M" where
  "GenerateYamlFromFilePath w path =
     (let filePath = Replace1 path ''file:/'' [] in
      ask (ReadFile filePath) (\<lambda>t. w_readFile w t filePath))"

definition readSpec :: "'v world \<Rightarrow> string \<Rightarrow> string M" where
  "readSpec w path =
     (if Contains path ''file://'' then GenerateYamlFromFilePath w path
      else GenerateYamlFromUrl w path)"

definition ParseMatrixYaml :: "'v world \<Rightarrow> string \<Rightarrow> CompatMatrix M" where
  "ParseMatrixYaml w config =
     bindM (readSpec w config) (\<lambda>fileBytes. liftO (outcome_of (p_jsonMatrix w fileBytes)))"

section \<open>What applying a file does\<close>

definition object_call :: "Action \<Rightarrow> call \<Rightarrow> bool" where
  "object_call a c \<longleftrightarrow> (case c of CreateObject _ \<Rightarrow> a = CREATE | UpdateObject _ \<Rightarrow> a = UPDATE
                        | DeleteObject _ \<Rightarrow> a = DELETE | _ \<Rightarrow> False)"

definition readonly_call :: "call \<Rightarrow> bool" where
  "readonly_call c \<longleftrightarrow> (case c of HttpGet _ \<Rightarrow> True | ReadFile _ \<Rightarrow> True | _ \<Rightarrow> False)"

lemma applyYamlSpec_emits [keeps_intro]:
  "keeps (emits (object_call a)) (applyYamlSpec w obj ns a)"
  unfolding applyYamlSpec_def
  by (cases a) (auto intro!: keeps_intro simp: object_call_def)

lemma ParseAndProcess_emits [keeps_intro]:
  "keeps (emits (object_call a)) (ParseAndProcessK8sObjects w data ns a)"
  unfolding ParseAndProcessK8sObjects_def processDoc_def processObj_def
  by (intro keeps_intro)


text \<open>
  The plan of a file: the objects the loop reaches before the first piece of text that cannot
  be decoded, and whether it reaches the end of the data.
\<close>

fun planRaws :: "'v world \<Rightarrow> string list \<Rightarrow> Unstructured list \<times> bool" where
  "planRaws w [] = ([], True)"
| "planRaws w (raw # raws) =
     (case p_yamlObject w raw of Inl _ \<Rightarrow> ([], False)
      | Inr obj \<Rightarrow> (obj # fst (planRaws w raws), snd (planRaws w raws)))"

definition docItems :: "'v world \<Rightarrow> string \<Rightarrow> string list option" where
  "docItems w buf =
     (case p_yamlKind w buf of Inl _ \<Rightarrow> Some []
      | Inr kind \<Rightarrow> if kind = [] then Some []
          else if kind = ''List'' then
            (case p_yamlListItems w buf of Inl _ \<Rightarrow> None | Inr items \<Rightarrow> Some items)
          else Some [buf])"

fun planDocs :: "'v world \<Rightarrow> string list \<Rightarrow> Unstructured list \<times> bool" where
  "planDocs w [] = ([], True)"
| "planDocs w (buf # bufs) =
     (case docItems w buf of None \<Rightarrow> ([], False)
      | Some raws \<Rightarrow>
          (case planRaws w raws of (objs, ok) \<Rightarrow>
             if ok then (objs @ fst (planDocs w bufs), snd (planDocs w bufs)) else (objs, False)))"

definition plannedObjects :: "'v world \<Rightarrow> string \<Rightarrow> Unstructured list" where
  "plannedObjects w data = fst (planDocs w (fst (p_yamlDocuments w data)))"

definition decodes :: "'v world \<Rightarrow> string \<Rightarrow> bool" where
  "decodes w data \<longleftrightarrow>
     snd (planDocs w (fst (p_yamlDocuments w data))) \<and> snd (p_yamlDocuments w data) = None"

definition actionCall :: "Action \<Rightarrow> string \<Rightarrow> Unstructured \<Rightarrow> call" where
  "actionCall a ns obj =
     (let o1 = setNamespaces obj ns in
      case a of CREATE \<Rightarrow> CreateObject o1 | UPDATE \<Rightarrow> UpdateObject o1 | DELETE \<Rightarrow> DeleteObject o1)"

text \<open>
  \<open>sent\<close>: the requests for the given objects, in their order, and no other effect.
  \<open>refused\<close>: the world answers the request for an object with an error. \<open>attempt\<close>: what a run
  over a plan does - it sends the objects one by one up to the end of the plan or to the first
  refusal.
\<close>

definition sent :: "Action \<Rightarrow> string \<Rightarrow> Unstructured list \<Rightarrow> St \<Rightarrow> St" where
  "sent a ns objs s = s\<lparr>trace := trace s @ map (actionCall a ns) objs\<rparr>"

definition refused :: "'v world \<Rightarrow> Action \<Rightarrow> string \<Rightarrow> Unstructured \<Rightarrow> St \<Rightarrow> bool" where
  "refused w a ns obj s \<longleftrightarrow>
     (\<exists>e. \<not> IsAlreadyExists e \<and>
       (case a of CREATE \<Rightarrow> w_createObject w (trace s) (setNamespaces obj ns)
        | UPDATE \<Rightarrow> w_updateObject w (trace s) (setNamespaces obj ns)
        | DELETE \<Rightarrow> w_deleteObject w (trace s) (setNamespaces obj ns)) = Inl e)"

definition attempt ::
  "'v world \<Rightarrow> Action \<Rightarrow> string \<Rightarrow> Unstructured list \<times> bool \<Rightarrow> bool \<Rightarrow> St \<Rightarrow> bool outcome \<Rightarrow> St \<Rightarrow> bool"
where
  "attempt w a ns plan b s r t \<longleftrightarrow>
     (\<exists>n \<le> length (fst plan). t = sent a ns (take n (fst plan)) s \<and>
       (case r of
          Ok b' \<Rightarrow> snd plan \<and> n = length (fst plan) \<and> (b \<longrightarrow> b') \<and>
                   (a = CREATE \<longrightarrow> b' = (b \<or> fst plan \<noteq> []))
        | Err e \<Rightarrow> n = length (fst plan) \<and> \<not> snd plan \<or>
                   (0 < n \<and> refused w a ns (fst plan ! (n - 1)) (sent a ns (take (n - 1) (fst plan)) s))
        | Panic p \<Rightarrow> False))"

lemma sent_Nil [simp]: "sent a ns [] s = s"
  by (simp add: sent_def)

lemma sent_sent [simp]: "sent a ns ys (sent a ns xs s) = sent a ns (xs @ ys) s"
  by (simp add: sent_def)

lemma applyYamlSpec_run:
  "applyYamlSpec w (Some obj) ns a s = (r, t) \<Longrightarrow>
   t = sent a ns [obj] s \<and>
   (case r of Ok u \<Rightarrow> True
    | Err e \<Rightarrow> IsAlreadyExists e \<and> a \<noteq> CREATE \<or> \<not> IsAlreadyExists e \<and> refused w a ns obj s
    | Panic p \<Rightarrow> False)"
  by (cases a)
    (auto simp: applyYamlSpec_def sent_def actionCall_def refused_def Let_def bindM_def tryM_def
      ask_def wrapM_def outcome_of_def split: outcome.splits sum.splits if_splits)

lemma processObj_run:
  assumes "processObj w ns a raw b s = (r, t)"
  shows "attempt w a ns (planRaws w [raw]) b s r t"
proof (cases "p_yamlObject w raw")
  case (Inr obj)
  obtain q u where run: "applyYamlSpec w (Some obj) ns a s = (q, u)" by fastforce
  note step = applyYamlSpec_run [OF run]
  show ?thesis
    unfolding attempt_def
    by (rule exI [of _ 1])
      (use assms Inr run step in
        \<open>auto simp: processObj_def bindM_def tryM_def split: if_splits outcome.splits\<close>)
qed (use assms in \<open>auto simp: processObj_def attempt_def\<close>)

lemma attempt_Nil: "attempt w a ns ([], True) b s (Ok b) s"
  by (simp add: attempt_def)

lemma attempt_append:
  assumes "attempt w a ns (xs, True) b s (Ok c) t" and "attempt w a ns (ys, ok) c t r u"
  shows "attempt w a ns (xs @ ys, ok) b s r u"
proof -
  from assms(1) have t: "t = sent a ns xs s" and c: "b \<longrightarrow> c" "a = CREATE \<longrightarrow> c = (b \<or> xs \<noteq> [])"
    by (auto simp: attempt_def)
  from assms(2) obtain n where n: "n \<le> length ys" "u = sent a ns (take n ys) t"
    and r: "case r of
          Ok b' \<Rightarrow> ok \<and> n = length ys \<and> (c \<longrightarrow> b') \<and> (a = CREATE \<longrightarrow> b' = (c \<or> ys \<noteq> []))
        | Err e \<Rightarrow> n = length ys \<and> \<not> ok \<or> (0 < n \<and> refused w a ns (ys ! (n - 1)) (sent a ns (take (n - 1) ys) t))
        | Panic p \<Rightarrow> False"
    unfolding attempt_def fst_conv snd_conv by blast
  have u: "u = sent a ns (take (length xs + n) (xs @ ys)) s"
    using n t by simp
  have "0 < n \<Longrightarrow> refused w a ns (ys ! (n - 1)) (sent a ns (take (n - 1) ys) t) \<Longrightarrow>
    refused w a ns ((xs @ ys) ! (length xs + n - 1)) (sent a ns (take (length xs + n - 1) (xs @ ys)) s)"
    by (cases n) (simp_all add: t nth_append)
  with r c u n(1) show ?thesis
    unfolding attempt_def
    by (intro exI [of _ "length xs + n"]) (auto split: outcome.splits)
qed

lemma attempt_stops:
  "attempt w a ns (xs, True) b s (Err e) t \<Longrightarrow> attempt w a ns (xs @ ys, ok) b s (Err e) t"
  "attempt w a ns (xs, False) b s (Err e) t \<Longrightarrow> attempt w a ns (xs, False) b s (Err e) t"
  by (fastforce simp: attempt_def nth_append)+

lemma attempt_cases:
  "attempt w a ns (xs, ok) b s r t \<Longrightarrow> (\<exists>c. r = Ok c \<and> ok) \<or> (\<exists>e. r = Err e)"
  by (cases r) (auto simp: attempt_def)


lemma foldM_processObj_run:
  "foldM (processObj w ns a) raws b s = (r, t) \<Longrightarrow> attempt w a ns (planRaws w raws) b s r t"
proof (induction raws arbitrary: b s)
  case Nil
  then show ?case by (auto intro: attempt_Nil)
next
  case (Cons raw raws)
  obtain q u where step: "processObj w ns a raw b s = (q, u)" by fastforce
  then have one: "attempt w a ns (planRaws w [raw]) b s q u" by (rule processObj_run)
  show ?case
  proof (cases "p_yamlObject w raw")
    case (Inl e)
    with one step Cons.prems show ?thesis
      by (cases q) (auto simp: bindM_def attempt_def)
  next
    case (Inr obj)
    from one Inr have one': "attempt w a ns ([obj], True) b s q u" by simp
    have plan: "planRaws w (raw # raws) = ([obj] @ fst (planRaws w raws), snd (planRaws w raws))"
      using Inr by simp
    show ?thesis
    proof (cases q)
      case (Ok c)
      with step Cons.prems have "foldM (processObj w ns a) raws c u = (r, t)"
        by (simp add: bindM_def)
      then have "attempt w a ns (fst (planRaws w raws), snd (planRaws w raws)) c u r t"
        using Cons.IH by simp
      with one' Ok show ?thesis unfolding plan by (blast intro: attempt_append)
    next
      case (Err e)
      with step Cons.prems one' have "attempt w a ns ([obj], True) b s (Err e) t" "r = Err e"
        by (auto simp: bindM_def)
      then show ?thesis unfolding plan by (blast intro: attempt_stops(1))
    qed (use one' in \<open>simp add: attempt_def\<close>)
  qed
qed

lemma planDocs_single:
  "planDocs w [buf] = (case docItems w buf of None \<Rightarrow> ([], False) | Some raws \<Rightarrow> planRaws w raws)"
  by (auto split: option.splits prod.splits)

lemma processDoc_items:
  "processDoc w ns a buf b =
     (case docItems w buf of
        None \<Rightarrow> (case p_yamlListItems w buf of Inl e \<Rightarrow> throw (Wrapped ''failed to unmarshal yaml data'' e)
                 | Inr items \<Rightarrow> foldM (processObj w ns a) items b)
      | Some raws \<Rightarrow> foldM (processObj w ns a) raws b)"
proof -
  have "foldM (processObj w ns a) [buf] b = processObj w ns a buf b"
    by (rule ext) (simp add: bindM_def split: prod.split outcome.split)
  then show ?thesis
    by (auto simp: processDoc_def docItems_def split: sum.splits simp del: foldM.simps(2))
qed

lemma processDoc_run:
  assumes "processDoc w ns a buf b s = (r, t)"
  shows "attempt w a ns (planDocs w [buf]) b s r t"
proof (cases "docItems w buf")
  case None
  with assms have "(\<exists>e. r = Err e) \<and> t = s"
    by (auto simp: processDoc_items docItems_def split: sum.splits if_splits)
  with None show ?thesis by (auto simp: attempt_def)
next
  case (Some raws)
  with assms show ?thesis
    unfolding planDocs_single by (simp add: processDoc_items foldM_processObj_run)
qed

lemma planDocs_Cons:
  "planDocs w (buf # bufs) =
     (if snd (planDocs w [buf])
      then (fst (planDocs w [buf]) @ fst (planDocs w bufs), snd (planDocs w bufs))
      else planDocs w [buf])"
  by (auto split: option.splits prod.splits)

lemma foldM_processDoc_run:
  "foldM (processDoc w ns a) bufs b s = (r, t) \<Longrightarrow> attempt w a ns (planDocs w bufs) b s r t"
proof (induction bufs arbitrary: b s)
  case Nil
  then show ?case by (auto intro: attempt_Nil)
next
  case (Cons buf bufs)
  obtain q u where step: "processDoc w ns a buf b s = (q, u)" by fastforce
  obtain xs ok where plan: "planDocs w [buf] = (xs, ok)" by fastforce
  have one: "attempt w a ns (xs, ok) b s q u" using processDoc_run [OF step] plan by simp
  show ?case
  proof (cases q)
    case (Ok c)
    with one have ok by (simp add: attempt_def)
    from Ok step Cons.prems have "foldM (processDoc w ns a) bufs c u = (r, t)"
      by (simp add: bindM_def)
    then have "attempt w a ns (fst (planDocs w bufs), snd (planDocs w bufs)) c u r t"
      using Cons.IH by simp
    with one Ok \<open>ok\<close> show ?thesis
      unfolding planDocs_Cons [of w buf bufs] plan by (auto intro: attempt_append)
  next
    case (Err e)
    with step Cons.prems one have "attempt w a ns (xs, ok) b s (Err e) t" "r = Err e"
      by (auto simp: bindM_def)
    then show ?thesis
      unfolding planDocs_Cons [of w buf bufs] plan by (cases ok) (auto intro: attempt_stops(1))
  qed (use one in \<open>simp add: attempt_def\<close>)
qed


lemma ParseAndProcess_attempt:
  assumes "ParseAndProcessK8sObjects w data ns a s = (r, t)"
  shows "attempt w a ns (plannedObjects w data, decodes w data) False s r t"
proof -
  obtain docs readErr where docs: "p_yamlDocuments w data = (docs, readErr)" by fastforce
  obtain q u where run: "foldM (processDoc w ns a) docs False s = (q, u)" by fastforce
  have "attempt w a ns (plannedObjects w data, snd (planDocs w docs)) False s q u"
    using foldM_processDoc_run [OF run] docs by (simp add: plannedObjects_def)
  with assms run docs show ?thesis
    by (cases q; cases readErr)
      (auto simp: ParseAndProcessK8sObjects_def decodes_def bindM_def attempt_def)
qed


definition create_world :: "nat list world" where
  "create_world = down_world\<lparr>w_createObject := (\<lambda>t obj.
     if UName obj = ''old'' then Inl (ApiErr AlreadyExists ''exists'') else Inr ())\<rparr>"

lemma create_world_simps [simp]:
  "w_createObject create_world = (\<lambda>t obj.
     if UName obj = ''old'' then Inl (ApiErr AlreadyExists ''exists'') else Inr ())"
  "p_yamlDocuments create_world = p_yamlDocuments down_world"
  "p_yamlKind create_world = p_yamlKind down_world"
  "p_yamlObject create_world = p_yamlObject down_world"
  by (simp_all add: create_world_def)


end
