(* ===== verification/Driver_Specs.thy ===== *)
theory Driver_Specs
  imports Dyn_Client
begin

text \<open>
  The choice of the CPI and CSI versions from the compatibility matrix, and the application and
  removal of their spec files (\<^verbatim>\<open>controllers/vdoconfig_controller.go\<close>). The two drivers have a copy
  each of the same code: the locale \<open>driver\<close> holds what the copies share and is interpreted on
  both.
\<close>

section \<open>Applying and deleting spec files\<close>

definition applyYaml :: "'v world \<Rightarrow> string \<Rightarrow> bool \<Rightarrow> Action \<Rightarrow> bool M" where
  "applyYaml w yamlPath updateStatus action =
     bindM (readSpec w yamlPath)
       (\<lambda>fileBytes. bindM (tryM (ParseAndProcessK8sObjects w fileBytes [] action))
         (\<lambda>r. case r of Inl e \<Rightarrow> if IsAlreadyExists e then ret updateStatus else throw e
            | Inr _ \<Rightarrow> ret True))"

text \<open>
  The loops of \<^verbatim>\<open>reconcileCPIDeployment\<close> and the three functions like it. In
  \<^verbatim>\<open>updateStatus, err := r.applyYaml(deploymentYaml, ctx, updateStatus, ...)\<close> the left-hand side
  declares variables of the body: the argument and the result of the function are the outer
  variable, which stays false.
\<close>

definition applyAll :: "'v world \<Rightarrow> string list \<Rightarrow> bool M" where
  "applyAll w yamls = (let updateStatus = False in
     thenM (forM (\<lambda>y. thenM (applyYaml w y updateStatus CREATE) (ret ())) yamls) (ret updateStatus))"

definition deleteAll :: "'v world \<Rightarrow> string list \<Rightarrow> bool M" where
  "deleteAll w yamls = (let updateStatus = False in
     thenM (forM (\<lambda>y. thenM (tryM (applyYaml w y updateStatus DELETE)) (ret ())) yamls) (ret updateStatus))"

definition reconcileCPIDeployment :: "'v world \<Rightarrow> bool M" where
  "reconcileCPIDeployment w = bindM (getS CpiDeploymentYamls) (applyAll w)"

definition reconcileCSIDeployment :: "'v world \<Rightarrow> bool M" where
  "reconcileCSIDeployment w = bindM (getS CsiDeploymentYamls) (applyAll w)"

definition deleteCPIDeployment :: "'v world \<Rightarrow> bool M" where
  "deleteCPIDeployment w = bindM (getS CpiDeploymentYamls) (deleteAll w)"

definition deleteCSIDeployment :: "'v world \<Rightarrow> bool M" where
  "deleteCSIDeployment w = bindM (getS CsiDeploymentYamls) (deleteAll w)"

section \<open>Comparing versions\<close>

definition compareVersions :: "'v world \<Rightarrow> string \<Rightarrow> string \<Rightarrow> string \<Rightarrow> err + bool" where
  "compareVersions w minVersion currentVersion maxVersion =
     (case p_newVersion w minVersion of Inl e \<Rightarrow> Inl e
      | Inr minVer \<Rightarrow>
     (case p_newVersion w (ReplaceAll currentVersion (CHR ''+'') []) of Inl e \<Rightarrow> Inl e
      | Inr currentVer \<Rightarrow>
     (case p_newVersion w maxVersion of Inl e \<Rightarrow> Inl e
      | Inr maxVer \<Rightarrow>
          Inr (p_versionCompare w minVer currentVer \<le> 0 \<and> 0 \<le> p_versionCompare w maxVer currentVer))))"

definition compareSkewVersions :: "'v world \<Rightarrow> string \<Rightarrow> string \<Rightarrow> err + bool" where
  "compareSkewVersions w currentVersion supportedVersion =
     (case p_newVersion w (ReplaceAll currentVersion (CHR ''+'') []) of Inl e \<Rightarrow> Inl e
      | Inr currentVer \<Rightarrow>
     (case p_newVersion w supportedVersion of Inl e \<Rightarrow> Inl e
      | Inr supportedVer \<Rightarrow> Inr (p_versionCompare w currentVer supportedVer = 0)))"

section \<open>Choosing a version\<close>

text \<open>The entries of the matrix; a missing key gives the zero value.\<close>

definition csiInfo :: "CompatMatrix \<Rightarrow> string \<Rightarrow> CSIVersionInfo" where
  "csiInfo m ver = (case mlookup (CSISpecList m) ver of Some i \<Rightarrow> i
     | None \<Rightarrow> \<lparr>CsiVSphereVersion = \<lparr>Min = [], Max = []\<rparr>, CsiK8sVersion = \<lparr>Min = [], Max = []\<rparr>,
                IsCPIRequired = False, CsiDeploymentPaths = []\<rparr>)"

definition cpiInfo :: "CompatMatrix \<Rightarrow> string \<Rightarrow> CPIVersionInfo" where
  "cpiInfo m ver = (case mlookup (CPISpecList m) ver of Some i \<Rightarrow> i
     | None \<Rightarrow> \<lparr>CpiVSphereVersion = \<lparr>Min = [], Max = []\<rparr>, SkewVersion = [], CpiDeploymentPaths = []\<rparr>)"

definition both :: "err + bool \<Rightarrow> err + bool \<Rightarrow> err + bool" where
  "both a b = (case a of Inl e \<Rightarrow> Inl e | Inr x \<Rightarrow> (case b of Inl e \<Rightarrow> Inl e | Inr y \<Rightarrow> Inr (x \<and> y)))"

definition csiMatches :: "'v world \<Rightarrow> CompatMatrix \<Rightarrow> string \<Rightarrow> string \<Rightarrow> string \<Rightarrow> err + bool" where
  "csiMatches w m k8sVersion vSphereVersion ver =
     (let info = csiInfo m ver in
      both (compareVersions w (Min (CsiVSphereVersion info)) vSphereVersion (Max (CsiVSphereVersion info)))
           (compareVersions w (Min (CsiK8sVersion info)) k8sVersion (Max (CsiK8sVersion info))))"

definition cpiMatches :: "'v world \<Rightarrow> CompatMatrix \<Rightarrow> string \<Rightarrow> string \<Rightarrow> string \<Rightarrow> err + bool" where
  "cpiMatches w m k8sVersion vSphereVersion ver =
     (let info = cpiInfo m ver in
      both (compareVersions w (Min (CpiVSphereVersion info)) vSphereVersion (Max (CpiVSphereVersion info)))
           (compareSkewVersions w k8sVersion (SkewVersion info)))"

text \<open>
  The inner loop visits the versions from the last to the first of the sorted list and stops at
  the first match; the outer loop goes on with the next vSphere version and keeps the last
  match.
\<close>

fun firstMatch :: "(string \<Rightarrow> err + bool) \<Rightarrow> string list \<Rightarrow> err + string option" where
  "firstMatch ok [] = Inr None"
| "firstMatch ok (v # vs) =
     (case ok v of Inl e \<Rightarrow> Inl e | Inr b \<Rightarrow> if b then Inr (Some v) else firstMatch ok vs)"

fun selectVersion ::
  "(string \<Rightarrow> string \<Rightarrow> err + bool) \<Rightarrow> string list \<Rightarrow> string list \<Rightarrow> string \<Rightarrow> err + string" where
  "selectVersion ok versionList [] ver = Inr ver"
| "selectVersion ok versionList (vSphereVersion # others) ver =
     (case firstMatch (ok vSphereVersion) (rev versionList) of Inl e \<Rightarrow> Inl e
      | Inr None \<Rightarrow> selectVersion ok versionList others ver
      | Inr (Some v) \<Rightarrow> selectVersion ok versionList others v)"

definition selectCSI :: "'v world \<Rightarrow> CompatMatrix \<Rightarrow> string list \<Rightarrow> string \<Rightarrow> err + string" where
  "selectCSI w m vSphereVersions k8sVersion =
     selectVersion (csiMatches w m k8sVersion) (sort (mkeys (CSISpecList m))) vSphereVersions []"

definition selectCPI :: "'v world \<Rightarrow> CompatMatrix \<Rightarrow> string list \<Rightarrow> string \<Rightarrow> err + string" where
  "selectCPI w m vSphereVersions k8sVersion =
     selectVersion (cpiMatches w m k8sVersion) (sort (mkeys (CPISpecList m))) vSphereVersions []"

definition FetchCsiDeploymentYamls ::
  "'v world \<Rightarrow> CompatMatrix \<Rightarrow> string list \<Rightarrow> string \<Rightarrow> unit M" where
  "FetchCsiDeploymentYamls w m vSphereVersions k8sVersion =
     bindM (liftO (outcome_of (selectCSI w m vSphereVersions k8sVersion)))
       (\<lambda>csiVersion. bindM (getS CurrentCSIDeployedVersion)
         (\<lambda>current. thenM
           (if csiVersion \<noteq> current \<and> current \<noteq> []
            then thenM (deleteCSIDeployment w) (modS (\<lambda>s. s\<lparr>CsiDeploymentYamls := []\<rparr>))
            else ret ())
           (if csiVersion = []
            then throw (Msg ''could not fetch compatible CSI version for vSphere version and k8s version '')
            else modS (\<lambda>s. s\<lparr>CsiDeploymentYamls := CsiDeploymentPaths (csiInfo m csiVersion),
                            CurrentCSIDeployedVersion := csiVersion\<rparr>))))"

definition FetchCpiDeploymentYamls ::
  "'v world \<Rightarrow> CompatMatrix \<Rightarrow> string list \<Rightarrow> string \<Rightarrow> unit M" where
  "FetchCpiDeploymentYamls w m vSphereVersions k8sVersion =
     bindM (liftO (outcome_of (selectCPI w m vSphereVersions k8sVersion)))
       (\<lambda>cpiVersion. bindM (getS CurrentCPIDeployedVersion)
         (\<lambda>current. thenM
           (if cpiVersion \<noteq> current \<and> current \<noteq> []
            then thenM (deleteCPIDeployment w) (modS (\<lambda>s. s\<lparr>CpiDeploymentYamls := []\<rparr>))
            else ret ())
           (if cpiVersion = []
            then throw (Msg ''could not fetch compatible CPI version for vSphere version and k8s version '')
            else modS (\<lambda>s. s\<lparr>CpiDeploymentYamls := CpiDeploymentPaths (cpiInfo m cpiVersion),
                            CurrentCPIDeployedVersion := cpiVersion\<rparr>))))"

section \<open>Lemmas on applying files\<close>

definition spec_call :: "Action \<Rightarrow> call \<Rightarrow> bool" where
  "spec_call a c \<longleftrightarrow> object_call a c \<or> readonly_call c"

lemma readSpec_emits [keeps_intro]:
  "(\<And>c. readonly_call c \<Longrightarrow> Q c) \<Longrightarrow> keeps (emits Q) (readSpec w path)"
  unfolding readSpec_def GenerateYamlFromFilePath_def GenerateYamlFromUrl_def Let_def
  by (intro keeps_intro) (simp_all add: readonly_call_def)

lemma applyYaml_emits [keeps_intro]:
  "(\<And>c. spec_call a c \<Longrightarrow> Q c) \<Longrightarrow> keeps (emits Q) (applyYaml w y b a)"
  unfolding applyYaml_def
  by (intro keeps_intro keeps_emits_mono [OF ParseAndProcess_emits]) (simp_all add: spec_call_def)

lemma applyAll_emits [keeps_intro]:
  "(\<And>c. spec_call CREATE c \<Longrightarrow> Q c) \<Longrightarrow> keeps (emits Q) (applyAll w ys)"
  unfolding applyAll_def Let_def by (intro keeps_intro)

lemma deleteAll_emits [keeps_intro]:
  "(\<And>c. spec_call DELETE c \<Longrightarrow> Q c) \<Longrightarrow> keeps (emits Q) (deleteAll w ys)"
  unfolding deleteAll_def Let_def by (intro keeps_intro)

lemma applyYamlSpec_fixed [keeps_intro]:
  "(\<And>s l. f (s\<lparr>trace := l\<rparr>) = f s) \<Longrightarrow> keeps (fixes_field f) (applyYamlSpec w obj ns a)"
  unfolding applyYamlSpec_def Let_def by (cases a) (auto intro!: keeps_intro)

lemma ParseAndProcess_fixed [keeps_intro]:
  "(\<And>s l. f (s\<lparr>trace := l\<rparr>) = f s) \<Longrightarrow> keeps (fixes_field f) (ParseAndProcessK8sObjects w data ns a)"
  unfolding ParseAndProcessK8sObjects_def processDoc_def processObj_def by (intro keeps_intro)

lemma applyYaml_fixed [keeps_intro]:
  "(\<And>s l. f (s\<lparr>trace := l\<rparr>) = f s) \<Longrightarrow> keeps (fixes_field f) (applyYaml w y b a)"
  unfolding applyYaml_def readSpec_def GenerateYamlFromFilePath_def GenerateYamlFromUrl_def Let_def
  by (intro keeps_intro)

lemma applyAll_fixed [keeps_intro]:
  "(\<And>s l. f (s\<lparr>trace := l\<rparr>) = f s) \<Longrightarrow> keeps (fixes_field f) (applyAll w ys)"
  unfolding applyAll_def Let_def by (intro keeps_intro)

lemma deleteAll_fixed [keeps_intro]:
  "(\<And>s l. f (s\<lparr>trace := l\<rparr>) = f s) \<Longrightarrow> keeps (fixes_field f) (deleteAll w ys)"
  unfolding deleteAll_def Let_def by (intro keeps_intro)

lemma applyYamlSpec_no_panic [no_panic_intro]: "no_panic (applyYamlSpec w obj ns a)"
  unfolding applyYamlSpec_def Let_def by (cases a) (auto intro!: no_panic_intro)

lemma applyYaml_no_panic [no_panic_intro]: "no_panic (applyYaml w y b a)"
  unfolding applyYaml_def readSpec_def GenerateYamlFromFilePath_def GenerateYamlFromUrl_def Let_def
    ParseAndProcessK8sObjects_def processDoc_def processObj_def
  by (intro no_panic_intro)

lemma applyAll_no_panic [no_panic_intro]: "no_panic (applyAll w ys)"
  unfolding applyAll_def Let_def by (intro no_panic_intro)

lemma deleteAll_no_panic [no_panic_intro]: "no_panic (deleteAll w ys)"
  unfolding deleteAll_def Let_def by (intro no_panic_intro)

lemma forM_never_Err: "(\<And>x s e t. f x s \<noteq> (Err e, t)) \<Longrightarrow> forM f xs s \<noteq> (Err e, t)"
  by (induction xs arbitrary: s) (auto simp: thenM_def bindM_Err_iff)

text \<open>Removing a deployment never fails; applying one only reports false.\<close>

lemma deleteAll_Ok: "deleteAll w ys s = (r, t) \<Longrightarrow> r = Ok False"
proof -
  assume run: "deleteAll w ys s = (r, t)"
  have "forM (\<lambda>y. thenM (tryM (applyYaml w y False DELETE)) (ret ())) ys s \<noteq> (Err e, u)" for e u
    by (rule forM_never_Err) (auto simp: thenM_def bindM_Err_iff)
  with run no_panicD [OF deleteAll_no_panic, of w ys s] show ?thesis
    by (cases r) (auto simp: deleteAll_def thenM_def bindM_Err_iff bindM_Ok_iff)
qed

lemma applyAll_Ok: "applyAll w ys s = (Ok b, t) \<Longrightarrow> \<not> b"
  by (auto simp: applyAll_def thenM_Ok_iff)

section \<open>Lemmas on the choice\<close>

lemma firstMatch_append:
  "\<forall>u \<in> set xs. ok u = Inr False \<Longrightarrow> firstMatch ok (xs @ ys) = firstMatch ok ys"
  by (induction xs) auto

lemma firstMatch_Some:
  assumes "firstMatch ok vs = Inr (Some v)"
  obtains xs ys where "vs = xs @ v # ys" "ok v = Inr True" "\<forall>u \<in> set xs. ok u = Inr False"
  using assms
proof (induction vs arbitrary: thesis)
  case (Cons u vs)
  show ?case
  proof (cases "ok u")
    case (Inr b)
    show ?thesis
    proof (cases b)
      case True
      with Inr Cons.prems show ?thesis by (intro Cons.prems(1) [of "[]" vs]) auto
    next
      case False
      with Inr Cons.prems(2) have "firstMatch ok vs = Inr (Some v)" by simp
      then obtain xs ys where "vs = xs @ v # ys" "ok v = Inr True" "\<forall>u \<in> set xs. ok u = Inr False"
        using Cons.IH by blast
      with Inr False show ?thesis by (intro Cons.prems(1) [of "u # xs" ys]) auto
    qed
  qed (use Cons.prems in simp)
qed simp

lemma firstMatch_None: "firstMatch ok vs = Inr None \<longleftrightarrow> (\<forall>u \<in> set vs. ok u = Inr False)"
  by (induction vs) (auto split: sum.split)

text \<open>On a sorted list without duplicates: the greatest match.\<close>

lemma firstMatch_greatest:
  assumes "sorted vs" and "distinct vs"
  shows "firstMatch ok (rev vs) = Inr (Some v) \<longleftrightarrow>
    v \<in> set vs \<and> ok v = Inr True \<and> (\<forall>u \<in> set vs. v < u \<longrightarrow> ok u = Inr False)"
proof
  assume "firstMatch ok (rev vs) = Inr (Some v)"
  then obtain xs ys where "rev vs = xs @ v # ys" and v: "ok v = Inr True" "\<forall>u \<in> set xs. ok u = Inr False"
    by (rule firstMatch_Some)
  then have vs: "vs = rev ys @ v # rev xs" by (simp add: rev_swap)
  with assms have "u \<in> set xs" if "u \<in> set vs" "v < u" for u
    using that by (force simp: sorted_append)
  with v vs show "v \<in> set vs \<and> ok v = Inr True \<and> (\<forall>u \<in> set vs. v < u \<longrightarrow> ok u = Inr False)"
    by auto
next
  assume r: "v \<in> set vs \<and> ok v = Inr True \<and> (\<forall>u \<in> set vs. v < u \<longrightarrow> ok u = Inr False)"
  then obtain ys xs where vs: "vs = ys @ v # xs" by (meson split_list)
  with assms have "\<forall>u \<in> set xs. v < u" by (force simp: sorted_append order_less_le)
  with r vs show "firstMatch ok (rev vs) = Inr (Some v)"
    by (simp add: firstMatch_append)
qed

lemma selectVersion_cases:
  "selectVersion ok vl xs d = Inr v \<Longrightarrow>
   (v = d \<and> (\<forall>x \<in> set xs. firstMatch (ok x) (rev vl) = Inr None)) \<or>
   (\<exists>as x bs. xs = as @ x # bs \<and> firstMatch (ok x) (rev vl) = Inr (Some v) \<and>
      (\<forall>y \<in> set bs. firstMatch (ok y) (rev vl) = Inr None))"
proof (induction xs arbitrary: d)
  case (Cons x xs)
  show ?case
  proof (cases "firstMatch (ok x) (rev vl)")
    case (Inr o1)
    show ?thesis
    proof (cases o1)
      case None
      with Inr Cons show ?thesis by (fastforce simp: Cons_eq_append_conv)
    next
      case (Some u)
      with Inr Cons.prems have "selectVersion ok vl xs u = Inr v" by simp
      from Cons.IH [OF this] show ?thesis
        using Inr Some by (fastforce simp: Cons_eq_append_conv)
    qed
  qed (use Cons.prems in simp)
qed simp

lemma selectVersion_skips:
  "firstMatch (ok y) (rev vl) = Inr None \<Longrightarrow>
   selectVersion ok vl (as @ y # bs) d = selectVersion ok vl (as @ bs) d"
  by (induction as arbitrary: d) (auto split: sum.split option.split)

section \<open>What the two drivers share\<close>

text \<open>
  \<open>fetch\<close> chooses a version with \<open>select\<close>, removes the old deployment when the version changed,
  and installs the version and its files in the reconciler.
\<close>

locale driver =
  fixes fetch :: "'v world \<Rightarrow> CompatMatrix \<Rightarrow> string list \<Rightarrow> string \<Rightarrow> unit M"
    and select :: "'v world \<Rightarrow> CompatMatrix \<Rightarrow> string list \<Rightarrow> string \<Rightarrow> err + string"
    and deploy :: "'v world \<Rightarrow> bool M"
    and remove :: "'v world \<Rightarrow> bool M"
    and matches :: "'v world \<Rightarrow> CompatMatrix \<Rightarrow> string \<Rightarrow> string \<Rightarrow> string \<Rightarrow> err + bool"
    and versions :: "CompatMatrix \<Rightarrow> string list"
    and paths :: "CompatMatrix \<Rightarrow> string \<Rightarrow> string list"
    and current :: "St \<Rightarrow> string"
    and yamls :: "St \<Rightarrow> string list"
    and install :: "string list \<Rightarrow> string \<Rightarrow> St \<Rightarrow> St"
    and clear :: "St \<Rightarrow> St"
    and nomatch :: err
  assumes fetch_eq: "fetch w m vs k =
      bindM (liftO (outcome_of (select w m vs k)))
        (\<lambda>v. bindM (getS current)
          (\<lambda>c. thenM (if v \<noteq> c \<and> c \<noteq> [] then thenM (remove w) (modS clear) else ret ())
                 (if v = [] then throw nomatch else modS (install (paths m v) v))))"
    and select_eq: "select w m vs k = selectVersion (matches w m k) (sort (versions m)) vs []"
    and deploy_eq: "deploy w = bindM (getS yamls) (applyAll w)"
    and remove_eq: "remove w = bindM (getS yamls) (deleteAll w)"
    and install_sel: "current (install ys v s) = v" "yamls (install ys v s) = ys"
      "trace (install ys v s) = trace s"
    and clear_sel: "current (clear s) = current s" "yamls (clear s) = []" "trace (clear s) = trace s"
    and trace_sel: "current (s\<lparr>trace := l\<rparr>) = current s" "yamls (s\<lparr>trace := l\<rparr>) = yamls s"
begin

lemma remove_run: "remove w s = (Ok False, snd (deleteAll w (yamls s) s))"
  by (simp add: remove_eq bindM_def) (metis deleteAll_Ok prod.collapse)

lemma deploy_run: "deploy w s = applyAll w (yamls s) s"
  by (simp add: deploy_eq bindM_def)

lemma deploy_reports_False: "deploy w s = (Ok b, t) \<Longrightarrow> \<not> b"
  unfolding deploy_run by (rule applyAll_Ok)

lemma remove_keeps_driver:
  "current (snd (deleteAll w ys s)) = current s" "yamls (snd (deleteAll w ys s)) = yamls s"
proof -
  have "keeps (fixes_field current) (deleteAll w ys)" "keeps (fixes_field yamls) (deleteAll w ys)"
    by (rule deleteAll_fixed, simp add: trace_sel)+
  then show "current (snd (deleteAll w ys s)) = current s" "yamls (snd (deleteAll w ys s)) = yamls s"
    by (simp_all add: keeps_def fixes_field_def)
qed

text \<open>The state after the old deployment is gone.\<close>

definition removed :: "'v world \<Rightarrow> string \<Rightarrow> St \<Rightarrow> St" where
  "removed w v s = (if v \<noteq> current s \<and> current s \<noteq> [] then clear (snd (deleteAll w (yamls s) s)) else s)"

lemma fetch_run:
  "fetch w m vs k s =
    (case select w m vs k of Inl e \<Rightarrow> (Err e, s)
     | Inr v \<Rightarrow> if v = [] then (Err nomatch, removed w v s)
                else (Ok (), install (paths m v) v (removed w v s)))"
  by (auto simp: fetch_eq bindM_def thenM_def removed_def remove_run split: sum.split)

lemma fetch_Ok:
  "fetch w m vs k s = (Ok (), t) \<longleftrightarrow>
   (\<exists>v. v \<noteq> [] \<and> select w m vs k = Inr v \<and> t = install (paths m v) v (removed w v s))"
  by (auto simp: fetch_run split: sum.splits if_splits)

lemma fetch_not_Panic: "fetch w m vs k s \<noteq> (Panic p, t)"
  by (auto simp: fetch_run split: sum.splits if_splits)

text \<open>The files belong to the current version of some matrix, or there are none.\<close>

definition coherent :: "St \<Rightarrow> bool" where
  "coherent s \<longleftrightarrow> yamls s = [] \<or> (current s \<noteq> [] \<and> (\<exists>m. yamls s = paths m (current s)))"

lemma coherent_fetch: "coherent s \<Longrightarrow> fetch w m vs k s = (r, t) \<Longrightarrow> coherent t"
  by (auto simp: fetch_run removed_def coherent_def install_sel clear_sel remove_keeps_driver
      split: sum.splits if_splits)

text \<open>Requests are made only to remove the deployment of another version.\<close>

lemma fetch_trace:
  assumes "fetch w m vs k s = (r, t)"
  shows "trace t = (if \<exists>v. select w m vs k = Inr v \<and> v \<noteq> current s \<and> current s \<noteq> []
                    then trace (snd (remove w s)) else trace s)"
  using assms
  by (auto simp: fetch_run removed_def remove_run install_sel clear_sel split: sum.splits if_splits)

lemma remove_emits: "(\<And>c. spec_call DELETE c \<Longrightarrow> Q c) \<Longrightarrow> keeps (emits Q) (remove w)"
  unfolding remove_eq by (intro keeps_intro)

lemma deploy_emits: "(\<And>c. spec_call CREATE c \<Longrightarrow> Q c) \<Longrightarrow> keeps (emits Q) (deploy w)"
  unfolding deploy_eq by (intro keeps_intro)

lemma fetch_emits: "(\<And>c. spec_call DELETE c \<Longrightarrow> Q c) \<Longrightarrow> keeps (emits Q) (fetch w m vs k)"
  unfolding fetch_eq
  by (intro keeps_intro remove_emits) (simp_all add: install_sel clear_sel)

lemma fetch_no_panic: "no_panic (fetch w m vs k)"
  by (simp add: no_panic_def) (metis fetch_not_Panic prod.collapse)

lemma deploy_no_panic: "no_panic (deploy w)"
  unfolding deploy_eq by (intro no_panic_intro)

lemma deploy_fixed: "(\<And>s l. f (s\<lparr>trace := l\<rparr>) = f s) \<Longrightarrow> keeps (fixes_field f) (deploy w)"
  unfolding deploy_eq by (intro keeps_intro)

lemma fetch_fixed:
  assumes "\<And>s l. f (s\<lparr>trace := l\<rparr>) = f s" "\<And>s. f (clear s) = f s" "\<And>s ys v. f (install ys v s) = f s"
  shows "keeps (fixes_field f) (fetch w m vs k)"
  unfolding fetch_eq remove_eq by (intro keeps_intro) (simp_all add: assms)

text \<open>The choice: the greatest match of the last vSphere version that has one.\<close>

lemma select_spec:
  assumes "distinct (versions m)" and "select w m vs k = Inr v" and "v \<noteq> []"
  shows "\<exists>as x bs. vs = as @ x # bs \<and> v \<in> set (versions m) \<and> matches w m k x v = Inr True \<and>
     (\<forall>u \<in> set (versions m). v < u \<longrightarrow> matches w m k x u = Inr False) \<and>
     (\<forall>y \<in> set bs. \<forall>u \<in> set (versions m). matches w m k y u = Inr False)"
proof -
  have d: "sorted (sort (versions m))" "distinct (sort (versions m))" using assms(1) by simp_all
  from assms(2,3) obtain as x bs where "vs = as @ x # bs"
    "firstMatch (matches w m k x) (rev (sort (versions m))) = Inr (Some v)"
    "\<forall>y \<in> set bs. firstMatch (matches w m k y) (rev (sort (versions m))) = Inr None"
    unfolding select_eq using selectVersion_cases by blast
  then show ?thesis
    unfolding firstMatch_greatest [OF d] firstMatch_None by auto
qed

lemma select_skips:
  assumes "\<forall>u \<in> set (versions m). matches w m k y u = Inr False"
  shows "select w m (as @ y # bs) k = select w m (as @ bs) k"
  unfolding select_eq by (rule selectVersion_skips) (use assms in \<open>simp add: firstMatch_None\<close>)

lemma select_single:
  assumes "distinct (versions m)" and "v \<in> set (versions m)" and "matches w m k x v = Inr True"
    and "\<forall>u \<in> set (versions m). v < u \<longrightarrow> matches w m k x u = Inr False"
  shows "select w m [x] k = Inr v"
proof -
  have "firstMatch (matches w m k x) (rev (sort (versions m))) = Inr (Some v)"
    using assms by (subst firstMatch_greatest) auto
  then show ?thesis by (simp add: select_eq)
qed

end

interpretation csi_driver: driver FetchCsiDeploymentYamls selectCSI reconcileCSIDeployment deleteCSIDeployment
  csiMatches "\<lambda>m. mkeys (CSISpecList m)" "\<lambda>m v. CsiDeploymentPaths (csiInfo m v)"
  CurrentCSIDeployedVersion CsiDeploymentYamls
  "\<lambda>ys v s. s\<lparr>CsiDeploymentYamls := ys, CurrentCSIDeployedVersion := v\<rparr>"
  "\<lambda>s. s\<lparr>CsiDeploymentYamls := []\<rparr>"
  "Msg ''could not fetch compatible CSI version for vSphere version and k8s version ''"
  by unfold_locales
    (simp_all add: FetchCsiDeploymentYamls_def selectCSI_def reconcileCSIDeployment_def deleteCSIDeployment_def)

interpretation cpi_driver: driver FetchCpiDeploymentYamls selectCPI reconcileCPIDeployment deleteCPIDeployment
  cpiMatches "\<lambda>m. mkeys (CPISpecList m)" "\<lambda>m v. CpiDeploymentPaths (cpiInfo m v)"
  CurrentCPIDeployedVersion CpiDeploymentYamls
  "\<lambda>ys v s. s\<lparr>CpiDeploymentYamls := ys, CurrentCPIDeployedVersion := v\<rparr>"
  "\<lambda>s. s\<lparr>CpiDeploymentYamls := []\<rparr>"
  "Msg ''could not fetch compatible CPI version for vSphere version and k8s version ''"
  by unfold_locales
    (simp_all add: FetchCpiDeploymentYamls_def selectCPI_def reconcileCPIDeployment_def deleteCPIDeployment_def)

lemmas driver_keeps [keeps_intro] =
  csi_driver.fetch_emits cpi_driver.fetch_emits csi_driver.deploy_emits cpi_driver.deploy_emits
  csi_driver.deploy_fixed cpi_driver.deploy_fixed

lemmas driver_no_panic [no_panic_intro] =
  csi_driver.fetch_no_panic cpi_driver.fetch_no_panic csi_driver.deploy_no_panic cpi_driver.deploy_no_panic

section \<open>Properties of the choice\<close>

text \<open>A matrix for the witnesses: two CSI versions and two CPI versions.\<close>

definition csi_entry :: "string \<Rightarrow> string \<Rightarrow> string list \<Rightarrow> CSIVersionInfo" where
  "csi_entry mn mx ps = \<lparr>CsiVSphereVersion = \<lparr>Min = mn, Max = mx\<rparr>,
     CsiK8sVersion = \<lparr>Min = ''1.20'', Max = ''1.23''\<rparr>, IsCPIRequired = False, CsiDeploymentPaths = ps\<rparr>"

definition cpi_entry :: "string \<Rightarrow> string list \<Rightarrow> CPIVersionInfo" where
  "cpi_entry skew ps = \<lparr>CpiVSphereVersion = \<lparr>Min = ''6.7'', Max = ''7.0''\<rparr>,
     SkewVersion = skew, CpiDeploymentPaths = ps\<rparr>"

definition sample_matrix :: CompatMatrix where
  "sample_matrix =
     \<lparr>CSISpecList = Some [(''2.3.0'', csi_entry ''6.7'' ''7.0'' [''csi230'']),
                          (''2.4.0'', csi_entry ''7.0'' ''7.0'' [''csi240''])],
      CPISpecList = Some [(''1.21.0'', cpi_entry ''1.21'' [''cpi121'']),
                          (''1.22.0'', cpi_entry ''1.22'' [''cpi122''])]\<rparr>"

lemma sample_matrix_sel [simp]:
  "mkeys (CSISpecList sample_matrix) = [''2.3.0'', ''2.4.0'']"
  "mkeys (CPISpecList sample_matrix) = [''1.21.0'', ''1.22.0'']"
  "csiInfo sample_matrix ''2.3.0'' = csi_entry ''6.7'' ''7.0'' [''csi230'']"
  "csiInfo sample_matrix ''2.4.0'' = csi_entry ''7.0'' ''7.0'' [''csi240'']"
  "cpiInfo sample_matrix ''1.21.0'' = cpi_entry ''1.21'' [''cpi121'']"
  "cpiInfo sample_matrix ''1.22.0'' = cpi_entry ''1.22'' [''cpi122'']"
  "wf_gomap (CSISpecList sample_matrix)" "wf_gomap (CPISpecList sample_matrix)"
  by (simp_all add: sample_matrix_def mkeys_def csiInfo_def cpiInfo_def mlookup_def wf_gomap_def)

lemma sample_csi_matches:
  "csiMatches down_world sample_matrix ''1.21+'' ''7.0'' ''2.4.0'' = Inr True"
  "csiMatches down_world sample_matrix ''1.21+'' ''6.7'' ''2.4.0'' = Inr False"
  "csiMatches down_world sample_matrix ''1.21+'' ''6.7'' ''2.3.0'' = Inr True"
  by (simp_all add: csiMatches_def compareVersions_def both_def csi_entry_def sample_newVersion_def
      sample_field_def)

lemma sample_cpi_matches:
  "cpiMatches down_world sample_matrix ''1.21+'' ''7.0'' ''1.22.0'' = Inr False"
  "cpiMatches down_world sample_matrix ''1.21+'' ''7.0'' ''1.21.0'' = Inr True"
  by (simp_all add: cpiMatches_def compareVersions_def compareSkewVersions_def both_def cpi_entry_def
      sample_newVersion_def sample_field_def)

lemma sample_select:
  "selectCSI down_world sample_matrix [''7.0'', ''6.7''] ''1.21+'' = Inr ''2.3.0''"
  "selectCPI down_world sample_matrix [''7.0''] ''1.21+'' = Inr ''1.21.0''"
  by (simp_all add: selectCSI_def selectCPI_def sample_csi_matches sample_cpi_matches sort_key_def)

text \<open>
  C23. When \<^verbatim>\<open>FetchCsiDeploymentYamls\<close> returns without an error, the installed CSI version is the
  greatest key, in the order of strings, whose vSphere and Kubernetes ranges contain the given
  versions, for the last vSphere version that any key matches; the spec files are those of
  that key.
\<close>

theorem FetchCsi_selects:
  assumes "wf_gomap (CSISpecList m)"
    and "FetchCsiDeploymentYamls w m vs k s = (Ok (), t)"
  shows "\<exists>as x bs. vs = as @ x # bs \<and>
     CurrentCSIDeployedVersion t \<in> set (mkeys (CSISpecList m)) \<and>
     csiMatches w m k x (CurrentCSIDeployedVersion t) = Inr True \<and>
     (\<forall>u \<in> set (mkeys (CSISpecList m)). CurrentCSIDeployedVersion t < u \<longrightarrow> csiMatches w m k x u = Inr False) \<and>
     (\<forall>y \<in> set bs. \<forall>u \<in> set (mkeys (CSISpecList m)). csiMatches w m k y u = Inr False) \<and>
     CsiDeploymentYamls t = CsiDeploymentPaths (csiInfo m (CurrentCSIDeployedVersion t))"
proof -
  from assms(2) obtain v where "v \<noteq> []" "selectCSI w m vs k = Inr v"
    and t: "CurrentCSIDeployedVersion t = v" "CsiDeploymentYamls t = CsiDeploymentPaths (csiInfo m v)"
    by (auto simp: csi_driver.fetch_Ok)
  with csi_driver.select_spec [of m w vs k v] assms(1) show ?thesis
    unfolding t wf_gomap_def by blast
qed

lemma fetch_csi_sample:
  "FetchCsiDeploymentYamls down_world sample_matrix [''7.0'', ''6.7''] ''1.21+'' init_St =
     (Ok (), init_St\<lparr>CsiDeploymentYamls := [''csi230''], CurrentCSIDeployedVersion := ''2.3.0''\<rparr>)"
  by (simp add: csi_driver.fetch_run csi_driver.removed_def sample_select csi_entry_def)

theorem FetchCsi_selects_witness:
  "csiMatches down_world sample_matrix ''1.21+'' ''6.7'' ''2.3.0'' = Inr True \<and>
   csiMatches down_world sample_matrix ''1.21+'' ''6.7'' ''2.4.0'' = Inr False"
proof -
  let ?t = "init_St\<lparr>CsiDeploymentYamls := [''csi230''], CurrentCSIDeployedVersion := ''2.3.0''\<rparr>"
  from FetchCsi_selects [OF _ fetch_csi_sample] obtain as x bs where
    "[''7.0'', ''6.7''] = as @ x # bs" and x: "csiMatches down_world sample_matrix ''1.21+'' x ''2.3.0'' = Inr True"
    and later: "\<forall>y \<in> set bs. csiMatches down_world sample_matrix ''1.21+'' y ''2.3.0'' = Inr False"
    and above: "csiMatches down_world sample_matrix ''1.21+'' x ''2.4.0'' = Inr False"
    by auto
  then consider "x = ''7.0''" "bs = [''6.7'']" | "x = ''6.7''"
    by (auto simp: Cons_eq_append_conv)
  then show ?thesis using x above later by cases (auto simp: sample_csi_matches)
qed

text \<open>
  The same for the CPI driver, whose key must match the Kubernetes version exactly.
\<close>

theorem FetchCpi_selects:
  assumes "wf_gomap (CPISpecList m)"
    and "FetchCpiDeploymentYamls w m vs k s = (Ok (), t)"
  shows "\<exists>as x bs. vs = as @ x # bs \<and>
     CurrentCPIDeployedVersion t \<in> set (mkeys (CPISpecList m)) \<and>
     cpiMatches w m k x (CurrentCPIDeployedVersion t) = Inr True \<and>
     (\<forall>u \<in> set (mkeys (CPISpecList m)). CurrentCPIDeployedVersion t < u \<longrightarrow> cpiMatches w m k x u = Inr False) \<and>
     (\<forall>y \<in> set bs. \<forall>u \<in> set (mkeys (CPISpecList m)). cpiMatches w m k y u = Inr False) \<and>
     CpiDeploymentYamls t = CpiDeploymentPaths (cpiInfo m (CurrentCPIDeployedVersion t))"
proof -
  from assms(2) obtain v where "v \<noteq> []" "selectCPI w m vs k = Inr v"
    and t: "CurrentCPIDeployedVersion t = v" "CpiDeploymentYamls t = CpiDeploymentPaths (cpiInfo m v)"
    by (auto simp: cpi_driver.fetch_Ok)
  with cpi_driver.select_spec [of m w vs k v] assms(1) show ?thesis
    unfolding t wf_gomap_def by blast
qed

theorem FetchCpi_selects_witness:
  "cpiMatches down_world sample_matrix ''1.21+'' ''7.0'' ''1.21.0'' = Inr True \<and>
   cpiMatches down_world sample_matrix ''1.21+'' ''7.0'' ''1.22.0'' = Inr False"
proof -
  have "FetchCpiDeploymentYamls down_world sample_matrix [''7.0''] ''1.21+'' init_St =
     (Ok (), init_St\<lparr>CpiDeploymentYamls := [''cpi121''], CurrentCPIDeployedVersion := ''1.21.0''\<rparr>)"
    by (simp add: cpi_driver.fetch_run cpi_driver.removed_def sample_select cpi_entry_def)
  from FetchCpi_selects [OF _ this] show ?thesis by (auto simp: Cons_eq_append_conv)
qed

text \<open>
  The order in which Go iterates over the maps of the matrix does not matter: two matrices
  with the same entries give the same choice, the same requests and the same state.
\<close>

theorem Fetch_map_order:
  assumes "same_map (CSISpecList m) (CSISpecList m')"
    and "same_map (CPISpecList m) (CPISpecList m')"
  shows "FetchCsiDeploymentYamls w m = FetchCsiDeploymentYamls w m' \<and>
    FetchCpiDeploymentYamls w m = FetchCpiDeploymentYamls w m'"
proof -
  have info: "csiInfo m = csiInfo m'" "cpiInfo m = cpiInfo m'"
    using assms by (auto simp: csiInfo_def cpiInfo_def same_map_def)
  have "csiMatches w m = csiMatches w m'" "cpiMatches w m = cpiMatches w m'"
    by (simp_all add: csiMatches_def cpiMatches_def info fun_eq_iff)
  then have "selectCSI w m = selectCSI w m'" "selectCPI w m = selectCPI w m'"
    by (intro ext, simp add: selectCSI_def selectCPI_def same_map_sorted_keys [OF assms(1)]
        same_map_sorted_keys [OF assms(2)])+
  with info show ?thesis
    by (intro conjI ext) (simp_all add: csi_driver.fetch_run cpi_driver.fetch_run split: sum.split)
qed

definition shuffled_matrix :: CompatMatrix where
  "shuffled_matrix = sample_matrix
     \<lparr>CSISpecList := Some [(''2.4.0'', csi_entry ''7.0'' ''7.0'' [''csi240'']),
                          (''2.3.0'', csi_entry ''6.7'' ''7.0'' [''csi230''])]\<rparr>"

theorem Fetch_map_order_witness:
  "FetchCsiDeploymentYamls down_world shuffled_matrix [''7.0'', ''6.7''] ''1.21+'' init_St =
     (Ok (), init_St\<lparr>CsiDeploymentYamls := [''csi230''], CurrentCSIDeployedVersion := ''2.3.0''\<rparr>)"
proof -
  have "same_map (CSISpecList sample_matrix) (CSISpecList shuffled_matrix)"
    "same_map (CPISpecList sample_matrix) (CPISpecList shuffled_matrix)"
    by (auto simp: same_map_def shuffled_matrix_def sample_matrix_def mlookup_def wf_gomap_def mkeys_def
        fun_eq_iff)
  from Fetch_map_order [OF this, of down_world] show ?thesis
    using fetch_csi_sample by simp
qed

text \<open>
  Installing a version removes the deployment of another one first and does nothing else: if
  a version is chosen (even the empty one, when none is compatible) that differs from the
  current one, the requests are those of deleting the files of the current one, and otherwise
  there is no request at all. The driver is deleted through DELETE requests only, and the
  fields of the other driver stay.
\<close>

theorem FetchCpi_removes_old:
  assumes "FetchCpiDeploymentYamls w m vs k s = (r, t)"
  shows "trace t = (if \<exists>v. selectCPI w m vs k = Inr v \<and> v \<noteq> CurrentCPIDeployedVersion s \<and>
                        CurrentCPIDeployedVersion s \<noteq> []
                    then trace (snd (deleteCPIDeployment w s)) else trace s) \<and>
    emits (spec_call DELETE) s t \<and>
    CsiDeploymentYamls t = CsiDeploymentYamls s \<and>
    CurrentCSIDeployedVersion t = CurrentCSIDeployedVersion s"
proof -
  have "keeps (emits (spec_call DELETE)) (FetchCpiDeploymentYamls w m vs k)"
    "keeps (fixes_field CsiDeploymentYamls) (FetchCpiDeploymentYamls w m vs k)"
    "keeps (fixes_field CurrentCSIDeployedVersion) (FetchCpiDeploymentYamls w m vs k)"
    by (rule cpi_driver.fetch_emits cpi_driver.fetch_fixed, simp_all)+
  then show ?thesis
    using assms cpi_driver.fetch_trace [OF assms] by (auto simp: fixes_field_def dest: keepsD)
qed

definition old_cpi :: St where
  "old_cpi = init_St\<lparr>CpiDeploymentYamls := [''file:///old''], CurrentCPIDeployedVersion := ''1.19.0''\<rparr>"

lemma old_cpi_sel [simp]:
  "CpiDeploymentYamls old_cpi = [''file:///old'']" "CurrentCPIDeployedVersion old_cpi = ''1.19.0''"
  "trace old_cpi = []"
  by (simp_all add: old_cpi_def)

theorem FetchCpi_removes_old_witness:
  "trace (snd (FetchCpiDeploymentYamls down_world sample_matrix [''7.0''] ''1.21+'' old_cpi)) = [ReadFile ''//old'']"
proof -
  obtain r t where run: "FetchCpiDeploymentYamls down_world sample_matrix [''7.0''] ''1.21+'' old_cpi = (r, t)"
    by force
  have "trace (snd (deleteCPIDeployment down_world old_cpi)) = [ReadFile ''//old'']"
    by (simp add: deleteCPIDeployment_def deleteAll_def applyYaml_def readSpec_def
        GenerateYamlFromFilePath_def monad_defs)
  with FetchCpi_removes_old [OF run] run show ?thesis by (simp add: sample_select)
qed

text \<open>
  The choice is by the order of strings, not of versions: of the two keys 2.10.0 and 2.9.0,
  both compatible, the older 2.9.0 is installed.
\<close>

theorem FetchCsi_string_order:
  assumes "mkeys (CSISpecList m) = [''2.10.0'', ''2.9.0'']"
    and "csiMatches w m k x ''2.10.0'' = Inr True" and "csiMatches w m k x ''2.9.0'' = Inr True"
  shows "fst (FetchCsiDeploymentYamls w m [x] k s) = Ok () \<and>
    CurrentCSIDeployedVersion (snd (FetchCsiDeploymentYamls w m [x] k s)) = ''2.9.0''"
proof -
  have "selectCSI w m [x] k = Inr ''2.9.0''"
    by (rule csi_driver.select_single) (use assms in auto)
  then show ?thesis by (simp add: csi_driver.fetch_run)
qed

definition late_matrix :: CompatMatrix where
  "late_matrix = \<lparr>CSISpecList = Some [(''2.10.0'', csi_entry ''7.0'' ''7.0'' [''csi2100'']),
                                     (''2.9.0'', csi_entry ''7.0'' ''7.0'' [''csi290''])],
                  CPISpecList = None\<rparr>"

theorem FetchCsi_string_order_witness:
  "CurrentCSIDeployedVersion (snd (FetchCsiDeploymentYamls down_world late_matrix [''7.0''] ''1.22'' init_St)) =
     ''2.9.0'' \<and> sample_compare [2, 9, 0] [2, 10, 0] < 0"
proof -
  have "csiMatches down_world late_matrix ''1.22'' ''7.0'' ''2.10.0'' = Inr True"
    "csiMatches down_world late_matrix ''1.22'' ''7.0'' ''2.9.0'' = Inr True"
    by (simp_all add: csiMatches_def compareVersions_def both_def csi_entry_def sample_newVersion_def
      sample_field_def csiInfo_def mlookup_def late_matrix_def)
  moreover have "mkeys (CSISpecList late_matrix) = [''2.10.0'', ''2.9.0'']"
    by (simp add: late_matrix_def mkeys_def)
  ultimately show ?thesis using FetchCsi_string_order [of late_matrix down_world "''1.22''" "''7.0''" init_St] by simp
qed

text \<open>
  A vCenter whose vSphere version no entry of the matrix supports has no influence on the
  choice of either driver: the result is the one for the other vCenters, and no error.
\<close>

theorem Fetch_skips_unsupported_vcenter:
  "((\<forall>u \<in> set (mkeys (CSISpecList m)). csiMatches w m k y u = Inr False) \<longrightarrow>
      FetchCsiDeploymentYamls w m (as @ y # bs) k = FetchCsiDeploymentYamls w m (as @ bs) k) \<and>
   ((\<forall>u \<in> set (mkeys (CPISpecList m)). cpiMatches w m k y u = Inr False) \<longrightarrow>
      FetchCpiDeploymentYamls w m (as @ y # bs) k = FetchCpiDeploymentYamls w m (as @ bs) k)"
  by (simp_all add: fun_eq_iff csi_driver.fetch_run cpi_driver.fetch_run csi_driver.select_skips
      cpi_driver.select_skips)

theorem Fetch_skips_unsupported_vcenter_witness:
  "FetchCsiDeploymentYamls down_world sample_matrix [''5.5'', ''7.0'', ''6.7''] ''1.21+'' init_St =
     (Ok (), init_St\<lparr>CsiDeploymentYamls := [''csi230''], CurrentCSIDeployedVersion := ''2.3.0''\<rparr>)"
proof -
  have "\<forall>u \<in> set (mkeys (CSISpecList sample_matrix)). csiMatches down_world sample_matrix ''1.21+'' ''5.5'' u = Inr False"
    by (simp add: csiMatches_def compareVersions_def both_def csi_entry_def sample_newVersion_def
      sample_field_def)
  with Fetch_skips_unsupported_vcenter [of sample_matrix down_world "''1.21+''" "''5.5''" "[]" "[''7.0'', ''6.7'']"]
  show ?thesis using fetch_csi_sample by simp
qed

text \<open>
  \<^verbatim>\<open>reconcileCPIDeployment\<close> and \<^verbatim>\<open>reconcileCSIDeployment\<close> never report a change: whatever
  they applied, the result of a run that succeeds is false, so that the callers never enter the
  branch that writes the phase Deploying.
\<close>

theorem reconcileDeployment_reports_no_change:
  "reconcileCPIDeployment w s \<noteq> (Ok True, t) \<and> reconcileCSIDeployment w s \<noteq> (Ok True, t)"
  by (metis cpi_driver.deploy_reports_False csi_driver.deploy_reports_False)

end
