(* ===== verification/Vc_Session.thy ===== *)
theory Vc_Session
  imports Effects Sample_World
begin

text \<open>
  \<^verbatim>\<open>pkg/session/session.go\<close>: the cache of vCenter sessions and the search for the virtual
  machine of a node. \<open>GetOrCreate\<close> runs under a mutex, so it is one operation on the state.
\<close>

definition groupVersion :: string where
  "groupVersion = ''vdo.vmware.com/v1alpha1''"

definition newClient :: "'v world \<Rightarrow> Url \<Rightarrow> string \<Rightarrow> VcClient M" where
  "newClient w url thumbprint =
     (let insecure = (thumbprint = []) in
      bindM (ask (NewVimClient url insecure thumbprint) (\<lambda>t. w_newVimClient w t url insecure thumbprint))
        (\<lambda>c. thenM (ask (Login c url) (\<lambda>t. w_login w t c url)) (ret c)))"

text \<open>
  The inventory paths of a cached session, nil when it has no datacenter, as
  \<^verbatim>\<open>reflect.DeepEqual\<close> compares them with the requested list.
\<close>

definition cachedDatacenters :: "Session \<Rightarrow> string slice" where
  "cachedDatacenters c =
     (if Datacenters c = [] then None else Some (map InventoryPath (Datacenters c)))"

definition sessionActive :: "'v world \<Rightarrow> VcClient \<Rightarrow> bool M" where
  "sessionActive w c =
     bindM (tryM (ask (SessionIsActive c) (\<lambda>t. w_sessionIsActive w t c)))
       (\<lambda>r. ret (case r of Inl _ \<Rightarrow> False | Inr b \<Rightarrow> b))"

definition cachedSession :: "'v world \<Rightarrow> string \<Rightarrow> string slice \<Rightarrow> Session option M" where
  "cachedSession w sessionKey datacenters =
     bindM (getS (\<lambda>s. map_of (sessionCache s) sessionKey))
       (\<lambda>cached. case cached of None \<Rightarrow> ret None
         | Some c \<Rightarrow> bindM (sessionActive w (SessClient c))
             (\<lambda>ok. ret (if ok \<and> datacenters = cachedDatacenters c then Some c else None)))"

definition findDatacenters :: "'v world \<Rightarrow> VcClient \<Rightarrow> string list \<Rightarrow> Datacenter list M" where
  "findDatacenters w c names =
     foldM (\<lambda>name dcs. bindM (ask (FindDatacenter c name) (\<lambda>t. w_findDatacenter w t c name))
              (\<lambda>dc. ret (case dc of None \<Rightarrow> dcs | Some d \<Rightarrow> dcs @ [d])))
       names []"

definition createSession ::
  "'v world \<Rightarrow> string \<Rightarrow> string slice \<Rightarrow> string \<Rightarrow> string \<Rightarrow> string \<Rightarrow> Session M" where
  "createSession w server datacenters username password thumbprint =
     (case p_parseURL w server of
        Inl e \<Rightarrow> throw (Wrapped (''error parsing vSphere URL '' @ quoted server) e)
      | Inr None \<Rightarrow> throw (Msg (''error parsing vSphere URL '' @ quoted server))
      | Inr (Some url) \<Rightarrow>
          bindM (newClient w (url\<lparr>UrlUser := username, UrlPassword := password\<rparr>) thumbprint)
            (\<lambda>c0. let c = c0\<lparr>UserAgent := groupVersion\<rparr> in
               bindM (findDatacenters w c (entries datacenters))
                 (\<lambda>dcs. ret \<lparr>SessClient = c, Datacenters = dcs, VsphereVersion = AboutVersion c\<rparr>)))"

definition GetOrCreate ::
  "'v world \<Rightarrow> string \<Rightarrow> string slice \<Rightarrow> string \<Rightarrow> string \<Rightarrow> string \<Rightarrow> Session M" where
  "GetOrCreate w server datacenters username password thumbprint =
     (let sessionKey = server @ username in
      bindM (cachedSession w sessionKey datacenters)
        (\<lambda>hit. case hit of Some c \<Rightarrow> ret c
          | None \<Rightarrow>
              bindM (createSession w server datacenters username password thumbprint)
                (\<lambda>sess. thenM (modS (\<lambda>s. s\<lparr>sessionCache := AList.update sessionKey sess (sessionCache s)\<rparr>))
                          (ret sess))))"

text \<open>
  \<^verbatim>\<open>GetVMByIP\<close>: the first datacenter that knows the address. A virtual machine is its
  reference and its datacenter.
\<close>

fun GetVMByIP :: "'v world \<Rightarrow> string \<Rightarrow> Datacenter list \<Rightarrow> (nat \<times> Datacenter) option M" where
  "GetVMByIP w ipAddy [] = ret None"
| "GetVMByIP w ipAddy (dc # dcs) =
     (let ip = ToLower (TrimSpace ipAddy) in
      bindM (ask (FindByIp dc ip) (\<lambda>t. w_findByIp w t dc ip))
        (\<lambda>svm. case svm of None \<Rightarrow> GetVMByIP w ip dcs | Some vm \<Rightarrow> ret (Some (vm, dc))))"

section \<open>Which requests a session makes\<close>

definition session_call :: "call \<Rightarrow> bool" where
  "session_call c \<longleftrightarrow> (case c of SessionIsActive _ \<Rightarrow> True | NewVimClient _ _ _ \<Rightarrow> True | Login _ _ \<Rightarrow> True
                       | FindDatacenter _ _ \<Rightarrow> True | FindByIp _ _ \<Rightarrow> True | _ \<Rightarrow> False)"

lemma session_call_simps [simp]:
  "session_call (SessionIsActive c)" "session_call (NewVimClient u i t)" "session_call (Login c u)"
  "session_call (FindDatacenter c n)" "session_call (FindByIp d a)"
  by (simp_all add: session_call_def)

lemma createSession_emits [keeps_intro]:
  "keeps (emits session_call) (createSession w server dcs user pwd thumb)"
  unfolding createSession_def newClient_def findDatacenters_def
  by (intro keeps_intro) simp_all

lemma GetOrCreate_emits [keeps_intro]:
  "keeps (emits session_call) (GetOrCreate w server dcs user pwd thumb)"
  unfolding GetOrCreate_def cachedSession_def sessionActive_def
  by (intro keeps_intro) simp_all

lemma GetVMByIP_emits [keeps_intro]: "keeps (emits session_call) (GetVMByIP w ip dcs)"
proof (induction dcs arbitrary: ip)
  case Nil
  show ?case by (simp add: keeps_intro)
next
  case (Cons dc dcs)
  then show ?case by (auto simp: Let_def intro!: keeps_intro)
qed


section \<open>The cache\<close>

definition cache_lookup :: "St \<Rightarrow> string \<Rightarrow> Session option" where
  "cache_lookup s k = map_of (sessionCache s) k"

lemma createSession_cache [keeps_intro]:
  "keeps (fixes_field sessionCache) (createSession w server dcs user pwd thumb)"
  unfolding createSession_def newClient_def findDatacenters_def
  by (intro keeps_intro) simp_all

lemma cachedSession_cache [keeps_intro]: "keeps (fixes_field sessionCache) (cachedSession w k dcs)"
  unfolding cachedSession_def sessionActive_def by (intro keeps_intro) simp_all

lemma GetOrCreate_cfg [keeps_intro]: "keeps (fixes_field cfg) (GetOrCreate w server dcs user pwd thumb)"
  unfolding GetOrCreate_def cachedSession_def sessionActive_def createSession_def newClient_def
    findDatacenters_def
  by (intro keeps_intro) simp_all

text \<open>
  A session is served from the cache whenever the entry under the concatenation of server
  and user name is active and has the requested datacenters: the only request is the liveness
  check, and the password and the thumbprint of the call are not looked at.
\<close>
theorem GetOrCreate_hit_ignores_password:
  assumes "cache_lookup s (server @ user) = Some c"
    and "w_sessionIsActive w (trace s) (SessClient c) = Inr True"
    and "dcs = cachedDatacenters c"
  shows "GetOrCreate w server dcs user pwd thumb s =
           (Ok c, s\<lparr>trace := trace s @ [SessionIsActive (SessClient c)]\<rparr>)"
  using assms
  by (simp add: GetOrCreate_def cachedSession_def sessionActive_def cache_lookup_def monad_defs)

definition vc_client :: VcClient where
  "vc_client = \<lparr>ClientId = 7, AboutVersion = ''7.0.3'', UserAgent = groupVersion\<rparr>"

definition vc_session :: Session where
  "vc_session = \<lparr>SessClient = vc_client, Datacenters = [\<lparr>DcId = 1, InventoryPath = ''/dc0''\<rparr>],
                 VsphereVersion = ''7.0.3''\<rparr>"

definition active_world :: "nat list world" where
  "active_world = down_world\<lparr>w_sessionIsActive := (\<lambda>_ _. Inr True)\<rparr>"

lemma active_world_simps [simp]:
  "w_sessionIsActive active_world = (\<lambda>_ _. Inr True)"
  "p_parseURL active_world = p_parseURL down_world"
  by (simp_all add: active_world_def)

text \<open>
  The witness: the session of user \<^verbatim>\<open>0admin\<close> on \<^verbatim>\<open>vc1\<close> is handed to user \<^verbatim>\<open>admin\<close> on
  \<^verbatim>\<open>vc10\<close>, with a wrong password: both have the key \<^verbatim>\<open>vc10admin\<close>.
\<close>
theorem GetOrCreate_hit_ignores_password_witness:
  "GetOrCreate active_world ''vc10'' (Some [''/dc0'']) ''admin'' ''wrong'' []
     (init_St\<lparr>sessionCache := [(''vc1'' @ ''0admin'', vc_session)]\<rparr>) =
   (Ok vc_session, init_St\<lparr>sessionCache := [(''vc10admin'', vc_session)],
                    trace := [SessionIsActive vc_client]\<rparr>)"
  by (subst GetOrCreate_hit_ignores_password [where c = vc_session])
    (simp_all add: cache_lookup_def cachedDatacenters_def vc_session_def)

lemma createSession_no_panic [no_panic_intro]:
  "no_panic (createSession w server dcs user pwd thumb)"
  unfolding createSession_def newClient_def findDatacenters_def by (intro no_panic_intro)

lemma GetOrCreate_no_panic [no_panic_intro]: "no_panic (GetOrCreate w server dcs user pwd thumb)"
  unfolding GetOrCreate_def cachedSession_def sessionActive_def by (intro no_panic_intro)

definition logged_in :: "St \<Rightarrow> St \<Rightarrow> string \<Rightarrow> string \<Rightarrow> bool" where
  "logged_in s t user pwd \<longleftrightarrow>
     (\<exists>c u. Login c u \<in> set (new_calls s t) \<and> UrlUser u = user \<and> UrlPassword u = pwd)"

lemma logged_in_later:
  "logged_in u t user pwd \<Longrightarrow> trace u = trace s @ cs \<Longrightarrow> trace t = trace u @ ds \<Longrightarrow> logged_in s t user pwd"
  by (fastforce simp: logged_in_def new_calls_def)

text \<open>A new session has logged in with the credentials of the call.\<close>

lemma createSession_login:
  assumes "createSession w server dcs user pwd thumb s = (Ok sess, t)"
  shows "logged_in s t user pwd"
proof -
  from assms obtain url where url: "p_parseURL w server = Inr (Some url)"
    by (auto simp: createSession_def split: sum.splits option.splits)
  let ?u = "url\<lparr>UrlUser := user, UrlPassword := pwd\<rparr>"
  from assms url obtain c u ds where
    login: "newClient w ?u thumb s = (Ok c, u)" and
    dcs: "findDatacenters w (c\<lparr>UserAgent := groupVersion\<rparr>) (entries dcs) u = (Ok ds, t)"
    by (auto simp: createSession_def runs Let_def)
  from login have u: "trace u = trace s @ [NewVimClient ?u (thumb = []) thumb, Login c ?u]"
    by (auto simp: newClient_def runs Let_def)
  have "keeps (emits session_call) (findDatacenters w (c\<lparr>UserAgent := groupVersion\<rparr>) (entries dcs))"
    unfolding findDatacenters_def by (intro keeps_intro) simp_all
  from keepsD [OF this dcs] obtain cs where "trace t = trace u @ cs"
    by (rule emitsE)
  with u have "Login c ?u \<in> set (new_calls s t)"
    by (simp add: new_calls_def)
  then show ?thesis unfolding logged_in_def by (intro exI [of _ c] exI [of _ ?u]) simp
qed

lemma cachedSession_Some:
  "cachedSession w k dcs s = (Ok (Some c), t) \<Longrightarrow> map_of (sessionCache s) k = Some c"
  by (auto simp: cachedSession_def runs split: option.splits if_splits)

text \<open>
  C40. A call of \<open>GetOrCreate\<close> changes the cache only by storing the session it returns under
  its own key, and a call that fails leaves the whole cache as it was; a session that does not
  come from the cache has logged in with the given user and password. The call never panics.
\<close>
theorem GetOrCreate_cache:
  assumes "GetOrCreate w server dcs user pwd thumb s = (r, t)"
  shows "case r of
      Ok sess \<Rightarrow> (\<forall>k. cache_lookup t k = (if k = server @ user then Some sess else cache_lookup s k)) \<and>
        (cache_lookup s (server @ user) = Some sess \<or> logged_in s t user pwd)
    | Err e \<Rightarrow> sessionCache t = sessionCache s
    | Panic p \<Rightarrow> False"
proof -
  obtain q u where hit: "cachedSession w (server @ user) dcs s = (q, u)" by fastforce
  have cache_u: "sessionCache u = sessionCache s"
    using keepsD [OF cachedSession_cache hit] by (simp add: fixes_field_def)
  have "keeps (emits session_call) (cachedSession w (server @ user) dcs)"
    unfolding cachedSession_def sessionActive_def by (intro keeps_intro) simp_all
  from keepsD [OF this hit] obtain cs where trace_u: "trace u = trace s @ cs" by (rule emitsE)
  show ?thesis
  proof (cases "\<exists>c. q = Ok (Some c)")
    case True
    then obtain c where q: "q = Ok (Some c)" by blast
    then have "map_of (sessionCache s) (server @ user) = Some c"
      using hit cachedSession_Some by blast
    with assms hit q cache_u show ?thesis
      by (auto simp: GetOrCreate_def bindM_def cache_lookup_def Let_def)
  next
    case False
    obtain v x where create: "createSession w server dcs user pwd thumb u = (v, x)" by fastforce
    have cache_x: "sessionCache x = sessionCache s"
      using keepsD [OF createSession_cache create] cache_u by (simp add: fixes_field_def)
    from keepsD [OF createSession_emits create] obtain ds where
      trace_x: "trace x = trace u @ ds" "new_calls u x = ds" by (rule emitsE)
    have "no_panic (cachedSession w (server @ user) dcs)"
      unfolding cachedSession_def sessionActive_def by (intro no_panic_intro)
    then have "q \<noteq> Panic p" for p using hit no_panicD by blast
    moreover have "v \<noteq> Panic p" for p
      using create no_panicD [OF createSession_no_panic] by blast
    ultimately have res: "(r, t) = (case q of
        Ok None \<Rightarrow> (case v of
            Ok sess \<Rightarrow> (Ok sess, x\<lparr>sessionCache := AList.update (server @ user) sess (sessionCache x)\<rparr>)
          | Err e \<Rightarrow> (Err e, x))
      | Err e \<Rightarrow> (Err e, u))" and "v \<noteq> Panic p" for p
      using False assms hit create
      by (auto simp: GetOrCreate_def bindM_def thenM_def Let_def split: outcome.splits option.splits)
    have "v = Ok sess \<Longrightarrow> logged_in s x user pwd" for sess
      using createSession_login create trace_u trace_x(1) logged_in_later by blast
    then have "v = Ok sess \<Longrightarrow> logged_in s (x\<lparr>sessionCache := c\<rparr>) user pwd" for sess c
      by (simp add: logged_in_def new_calls_def)
    then show ?thesis
      using res False \<open>\<And>p. v \<noteq> Panic p\<close> \<open>\<And>p. q \<noteq> Panic p\<close> cache_u cache_x
      by (auto simp: cache_lookup_def update_conv' split: outcome.splits option.splits)
  qed
qed

definition login_world :: "nat list world" where
  "login_world = down_world\<lparr>w_newVimClient := (\<lambda>_ _ _ _. Inr vc_client), w_login := (\<lambda>_ _ _. Inr ()),
     w_findDatacenter := (\<lambda>_ _ n. Inr (Some \<lparr>DcId = 1, InventoryPath = n\<rparr>))\<rparr>"

lemma login_world_simps [simp]:
  "w_newVimClient login_world = (\<lambda>_ _ _ _. Inr vc_client)"
  "w_login login_world = (\<lambda>_ _ _. Inr ())"
  "w_findDatacenter login_world = (\<lambda>_ _ n. Inr (Some \<lparr>DcId = 1, InventoryPath = n\<rparr>))"
  "w_sessionIsActive login_world = (\<lambda>_ _. Inl sample_refusal)"
  "p_parseURL login_world = p_parseURL down_world"
  by (simp_all add: login_world_def)

lemma login_run:
  "\<exists>t. GetOrCreate login_world ''vc1'' (Some [''/dc0'']) ''admin'' ''pw'' [] init_St = (Ok vc_session, t)"
  by (simp add: GetOrCreate_def cachedSession_def createSession_def newClient_def findDatacenters_def
      monad_defs vc_session_def vc_client_def)

theorem GetOrCreate_cache_witness:
  "\<exists>t. GetOrCreate login_world ''vc1'' (Some [''/dc0'']) ''admin'' ''pw'' [] init_St = (Ok vc_session, t) \<and>
       cache_lookup t ''vc1admin'' = Some vc_session \<and> cache_lookup t ''vc2admin'' = None"
proof -
  obtain t where run:
    "GetOrCreate login_world ''vc1'' (Some [''/dc0'']) ''admin'' ''pw'' [] init_St = (Ok vc_session, t)"
    using login_run by blast
  with GetOrCreate_cache [OF run] show ?thesis by (auto simp: cache_lookup_def)
qed

section \<open>The machine of a node\<close>

text \<open>
  \<open>GetVMByIP\<close> asks the datacenters in their order for the normalised address - the same
  text in every request, although the loop normalises it again for each datacenter - and stops
  at the first one that has the machine or fails; \<open>None\<close> means that every datacenter was asked
  and none knew the address.
\<close>
theorem GetVMByIP_search:
  assumes "GetVMByIP w ip dcs s = (r, t)"
  shows "\<exists>n \<le> length dcs.
     t = s\<lparr>trace := trace s @ map (\<lambda>dc. FindByIp dc (ToLower (TrimSpace ip))) (take n dcs)\<rparr> \<and>
     (r = Ok None \<longrightarrow> n = length dcs) \<and>
     (\<forall>vm dc. r = Ok (Some (vm, dc)) \<longrightarrow> 0 < n \<and> dc = dcs ! (n - 1)) \<and> (\<forall>p. r \<noteq> Panic p)"
  using assms
proof (induction dcs arbitrary: ip s)
  case Nil
  then show ?case by auto
next
  case (Cons dc dcs)
  let ?ip = "ToLower (TrimSpace ip)"
  let ?s = "s\<lparr>trace := trace s @ [FindByIp dc ?ip]\<rparr>"
  have norm: "ToLower (TrimSpace ?ip) = ?ip" by (simp add: TrimSpace_ToLower)
  show ?case
  proof (cases "w_findByIp w (trace s) dc ?ip = Inr None")
    case True
    with Cons.prems have "GetVMByIP w ?ip dcs ?s = (r, t)"
      by (auto simp: bindM_def ask_def Let_def)
    from Cons.IH [OF this] obtain n where n: "n \<le> length dcs"
      "t = ?s\<lparr>trace := trace ?s @ map (\<lambda>dc. FindByIp dc ?ip) (take n dcs)\<rparr>"
      "r = Ok None \<longrightarrow> n = length dcs"
      "\<forall>vm d. r = Ok (Some (vm, d)) \<longrightarrow> 0 < n \<and> d = dcs ! (n - 1)" "\<forall>p. r \<noteq> Panic p"
      unfolding norm by blast
    then show ?thesis by (intro exI [of _ "Suc n"]) auto
  next
    case False
    with Cons.prems have "t = ?s \<and> r \<noteq> Ok None \<and> (\<forall>vm d. r = Ok (Some (vm, d)) \<longrightarrow> d = dc) \<and> (\<forall>p. r \<noteq> Panic p)"
      by (auto simp: bindM_def ask_def Let_def outcome_of_def split: sum.splits option.splits)
    then show ?thesis by (intro exI [of _ 1]) auto
  qed
qed

definition vm_world :: "nat list world" where
  "vm_world = down_world\<lparr>w_findByIp := (\<lambda>_ dc ip. Inr (if DcId dc = 2 \<and> ip = ''fe80::a'' then Some 9 else None))\<rparr>"

lemma vm_world_simps [simp]:
  "w_findByIp vm_world = (\<lambda>_ dc ip. Inr (if DcId dc = 2 \<and> ip = ''fe80::a'' then Some 9 else None))"
  by (simp add: vm_world_def)

lemma vm_address:
  "ToLower (TrimSpace '' FE80::A '') = ''fe80::a''" "ToLower (TrimSpace ''fe80::a'') = ''fe80::a''"
  by code_simp+

theorem GetVMByIP_search_witness:
  "\<exists>t. GetVMByIP vm_world '' FE80::A '' [\<lparr>DcId = 1, InventoryPath = ''/a''\<rparr>, \<lparr>DcId = 2, InventoryPath = ''/b''\<rparr>]
         init_St = (Ok (Some (9, \<lparr>DcId = 2, InventoryPath = ''/b''\<rparr>)), t) \<and> length (trace t) = 2"
proof -
  let ?dcs = "[\<lparr>DcId = 1, InventoryPath = ''/a''\<rparr>, \<lparr>DcId = 2, InventoryPath = ''/b''\<rparr>]"
  obtain t where run: "GetVMByIP vm_world '' FE80::A '' ?dcs init_St =
      (Ok (Some (9, \<lparr>DcId = 2, InventoryPath = ''/b''\<rparr>)), t)"
    by (simp add: monad_defs vm_address)
  from GetVMByIP_search [OF run] obtain n where n: "n \<le> 2" "0 < n"
    "\<lparr>DcId = 2, InventoryPath = ''/b''\<rparr> = ?dcs ! (n - 1)"
    "t = init_St\<lparr>trace := trace init_St @ map (\<lambda>dc. FindByIp dc (ToLower (TrimSpace '' FE80::A ''))) (take n ?dcs)\<rparr>"
    by (auto simp: numeral_2_eq_2)
  then have "n = 2" by (cases "n = 1") auto
  with n(4) have "length (trace t) = 2" by simp
  with run show ?thesis by blast
qed

end
