(* ===== verification/Compat_Check.thy ===== *)
theory Compat_Check
  imports Driver_Specs Vc_Session
begin

text \<open>
  From the configuration to the driver versions (\<^verbatim>\<open>controllers/vdoconfig_controller.go\<close>): the
  location or content of the matrix in the process environment, the versions of Kubernetes and
  of the vCenters, the credentials and sessions, the CSI namespace, and
  \<open>CheckCompatAndRetrieveSpec\<close>, which puts them together.
\<close>

section \<open>Where the matrix comes from\<close>

text \<open>
  \<^verbatim>\<open>os.Setenv\<close> refuses an empty key, a key with an equals sign, and a NUL byte; the error is
  only logged.
\<close>

definition setEnvVariables :: "string \<Rightarrow> string \<Rightarrow> unit M" where
  "setEnvVariables key value =
     modS (\<lambda>s. if key = [] \<or> CHR ''='' \<in> set key \<or> CHR 0x00 \<in> set key \<or> CHR 0x00 \<in> set value then s
               else s\<lparr>environ := (environ s)(key := value)\<rparr>)"

definition updateMatrixInfo :: "'v world \<Rightarrow> NamespacedName \<Rightarrow> unit M" where
  "updateMatrixInfo w req =
     bindM (getS VDO_NAMESPACE)
       (\<lambda>ns. if NnNamespace req = ns \<and> NnName req = CM_NAME then
          bindM (tryM (ask (GetConfigMap req) (\<lambda>t. w_getConfigMap w t req)))
            (\<lambda>r. case r of
               Inl e \<Rightarrow> thenM (setEnvVariables COMPAT_MATRIX_CONFIG_URL [])
                        (thenM (setEnvVariables COMPAT_MATRIX_CONFIG_CONTENT []) (throw e))
             | Inr configMap \<Rightarrow>
                 thenM (case mlookup (CmData configMap) CM_URL_KEY of
                          Some v \<Rightarrow> setEnvVariables COMPAT_MATRIX_CONFIG_URL v | None \<Rightarrow> ret ())
                       (case mlookup (CmData configMap) CM_CONTENT_KEY of
                          Some v \<Rightarrow> setEnvVariables COMPAT_MATRIX_CONFIG_CONTENT v | None \<Rightarrow> ret ()))
        else ret ())"

definition getMatrixConfig :: "string \<Rightarrow> string \<Rightarrow> err + string" where
  "getMatrixConfig matrixConfigUrl matrixConfigContent =
     (if matrixConfigUrl \<noteq> [] \<and> matrixConfigContent = [] then Inr matrixConfigUrl
      else if matrixConfigUrl = [] \<and> matrixConfigContent \<noteq> [] then Inr matrixConfigContent
      else Inl (Msg ''Matrix Config URL/Content not provided in proper format''))"

section \<open>Versions of Kubernetes and of the vCenters\<close>

text \<open>
  The error of \<^verbatim>\<open>NewDiscoveryClientForConfig\<close> is dropped; its nil client panics when it is used.
\<close>

definition Fetchk8sVersions :: "'v world \<Rightarrow> string M" where
  "Fetchk8sVersions w =
     bindM (tryM (ask NewDiscoveryClient (\<lambda>t. w_newDiscovery w t)))
       (\<lambda>r. case r of Inl _ \<Rightarrow> panic ''nil pointer dereference''
          | Inr _ \<Rightarrow> bindM (ask ServerVersion (\<lambda>t. w_serverVersion w t))
              (\<lambda>v. case v of (major, minor) \<Rightarrow> ret (major @ ''.'' @ minor)))"

definition fetchVSphereCloudConfig :: "'v world \<Rightarrow> string \<Rightarrow> string \<Rightarrow> VsphereCloudConfig M" where
  "fetchVSphereCloudConfig w vSphereCloudConfigName vdoConfigNamespace =
     (let key = \<lparr>NnNamespace = vdoConfigNamespace, NnName = vSphereCloudConfigName\<rparr> in
      wrapM (''could not fetch vSphereCLoudConfig resource '' @ nnString key)
        (ask (GetVCC key) (\<lambda>t. w_getVCC w t key)))"

text \<open>The user name and the password.\<close>

definition fetchVcCredentials :: "'v world \<Rightarrow> VsphereCloudConfig \<Rightarrow> (string \<times> string) M" where
  "fetchVcCredentials w config =
     (if Credentials (VccSpec config) = [] then throw (Msg ''error fetching credentials from vsphereCloudConfig'')
      else (let key = \<lparr>NnNamespace = VC_CREDS_SECRET_NS, NnName = Credentials (VccSpec config)\<rparr> in
        bindM (ask (GetSecret key) (\<lambda>t. w_getSecret w t key))
          (\<lambda>vcSecret. ret (mindex (SecretData vcSecret) ''username'', mindex (SecretData vcSecret) ''password''))))"

text \<open>
  The status that \<^verbatim>\<open>getVcSession\<close> sets on its argument is not part of the result: the callers
  pass the address of a loop variable that nobody reads again.
\<close>

definition getVcSession :: "'v world \<Rightarrow> VsphereCloudConfig \<Rightarrow> Session M" where
  "getVcSession w config =
     bindM (wrapM ''Error fetching vcenter credentials '' (fetchVcCredentials w config))
       (\<lambda>(vcUser, vcUserPwd). let vcIp = VcIP (VccSpec config) in
          wrapM (''Error establishing session with vcenter '' @ vcIp @ '' for user '' @ vcUser)
            (GetOrCreate w vcIp (DataCenters (VccSpec config)) vcUser vcUserPwd (Thumbprint (VccSpec config))))"

definition FetchVsphereVersions :: "'v world \<Rightarrow> NamespacedName \<Rightarrow> string list M" where
  "FetchVsphereVersions w req =
     bindM (getS cfg)
       (\<lambda>vdo. let names = (if cloud_configs vdo = [] then [storage_config vdo] else cloud_configs vdo) in
          bindM (mapM (\<lambda>n. fetchVSphereCloudConfig w n (NnNamespace req)) names)
            (\<lambda>items. mapM (\<lambda>c. bindM (getVcSession w c) (\<lambda>sess. ret (VsphereVersion sess))) items))"

section \<open>The CSI namespace\<close>

definition createCSINamespace :: "'v world \<Rightarrow> unit M" where
  "createCSINamespace w =
     bindM (getS CsiNamespace)
       (\<lambda>ns. bindM (tryM (ask (CreateNamespace ns) (\<lambda>t. w_createNamespace w t ns)))
          (\<lambda>r. case r of Inl e \<Rightarrow> if IsAlreadyExists e then ret () else throw e | Inr _ \<Rightarrow> ret ()))"

definition deleteCSINamespace :: "'v world \<Rightarrow> unit M" where
  "deleteCSINamespace w =
     (let ns = ''vmware-system-csi'' in
      bindM (tryM (ask (DeleteNamespace ns) (\<lambda>t. w_deleteNamespace w t ns)))
        (\<lambda>r. case r of Inl e \<Rightarrow> if IsNotFound e then ret () else throw e | Inr _ \<Rightarrow> ret ()))"

definition setCsiNamespace :: "string \<Rightarrow> unit M" where
  "setCsiNamespace ns = modS (\<lambda>s. s\<lparr>CsiNamespace := ns\<rparr>)"

section \<open>Putting it together\<close>

definition readMatrix :: "'v world \<Rightarrow> string \<Rightarrow> CompatMatrix M" where
  "readMatrix w matrixConfig =
     bindM (getS (\<lambda>s. environ s COMPAT_MATRIX_CONFIG_URL))
       (\<lambda>url. if matrixConfig = url then ParseMatrixYaml w matrixConfig
               else liftO (outcome_of (p_jsonMatrix w matrixConfig)))"

definition placeCSINamespace :: "'v world \<Rightarrow> unit M" where
  "placeCSINamespace w =
     bindM (getS CurrentCSIDeployedVersion)
       (\<lambda>ver. bindM (liftO (outcome_of (compareVersions w ''2.3.0'' ver ''100.0.0'')))
          (\<lambda>isCSINamespaceReq.
             if isCSINamespaceReq then thenM (setCsiNamespace ''vmware-system-csi'') (createCSINamespace w)
             else thenM (deleteCSINamespace w) (setCsiNamespace ''kube-system'')))"

definition CheckCompatAndRetrieveSpec :: "'v world \<Rightarrow> NamespacedName \<Rightarrow> string \<Rightarrow> unit M" where
  "CheckCompatAndRetrieveSpec w req matrixConfig =
     bindM (Fetchk8sVersions w)
       (\<lambda>k8sVersion. bindM (FetchVsphereVersions w req)
         (\<lambda>vSphereVersions. bindM (readMatrix w matrixConfig)
           (\<lambda>matrix. bindM (getS cfg)
             (\<lambda>vdo. thenM (if cloud_configs vdo \<noteq> []
                            then FetchCpiDeploymentYamls w matrix vSphereVersions k8sVersion else ret ())
               (thenM (FetchCsiDeploymentYamls w matrix vSphereVersions k8sVersion)
                 (placeCSINamespace w))))))"

section \<open>Requests and fixed fields\<close>

text \<open>Requests that read: from the cluster, from the web and from vCenter.\<close>

definition reading_call :: "call \<Rightarrow> bool" where
  "reading_call c \<longleftrightarrow> session_call c \<or> readonly_call c \<or>
     (case c of ListVDOConfigs \<Rightarrow> True | GetVCC _ \<Rightarrow> True | GetCompatConfig _ \<Rightarrow> True | GetSecret _ \<Rightarrow> True
      | GetConfigMap _ \<Rightarrow> True | GetDaemonSet _ \<Rightarrow> True | ListPods _ _ \<Rightarrow> True | ListNodes \<Rightarrow> True
      | ListCSINodes \<Rightarrow> True | ListCSIDrivers \<Rightarrow> True | NewClientset \<Rightarrow> True | NewDiscoveryClient \<Rightarrow> True
      | ServerVersion \<Rightarrow> True | _ \<Rightarrow> False)"

lemma reading_call_simps [simp]:
  "reading_call ListVDOConfigs" "reading_call (GetVCC n)" "reading_call (GetSecret n)"
  "reading_call (GetConfigMap n)" "reading_call (GetDaemonSet n)" "reading_call (ListPods a b)"
  "reading_call ListNodes" "reading_call ListCSINodes" "reading_call ListCSIDrivers"
  "reading_call NewClientset" "reading_call NewDiscoveryClient" "reading_call ServerVersion"
  "reading_call (HttpGet u)" "reading_call (ReadFile p)" "reading_call (GetCompatConfig n)"
  "session_call c \<Longrightarrow> reading_call c" "readonly_call c \<Longrightarrow> reading_call c"
  by (simp_all add: reading_call_def readonly_call_def)

lemma fetchVSphereCloudConfig_emits [keeps_intro]:
  "(\<And>c. reading_call c \<Longrightarrow> Q c) \<Longrightarrow> keeps (emits Q) (fetchVSphereCloudConfig w n ns)"
  unfolding fetchVSphereCloudConfig_def by (intro keeps_intro) simp_all

lemma fetchVcCredentials_emits [keeps_intro]:
  "(\<And>c. reading_call c \<Longrightarrow> Q c) \<Longrightarrow> keeps (emits Q) (fetchVcCredentials w c)"
  unfolding fetchVcCredentials_def Let_def by (intro keeps_intro) simp_all

lemma getVcSession_emits [keeps_intro]:
  "(\<And>c. reading_call c \<Longrightarrow> Q c) \<Longrightarrow> keeps (emits Q) (getVcSession w c)"
  unfolding getVcSession_def Let_def
  by (intro keeps_intro keeps_emits_mono [OF GetOrCreate_emits]) simp_all

lemma FetchVersions_emits [keeps_intro]:
  "(\<And>c. reading_call c \<Longrightarrow> Q c) \<Longrightarrow> keeps (emits Q) (FetchVsphereVersions w req)"
  "(\<And>c. reading_call c \<Longrightarrow> Q c) \<Longrightarrow> keeps (emits Q) (Fetchk8sVersions w)"
  unfolding FetchVsphereVersions_def Fetchk8sVersions_def Let_def by (intro keeps_intro; simp)+

lemma readMatrix_emits [keeps_intro]:
  "(\<And>c. reading_call c \<Longrightarrow> Q c) \<Longrightarrow> keeps (emits Q) (readMatrix w m)"
  unfolding readMatrix_def ParseMatrixYaml_def by (intro keeps_intro; simp)+

lemma env_emits [keeps_intro]: "keeps (emits Q) (setEnvVariables k v)" "keeps (emits Q) (setCsiNamespace ns)"
  unfolding setEnvVariables_def setCsiNamespace_def by (intro keeps_intro, simp)+

lemma placeCSINamespace_emits [keeps_intro]:
  "(\<And>n. Q (CreateNamespace n)) \<Longrightarrow> (\<And>n. Q (DeleteNamespace n)) \<Longrightarrow> keeps (emits Q) (placeCSINamespace w)"
  unfolding placeCSINamespace_def createCSINamespace_def deleteCSINamespace_def Let_def
  by (intro keeps_intro; simp)+

lemma updateMatrixInfo_emits [keeps_intro]:
  "(\<And>c. reading_call c \<Longrightarrow> Q c) \<Longrightarrow> keeps (emits Q) (updateMatrixInfo w req)"
  unfolding updateMatrixInfo_def by (intro keeps_intro; simp)+

lemma GetOrCreate_fixed [keeps_intro]:
  "(\<And>s l. f (s\<lparr>trace := l\<rparr>) = f s) \<Longrightarrow> (\<And>s c. f (s\<lparr>sessionCache := c\<rparr>) = f s) \<Longrightarrow>
   keeps (fixes_field f) (GetOrCreate w server dcs user pwd thumb)"
  unfolding GetOrCreate_def cachedSession_def sessionActive_def createSession_def newClient_def
    findDatacenters_def Let_def
  by (intro keeps_intro)

lemma request_fixed [keeps_intro]:
  "(\<And>s l. f (s\<lparr>trace := l\<rparr>) = f s) \<Longrightarrow> keeps (fixes_field f) (fetchVSphereCloudConfig w n ns)"
  "(\<And>s l. f (s\<lparr>trace := l\<rparr>) = f s) \<Longrightarrow> keeps (fixes_field f) (fetchVcCredentials w vcc)"
  "(\<And>s l. f (s\<lparr>trace := l\<rparr>) = f s) \<Longrightarrow> keeps (fixes_field f) (Fetchk8sVersions w)"
  "(\<And>s l. f (s\<lparr>trace := l\<rparr>) = f s) \<Longrightarrow> keeps (fixes_field f) (readMatrix w m)"
  unfolding fetchVSphereCloudConfig_def fetchVcCredentials_def Fetchk8sVersions_def Let_def readMatrix_def
    ParseMatrixYaml_def readSpec_def GenerateYamlFromFilePath_def GenerateYamlFromUrl_def
  by (intro keeps_intro; simp)+

lemma getVcSession_fixed [keeps_intro]:
  "(\<And>s l. f (s\<lparr>trace := l\<rparr>) = f s) \<Longrightarrow> (\<And>s c. f (s\<lparr>sessionCache := c\<rparr>) = f s) \<Longrightarrow>
   keeps (fixes_field f) (getVcSession w vcc)"
  unfolding getVcSession_def Let_def by (intro keeps_intro)

lemma FetchVsphereVersions_fixed [keeps_intro]:
  "(\<And>s l. f (s\<lparr>trace := l\<rparr>) = f s) \<Longrightarrow> (\<And>s c. f (s\<lparr>sessionCache := c\<rparr>) = f s) \<Longrightarrow>
   keeps (fixes_field f) (FetchVsphereVersions w req)"
  unfolding FetchVsphereVersions_def Let_def by (intro keeps_intro)

lemma compat_no_panic [no_panic_intro]:
  "no_panic (fetchVSphereCloudConfig w n ns)" "no_panic (fetchVcCredentials w vcc)"
  "no_panic (readMatrix w m)" "no_panic (placeCSINamespace w)" "no_panic (setEnvVariables k v)"
  "no_panic (updateMatrixInfo w req)"
  unfolding fetchVSphereCloudConfig_def fetchVcCredentials_def Let_def readMatrix_def setEnvVariables_def
    ParseMatrixYaml_def readSpec_def GenerateYamlFromFilePath_def GenerateYamlFromUrl_def
    placeCSINamespace_def createCSINamespace_def deleteCSINamespace_def setCsiNamespace_def updateMatrixInfo_def
  by (intro no_panic_intro; simp?)+

lemma session_no_panic [no_panic_intro]:
  "no_panic (getVcSession w vcc)" "no_panic (FetchVsphereVersions w req)"
  unfolding getVcSession_def FetchVsphereVersions_def Let_def
  by (intro no_panic_intro; simp?)+

section \<open>Properties of the matrix location\<close>

lemma env_keys [simp]:
  "COMPAT_MATRIX_CONFIG_URL \<noteq> []" "COMPAT_MATRIX_CONFIG_CONTENT \<noteq> []"
  "CHR ''='' \<notin> set COMPAT_MATRIX_CONFIG_URL" "CHR ''='' \<notin> set COMPAT_MATRIX_CONFIG_CONTENT"
  "CHR 0x00 \<notin> set COMPAT_MATRIX_CONFIG_URL" "CHR 0x00 \<notin> set COMPAT_MATRIX_CONFIG_CONTENT"
  "COMPAT_MATRIX_CONFIG_URL \<noteq> COMPAT_MATRIX_CONFIG_CONTENT"
  "COMPAT_MATRIX_CONFIG_CONTENT \<noteq> COMPAT_MATRIX_CONFIG_URL"
  by (simp_all add: COMPAT_MATRIX_CONFIG_URL_def COMPAT_MATRIX_CONFIG_CONTENT_def)

text \<open>
  An event of the matrix ConfigMap updates the two environment variables and nothing else: a
  key that is present is copied, a key that is absent leaves its variable as it was, and when
  the ConfigMap cannot be read both become empty and the error is returned. Any other event
  changes nothing and makes no request.
\<close>

theorem updateMatrixInfo_env:
  assumes "\<And>cm. w_getConfigMap w (trace s) req = Inr cm \<Longrightarrow>
      CHR 0x00 \<notin> set (mindex (CmData cm) CM_URL_KEY @ mindex (CmData cm) CM_CONTENT_KEY)"
  shows "updateMatrixInfo w req s =
    (if NnNamespace req = VDO_NAMESPACE s \<and> NnName req = CM_NAME
     then (case w_getConfigMap w (trace s) req of
         Inl e \<Rightarrow> (Err e, s\<lparr>trace := trace s @ [GetConfigMap req], environ := (environ s)
             (COMPAT_MATRIX_CONFIG_URL := [], COMPAT_MATRIX_CONFIG_CONTENT := [])\<rparr>)
       | Inr cm \<Rightarrow> (Ok (), s\<lparr>trace := trace s @ [GetConfigMap req], environ := (environ s)
           (COMPAT_MATRIX_CONFIG_URL := (case mlookup (CmData cm) CM_URL_KEY of Some v \<Rightarrow> v
                | None \<Rightarrow> environ s COMPAT_MATRIX_CONFIG_URL),
            COMPAT_MATRIX_CONFIG_CONTENT := (case mlookup (CmData cm) CM_CONTENT_KEY of Some v \<Rightarrow> v
                | None \<Rightarrow> environ s COMPAT_MATRIX_CONFIG_CONTENT))\<rparr>))
     else (Ok (), s))"
  using assms
  by (auto simp: updateMatrixInfo_def setEnvVariables_def monad_defs mindex_def fun_upd_idem
      split: option.splits sum.splits)

definition cm_req :: NamespacedName where
  "cm_req = \<lparr>NnNamespace = ''vmware-system-vdo'', NnName = CM_NAME\<rparr>"

definition content_map :: ConfigMap where
  "content_map = \<lparr>CmKey = cm_req, CmData = Some [(CM_CONTENT_KEY, ''{}'')]\<rparr>"

definition content_world :: "nat list world" where
  "content_world = down_world\<lparr>w_getConfigMap := \<lambda>t n. Inr content_map\<rparr>"

definition url_St :: St where
  "url_St = init_St\<lparr>VDO_NAMESPACE := ''vmware-system-vdo'',
     environ := (environ init_St)(COMPAT_MATRIX_CONFIG_URL := ''http://m'')\<rparr>"

lemma content_sel [simp]:
  "w_getConfigMap content_world t n = Inr content_map"
  "mlookup (CmData content_map) CM_CONTENT_KEY = Some ''{}''"
  "mlookup (CmData content_map) CM_URL_KEY = None"
  "mindex (CmData content_map) CM_CONTENT_KEY = ''{}''" "mindex (CmData content_map) CM_URL_KEY = []"
  "NnNamespace cm_req = ''vmware-system-vdo''" "NnName cm_req = CM_NAME"
  "VDO_NAMESPACE url_St = ''vmware-system-vdo''" "environ url_St COMPAT_MATRIX_CONFIG_URL = ''http://m''"
  "trace url_St = []"
  by (simp_all add: content_world_def content_map_def mlookup_def mindex_def CM_CONTENT_KEY_def CM_URL_KEY_def
      cm_req_def url_St_def)

theorem updateMatrixInfo_env_witness:
  "environ (snd (updateMatrixInfo content_world cm_req url_St)) COMPAT_MATRIX_CONFIG_CONTENT = ''{}'' \<and>
   environ (snd (updateMatrixInfo content_world cm_req url_St)) COMPAT_MATRIX_CONFIG_URL = ''http://m''"
  using updateMatrixInfo_env [of content_world url_St cm_req] by simp

text \<open>
  When the matrix is switched from a URL to inline content (or back), so that the ConfigMap
  no longer has the key of the variable that is set, the configuration is rejected from then
  on: the old variable stays, and \<^verbatim>\<open>getMatrixConfig\<close> fails because both are set.
\<close>

theorem matrix_switch_rejected:
  assumes "NnNamespace req = VDO_NAMESPACE s" and "NnName req = CM_NAME"
    and "w_getConfigMap w (trace s) req = Inr cm"
    and "mlookup (CmData cm) CM_URL_KEY = None" and "environ s COMPAT_MATRIX_CONFIG_URL \<noteq> []"
    and "mlookup (CmData cm) CM_CONTENT_KEY = Some content" and "content \<noteq> []" and "CHR 0x00 \<notin> set content"
    and "updateMatrixInfo w req s = (r, t)"
  shows "r = Ok () \<and>
    getMatrixConfig (environ t COMPAT_MATRIX_CONFIG_URL) (environ t COMPAT_MATRIX_CONFIG_CONTENT) =
      Inl (Msg ''Matrix Config URL/Content not provided in proper format'')"
  using assms by (auto simp: updateMatrixInfo_def setEnvVariables_def monad_defs getMatrixConfig_def)

theorem matrix_switch_rejected_witness:
  "fst (updateMatrixInfo content_world cm_req url_St) = Ok () \<and>
   getMatrixConfig (environ (snd (updateMatrixInfo content_world cm_req url_St)) COMPAT_MATRIX_CONFIG_URL)
     (environ (snd (updateMatrixInfo content_world cm_req url_St)) COMPAT_MATRIX_CONFIG_CONTENT) =
   Inl (Msg ''Matrix Config URL/Content not provided in proper format'')"
  using matrix_switch_rejected [of cm_req url_St content_world content_map "''{}''"
      "fst (updateMatrixInfo content_world cm_req url_St)" "snd (updateMatrixInfo content_world cm_req url_St)"]
  by simp

section \<open>Properties of the check\<close>

lemma placeCSINamespace_run:
  "placeCSINamespace w s =
    (case compareVersions w ''2.3.0'' (CurrentCSIDeployedVersion s) ''100.0.0'' of Inl e \<Rightarrow> (Err e, s)
     | Inr b \<Rightarrow>
        if b then createCSINamespace w (s\<lparr>CsiNamespace := ''vmware-system-csi''\<rparr>)
        else (case deleteCSINamespace w s of (Ok u, t) \<Rightarrow> (Ok (), t\<lparr>CsiNamespace := ''kube-system''\<rparr>)
              | (Err e, t) \<Rightarrow> (Err e, t) | (Panic p, t) \<Rightarrow> (Panic p, t)))"
  by (auto simp: placeCSINamespace_def setCsiNamespace_def bindM_def thenM_def split: sum.split outcome.split prod.split)

lemma createCSINamespace_run:
  "createCSINamespace w s = (r, t) \<Longrightarrow> t = s\<lparr>trace := trace s @ [CreateNamespace (CsiNamespace s)]\<rparr>"
  by (auto simp: createCSINamespace_def bindM_def tryM_def ask_def split: outcome.splits sum.splits if_splits)

lemma deleteCSINamespace_run:
  "deleteCSINamespace w s = (r, t) \<Longrightarrow> t = s\<lparr>trace := trace s @ [DeleteNamespace ''vmware-system-csi'']\<rparr>"
  by (auto simp: deleteCSINamespace_def Let_def bindM_def tryM_def ask_def split: outcome.splits sum.splits if_splits)

lemma placeCSINamespace_new:
  assumes "placeCSINamespace w s = (r, t)"
  shows "emits (\<lambda>c. c = CreateNamespace ''vmware-system-csi'' \<or> c = DeleteNamespace ''vmware-system-csi'') s t"
  using assms
  by (auto simp: placeCSINamespace_run emits_def new_calls_def dest!: createCSINamespace_run deleteCSINamespace_run
      split: sum.splits if_splits prod.splits outcome.splits)

lemma placeCSINamespace_Ok:
  assumes "placeCSINamespace w s = (Ok (), t)"
  shows "\<exists>b. compareVersions w ''2.3.0'' (CurrentCSIDeployedVersion s) ''100.0.0'' = Inr b \<and>
    t = s\<lparr>CsiNamespace := (if b then ''vmware-system-csi'' else ''kube-system''),
          trace := trace s @ [if b then CreateNamespace ''vmware-system-csi'' else DeleteNamespace ''vmware-system-csi'']\<rparr>"
proof -
  let ?v = "compareVersions w ''2.3.0'' (CurrentCSIDeployedVersion s) ''100.0.0''"
  from assms obtain b where b: "?v = Inr b" by (cases ?v) (auto simp: placeCSINamespace_run)
  show ?thesis
  proof (cases b)
    case True
    with assms b have "createCSINamespace w (s\<lparr>CsiNamespace := ''vmware-system-csi''\<rparr>) = (Ok (), t)"
      by (simp add: placeCSINamespace_run)
    from createCSINamespace_run [OF this] True b show ?thesis by auto
  next
    case False
    obtain q u where run: "deleteCSINamespace w s = (q, u)" by force
    with assms b False deleteCSINamespace_run [OF run] show ?thesis
      by (intro exI [of _ False]) (cases q; simp add: placeCSINamespace_run; auto)
  qed
qed

definition check_call :: "call \<Rightarrow> bool" where
  "check_call c \<longleftrightarrow> reading_call c \<or> spec_call DELETE c \<or>
     c = CreateNamespace ''vmware-system-csi'' \<or> c = DeleteNamespace ''vmware-system-csi''"

lemma placeCSINamespace_check: "keeps (emits check_call) (placeCSINamespace w)"
  by (rule keepsI, drule placeCSINamespace_new, erule emits_mono) (auto simp: check_call_def)

lemma CheckCompat_emits: "keeps (emits check_call) (CheckCompatAndRetrieveSpec w req m)"
  unfolding CheckCompatAndRetrieveSpec_def
  by (intro keeps_intro placeCSINamespace_check) (simp_all add: check_call_def)

lemma CheckCompat_emits_mono [keeps_intro]:
  "(\<And>c. check_call c \<Longrightarrow> Q c) \<Longrightarrow> keeps (emits Q) (CheckCompatAndRetrieveSpec w req m)"
  by (rule keeps_emits_mono [OF CheckCompat_emits])

lemma placeCSINamespace_fixed [keeps_intro]:
  "(\<And>s l. f (s\<lparr>trace := l\<rparr>) = f s) \<Longrightarrow> (\<And>s n. f (s\<lparr>CsiNamespace := n\<rparr>) = f s) \<Longrightarrow>
   keeps (fixes_field f) (placeCSINamespace w)"
  unfolding placeCSINamespace_def setCsiNamespace_def createCSINamespace_def deleteCSINamespace_def Let_def
  by (intro keeps_intro)

lemma CheckCompat_fixed [keeps_intro]:
  assumes "\<And>s l. f (s\<lparr>trace := l\<rparr>) = f s" "\<And>s n. f (s\<lparr>CsiNamespace := n\<rparr>) = f s"
    "\<And>s c. f (s\<lparr>sessionCache := c\<rparr>) = f s" "\<And>s y. f (s\<lparr>CsiDeploymentYamls := y\<rparr>) = f s"
    "\<And>s y. f (s\<lparr>CpiDeploymentYamls := y\<rparr>) = f s"
    "\<And>s y v. f (s\<lparr>CsiDeploymentYamls := y, CurrentCSIDeployedVersion := v\<rparr>) = f s"
    "\<And>s y v. f (s\<lparr>CpiDeploymentYamls := y, CurrentCPIDeployedVersion := v\<rparr>) = f s"
  shows "keeps (fixes_field f) (CheckCompatAndRetrieveSpec w req m)"
  unfolding CheckCompatAndRetrieveSpec_def
  by (intro keeps_intro csi_driver.fetch_fixed cpi_driver.fetch_fixed) (rule assms)+

text \<open>
  A laboratory for the witnesses: one vCenter with version 7.0 and one datacenter, Kubernetes
  1.21+, credentials in a secret, and \<open>sample_matrix\<close> as inline content.
\<close>

definition lab_vcc :: VsphereCloudConfig where
  "lab_vcc = \<lparr>VccName = ''vc1'', VccNamespace = ''vmware-system-vdo'',
     VccSpec = \<lparr>VcIP = ''10.0.0.1'', Insecure = True, Credentials = ''creds'', Thumbprint = [],
                DataCenters = Some [''/dc0'']\<rparr>,
     VccStatus = \<lparr>ConfigState = VsphereConfigVerified, Message = []\<rparr>\<rparr>"

definition lab_secret :: Secret where
  "lab_secret = \<lparr>SecretKey = \<lparr>NnNamespace = ''kube-system'', NnName = ''creds''\<rparr>, SecretType = [],
     SecretData = Some [(''username'', ''admin''), (''password'', ''pw'')]\<rparr>"

definition lab_client :: VcClient where
  "lab_client = \<lparr>ClientId = 1, AboutVersion = ''7.0'', UserAgent = []\<rparr>"

definition lab_world :: "nat list world" where
  "lab_world = login_world\<lparr>w_newVimClient := \<lambda>_ _ _ _. Inr lab_client,
     w_newDiscovery := \<lambda>_. Inr (), w_serverVersion := \<lambda>_. Inr (''1'', ''21+''),
     w_getVCC := \<lambda>_ _. Inr lab_vcc, w_getSecret := \<lambda>_ _. Inr lab_secret,
     p_jsonMatrix := \<lambda>_. Inr sample_matrix, w_createNamespace := \<lambda>_ _. Inr ()\<rparr>"

lemma lab_world_sel [simp]:
  "w_newVimClient lab_world = (\<lambda>_ _ _ _. Inr lab_client)"
  "w_login lab_world = (\<lambda>_ _ _. Inr ())"
  "w_findDatacenter lab_world = (\<lambda>_ _ n. Inr (Some \<lparr>DcId = 1, InventoryPath = n\<rparr>))"
  "w_newDiscovery lab_world = (\<lambda>_. Inr ())" "w_serverVersion lab_world = (\<lambda>_. Inr (''1'', ''21+''))"
  "w_getVCC lab_world = (\<lambda>_ _. Inr lab_vcc)" "w_getSecret lab_world = (\<lambda>_ _. Inr lab_secret)"
  "p_jsonMatrix lab_world = (\<lambda>_. Inr sample_matrix)" "w_createNamespace lab_world = (\<lambda>_ _. Inr ())"
  "p_newVersion lab_world = sample_newVersion" "p_versionCompare lab_world = sample_compare"
  "p_parseURL lab_world = p_parseURL down_world"
  by (simp_all add: lab_world_def login_world_def)

lemma lab_sel [simp]:
  "VccSpec lab_vcc = \<lparr>VcIP = ''10.0.0.1'', Insecure = True, Credentials = ''creds'', Thumbprint = [],
                DataCenters = Some [''/dc0'']\<rparr>"
  "ConfigState (VccStatus lab_vcc) = VsphereConfigVerified"
  "mindex (SecretData lab_secret) ''username'' = ''admin''"
  "mindex (SecretData lab_secret) ''password'' = ''pw''"
  "AboutVersion lab_client = ''7.0''"
  by (simp_all add: lab_vcc_def lab_secret_def lab_client_def mindex_def mlookup_def)

definition lab_cfg :: VDOConfig where
  "lab_cfg = empty_cfg\<lparr>VdoName := ''vdo'', VdoNamespace := ''vmware-system-vdo'',
     VdoSpec := (VdoSpec empty_cfg)\<lparr>CloudProvider := (CloudProvider (VdoSpec empty_cfg))
                   \<lparr>VsphereCloudConfigs := [''vc1'']\<rparr>,
       StorageProvider := (StorageProvider (VdoSpec empty_cfg))\<lparr>SpVsphereCloudConfig := ''vc1''\<rparr>\<rparr>\<rparr>"

definition lab_St :: St where
  "lab_St = init_St\<lparr>cfg := lab_cfg\<rparr>"

lemma lab_St_sel [simp]:
  "cloud_configs lab_cfg = [''vc1'']" "storage_config lab_cfg = ''vc1''" "cfg lab_St = lab_cfg"
  "trace lab_St = []" "CurrentCSIDeployedVersion lab_St = []" "CurrentCPIDeployedVersion lab_St = []"
  "sessionCache lab_St = []" "environ lab_St = (\<lambda>_. [])"
  by (simp_all add: lab_St_def lab_cfg_def)

text \<open>Any world with the version arithmetic of the samples selects the same versions.\<close>

lemma lab_compare:
  assumes "p_newVersion w = sample_newVersion" "p_versionCompare w = sample_compare"
  shows "compareVersions w a b c = compareVersions down_world a b c"
    "compareSkewVersions w a b = compareSkewVersions down_world a b"
  using assms by (simp_all add: compareVersions_def compareSkewVersions_def split: sum.split)

lemma lab_select:
  assumes "p_newVersion w = sample_newVersion" "p_versionCompare w = sample_compare"
  shows "selectCSI w sample_matrix [''7.0''] ''1.21+'' = Inr ''2.4.0''"
    "selectCPI w sample_matrix [''7.0''] ''1.21+'' = Inr ''1.21.0''"
proof -
  have same: "csiMatches w = csiMatches down_world" "cpiMatches w = cpiMatches down_world"
    by (intro ext, simp add: csiMatches_def cpiMatches_def lab_compare [OF assms])+
  show "selectCSI w sample_matrix [''7.0''] ''1.21+'' = Inr ''2.4.0''"
    "selectCPI w sample_matrix [''7.0''] ''1.21+'' = Inr ''1.21.0''"
    by (simp_all add: selectCSI_def selectCPI_def same sample_csi_matches sample_cpi_matches sort_key_def)
qed

definition lab_req :: NamespacedName where
  "lab_req = \<lparr>NnNamespace = ''vmware-system-vdo'', NnName = ''vdo''\<rparr>"

lemma lab_req_sel [simp]: "NnNamespace lab_req = ''vmware-system-vdo''"
  by (simp add: lab_req_def)

lemma lab_csi_namespace:
  assumes "p_newVersion w = sample_newVersion" "p_versionCompare w = sample_compare"
  shows "compareVersions w ''2.3.0'' ''2.4.0'' ''100.0.0'' = Inr True"
  unfolding lab_compare [OF assms] by (simp add: compareVersions_def sample_newVersion_def sample_field_def)

lemma lab_check_Ok:
  "fst (CheckCompatAndRetrieveSpec lab_world lab_req ''{}'' lab_St) = Ok ()"
  by (simp add: CheckCompatAndRetrieveSpec_def Fetchk8sVersions_def FetchVsphereVersions_def
      fetchVSphereCloudConfig_def getVcSession_def fetchVcCredentials_def GetOrCreate_def cachedSession_def
      createSession_def newClient_def findDatacenters_def readMatrix_def monad_defs
      cpi_driver.fetch_run csi_driver.fetch_run cpi_driver.removed_def csi_driver.removed_def lab_select
      placeCSINamespace_run lab_csi_namespace createCSINamespace_def)

lemma lab_check:
  "CheckCompatAndRetrieveSpec lab_world lab_req ''{}'' lab_St =
     (Ok (), snd (CheckCompatAndRetrieveSpec lab_world lab_req ''{}'' lab_St))"
  using lab_check_Ok by (metis prod.collapse)

text \<open>
  C22. After a check that succeeds, a CSI version is installed, a CPI version is installed if CPI is
  configured and the CPI fields are untouched if it is not, and the namespace of the CSI driver
  is the one of the version: \<^verbatim>\<open>vmware-system-csi\<close>, which the last request creates, from 2.3.0
  on, and \<^verbatim>\<open>kube-system\<close>, with \<^verbatim>\<open>vmware-system-csi\<close> deleted, below.
\<close>

theorem CheckCompat_result:
  assumes "CheckCompatAndRetrieveSpec w req m s = (Ok (), t)"
  shows "CurrentCSIDeployedVersion t \<noteq> [] \<and>
    (if cloud_configs (cfg s) \<noteq> [] then CurrentCPIDeployedVersion t \<noteq> []
     else CurrentCPIDeployedVersion t = CurrentCPIDeployedVersion s \<and> CpiDeploymentYamls t = CpiDeploymentYamls s) \<and>
    (\<exists>b. compareVersions w ''2.3.0'' (CurrentCSIDeployedVersion t) ''100.0.0'' = Inr b \<and>
      CsiNamespace t = (if b then ''vmware-system-csi'' else ''kube-system'') \<and>
      last (trace t) = (if b then CreateNamespace ''vmware-system-csi'' else DeleteNamespace ''vmware-system-csi''))"
proof -
  from assms obtain k vs matrix s1 s2 s3 s4 s5 where
    run: "Fetchk8sVersions w s = (Ok k, s1)" "FetchVsphereVersions w req s1 = (Ok vs, s2)"
      "readMatrix w m s2 = (Ok matrix, s3)"
    and cpi: "(if cloud_configs (cfg s3) \<noteq> [] then FetchCpiDeploymentYamls w matrix vs k else ret ()) s3 = (Ok (), s4)"
    and csi: "FetchCsiDeploymentYamls w matrix vs k s4 = (Ok (), s5)"
    and place: "placeCSINamespace w s5 = (Ok (), t)"
    unfolding CheckCompatAndRetrieveSpec_def by (auto simp: runs)
  have same: "f s3 = f s"
    if "\<And>s l. f (s\<lparr>trace := l\<rparr>) = f s" "\<And>s c. f (s\<lparr>sessionCache := c\<rparr>) = f s" for f :: "St \<Rightarrow> 'b"
    using run keepsD [OF request_fixed(3)] keepsD [OF FetchVsphereVersions_fixed] keepsD [OF request_fixed(4)] that
    unfolding fixes_field_def by metis
  have cpi4: "if cloud_configs (cfg s) \<noteq> [] then CurrentCPIDeployedVersion s4 \<noteq> []
     else CurrentCPIDeployedVersion s4 = CurrentCPIDeployedVersion s \<and> CpiDeploymentYamls s4 = CpiDeploymentYamls s"
    using cpi same [of cfg] same [of CurrentCPIDeployedVersion] same [of CpiDeploymentYamls]
    by (auto simp: cpi_driver.fetch_Ok split: if_splits)
  have "fixes_field CurrentCPIDeployedVersion s4 s5" "fixes_field CpiDeploymentYamls s4 s5"
    by (rule keepsD [OF csi_driver.fetch_fixed csi], simp_all)+
  then have "CurrentCPIDeployedVersion s5 = CurrentCPIDeployedVersion s4" "CpiDeploymentYamls s5 = CpiDeploymentYamls s4"
    by (simp_all add: fixes_field_def)
  moreover have "CurrentCSIDeployedVersion s5 \<noteq> []" using csi by (auto simp: csi_driver.fetch_Ok)
  ultimately show ?thesis
    using cpi4 placeCSINamespace_Ok [OF place] by (auto split: if_splits)
qed

theorem CheckCompat_result_witness:
  "\<exists>t. CheckCompatAndRetrieveSpec lab_world lab_req ''{}'' lab_St = (Ok (), t) \<and>
     CurrentCSIDeployedVersion t \<noteq> [] \<and> CurrentCPIDeployedVersion t \<noteq> []"
  using CheckCompat_result [OF lab_check] lab_check by auto

text \<open>
  A check writes to the cluster only to delete objects of a replaced driver and to create or
  delete the namespace \<^verbatim>\<open>vmware-system-csi\<close>; it never creates or updates an object of a
  driver, and it leaves the \<^verbatim>\<open>VDOConfig\<close> and the environment alone.
\<close>

theorem CheckCompat_writes:
  assumes "CheckCompatAndRetrieveSpec w req m s = (r, t)"
  shows "(\<exists>cs. trace t = trace s @ cs \<and> list_all (\<lambda>c. reading_call c \<or> (\<exists>obj. c = DeleteObject obj) \<or>
      c = CreateNamespace ''vmware-system-csi'' \<or> c = DeleteNamespace ''vmware-system-csi'') cs) \<and>
    cfg t = cfg s \<and> environ t = environ s"
proof -
  have "check_call c \<Longrightarrow> reading_call c \<or> (\<exists>obj. c = DeleteObject obj) \<or>
      c = CreateNamespace ''vmware-system-csi'' \<or> c = DeleteNamespace ''vmware-system-csi''" for c
    by (auto simp: check_call_def spec_call_def object_call_def split: call.splits)
  with keepsD [OF CheckCompat_emits assms] have "\<exists>cs. trace t = trace s @ cs \<and>
    list_all (\<lambda>c. reading_call c \<or> (\<exists>obj. c = DeleteObject obj) \<or>
      c = CreateNamespace ''vmware-system-csi'' \<or> c = DeleteNamespace ''vmware-system-csi'') cs"
    by (auto elim!: emitsE simp: list_all_iff)
  moreover have "fixes_field cfg s t" "fixes_field environ s t"
    by (rule keepsD [OF CheckCompat_fixed assms], simp_all)+
  ultimately show ?thesis by (simp add: fixes_field_def)
qed

theorem CheckCompat_writes_witness:
  "\<exists>t. CheckCompatAndRetrieveSpec lab_world lab_req ''{}'' lab_St = (Ok (), t) \<and> cfg t = lab_cfg"
  using CheckCompat_writes [OF lab_check] lab_check by auto

lemma CheckCompat_panics:
  "(\<exists>p t. CheckCompatAndRetrieveSpec w req m s = (Panic p, t)) \<longleftrightarrow> (\<exists>e. w_newDiscovery w (trace s) = Inl e)"
proof (cases "w_newDiscovery w (trace s)")
  case (Inl e)
  then show ?thesis
    by (auto simp: CheckCompatAndRetrieveSpec_def Fetchk8sVersions_def bindM_def tryM_def ask_def)
next
  case (Inr u)
  have rest: "no_panic (\<lambda>s. bindM (FetchVsphereVersions w req)
         (\<lambda>vSphereVersions. bindM (readMatrix w m)
           (\<lambda>matrix. bindM (getS cfg)
             (\<lambda>vdo. thenM (if cloud_configs vdo \<noteq> []
                            then FetchCpiDeploymentYamls w matrix vSphereVersions k else ret ())
               (thenM (FetchCsiDeploymentYamls w matrix vSphereVersions k)
                 (placeCSINamespace w))))) s)" for k
    by (intro no_panic_intro)
  have "Fetchk8sVersions w s \<noteq> (Panic p, t)" for p t
    using Inr by (auto simp: Fetchk8sVersions_def bindM_def tryM_def ask_def outcome_of_def split: sum.split)
  with Inr rest show ?thesis
    by (auto simp: CheckCompatAndRetrieveSpec_def bindM_def [of "Fetchk8sVersions w"] dest: no_panicD
        split: outcome.splits prod.splits)
qed

text \<open>
  A check panics exactly if the discovery client cannot be created, whose error the code
  drops; every other failure is an error.
\<close>

theorem CheckCompat_panics_iff:
  "(\<exists>p t. CheckCompatAndRetrieveSpec w req m s = (Panic p, t)) \<longleftrightarrow> (\<exists>e. w_newDiscovery w (trace s) = Inl e)"
  by (rule CheckCompat_panics)

end
