(* ===== verification/Phase_Status.thy ===== *)
theory Phase_Status
  imports Effects Sample_World
begin

text \<open>
  The status of the \<^verbatim>\<open>VDOConfig\<close>: the functions of \<^verbatim>\<open>vdoconfig_controller.go\<close> that set a phase
  in the shared object and write it to the API server. A status update that succeeds replaces
  the object by the server's answer; one that fails leaves the local change in place.
\<close>

definition statusUpdateVDO :: "'v world \<Rightarrow> unit M" where
  "statusUpdateVDO w s =
     (case w_statusVDO w (trace s) (cfg s) of
        Inl e \<Rightarrow> (Err e, s\<lparr>trace := trace s @ [StatusUpdateVDO (cfg s)]\<rparr>)
      | Inr c \<Rightarrow> (Ok (), s\<lparr>cfg := c, trace := trace s @ [StatusUpdateVDO (cfg s)]\<rparr>))"

definition setCPIPhase :: "VDOConfigPhase \<Rightarrow> string \<Rightarrow> VDOConfig \<Rightarrow> VDOConfig" where
  "setCPIPhase phase msg = upd_cpi (\<lambda>st. st\<lparr>CpiPhase := phase, CpiStatusMsg := msg\<rparr>)"

definition setCSIPhase :: "VDOConfigPhase \<Rightarrow> string \<Rightarrow> VDOConfig \<Rightarrow> VDOConfig" where
  "setCSIPhase phase msg = upd_csi (\<lambda>st. st\<lparr>CsiPhase := phase, CsiStatusMsg := msg\<rparr>)"

definition updateCPIPhase :: "'v world \<Rightarrow> VDOConfigPhase \<Rightarrow> string \<Rightarrow> unit M" where
  "updateCPIPhase w phase msg = thenM (modCfg (setCPIPhase phase msg)) (statusUpdateVDO w)"

definition updateCSIPhase :: "'v world \<Rightarrow> VDOConfigPhase \<Rightarrow> string \<Rightarrow> unit M" where
  "updateCSIPhase w phase msg = thenM (modCfg (setCSIPhase phase msg)) (statusUpdateVDO w)"

definition updateVdoConfigWithNodeStatus ::
  "'v world \<Rightarrow> VDOConfigPhase \<Rightarrow> (string, NodeStatus) gomap \<Rightarrow> unit M" where
  "updateVdoConfigWithNodeStatus w phase nodeState =
     thenM (modCfg (upd_cpi (\<lambda>st. st\<lparr>CpiPhase := phase, CpiNodeStatus := nodeState\<rparr>))) (statusUpdateVDO w)"

text \<open>An error of the update itself is only logged.\<close>

definition updateCPIStatusForError :: "'v world \<Rightarrow> err \<Rightarrow> string \<Rightarrow> unit M" where
  "updateCPIStatusForError w e msg = thenM (tryM (updateCPIPhase w Failed msg)) (ret ())"

definition updateCSIStatusForError :: "'v world \<Rightarrow> err \<Rightarrow> string \<Rightarrow> unit M" where
  "updateCSIStatusForError w e msg = thenM (tryM (updateCSIPhase w Failed msg)) (ret ())"

text \<open>
  The documented behaviour of the status subresource that some properties rely on: the answer
  to a successful update carries the status that was sent and the specification of the object.
\<close>

definition status_echo :: "'v world \<Rightarrow> bool" where
  "status_echo w \<longleftrightarrow> (\<forall>t c c'. w_statusVDO w t c = Inr c' \<longrightarrow>
     VdoStatus c' = VdoStatus c \<and> VdoSpec c' = VdoSpec c \<and>
     VdoName c' = VdoName c \<and> VdoNamespace c' = VdoNamespace c)"

definition status_call :: "call \<Rightarrow> bool" where
  "status_call c \<longleftrightarrow> (case c of StatusUpdateVDO _ \<Rightarrow> True | _ \<Rightarrow> False)"

lemma status_call_simps [simp]: "status_call (StatusUpdateVDO c)"
  by (simp add: status_call_def)

lemma status_echoD:
  "status_echo w \<Longrightarrow> w_statusVDO w t c = Inr c' \<Longrightarrow>
   VdoStatus c' = VdoStatus c \<and> VdoSpec c' = VdoSpec c \<and> VdoName c' = VdoName c"
  by (auto simp: status_echo_def)

section \<open>The contract of a phase writer\<close>

text \<open>
  The CPI and the CSI half of the status follow one contract. \<open>upd\<close> writes a phase and a
  message, \<open>report\<close> marks a failure; \<open>setp\<close> is the local change.
\<close>

locale phase_writer =
  fixes upd :: "'v world \<Rightarrow> VDOConfigPhase \<Rightarrow> string \<Rightarrow> unit M"
    and report :: "'v world \<Rightarrow> err \<Rightarrow> string \<Rightarrow> unit M"
    and setp :: "VDOConfigPhase \<Rightarrow> string \<Rightarrow> VDOConfig \<Rightarrow> VDOConfig"
    and phase_of :: "VDOConfigStatus \<Rightarrow> VDOConfigPhase"
    and msg_of :: "VDOConfigStatus \<Rightarrow> string"
    and other :: "VDOConfigStatus \<Rightarrow> 'o"
  assumes upd_eq: "upd w p m = thenM (modCfg (setp p m)) (statusUpdateVDO w)"
    and report_eq: "report w e m = thenM (tryM (upd w Failed m)) (ret ())"
    and phase_setp: "phase_of (VdoStatus (setp p m c)) = p"
    and msg_setp: "msg_of (VdoStatus (setp p m c)) = m"
    and other_setp: "other (VdoStatus (setp p m c)) = other (VdoStatus c)"
    and spec_setp: "VdoSpec (setp p m c) = VdoSpec c"
begin

text \<open>One write: the request, and the object afterwards.\<close>

lemma upd_run:
  assumes "upd w p m s = (r, t)"
  shows "trace t = trace s @ [StatusUpdateVDO (setp p m (cfg s))] \<and>
    (r = Ok () \<and> w_statusVDO w (trace s) (setp p m (cfg s)) = Inr (cfg t) \<or>
     (\<exists>e. r = Err e) \<and> cfg t = setp p m (cfg s))"
  using assms by (auto simp: upd_eq thenM_def bindM_def statusUpdateVDO_def split: sum.splits)

lemma upd_written:
  assumes "upd w p m s = (r, t)" and "status_echo w"
  shows "phase_of (VdoStatus (cfg t)) = p \<and> msg_of (VdoStatus (cfg t)) = m \<and>
    other (VdoStatus (cfg t)) = other (VdoStatus (cfg s)) \<and> VdoSpec (cfg t) = VdoSpec (cfg s)"
  using upd_run [OF assms(1)] status_echoD [OF assms(2)]
  by (metis phase_setp msg_setp other_setp spec_setp)

lemma report_run: "report w e m s = (Ok (), snd (upd w Failed m s))"
  by (auto simp: report_eq upd_eq thenM_def bindM_def tryM_def statusUpdateVDO_def split: sum.splits)

lemma report_never_fails: "report w e m s = (r, t) \<Longrightarrow> r = Ok ()"
  by (simp add: report_run)

lemma report_written:
  assumes "status_echo w" and "report w e m s = (r, t)"
  shows "phase_of (VdoStatus (cfg t)) = Failed \<and> msg_of (VdoStatus (cfg t)) = m \<and>
    other (VdoStatus (cfg t)) = other (VdoStatus (cfg s)) \<and> VdoSpec (cfg t) = VdoSpec (cfg s)"
proof -
  obtain q where "upd w Failed m s = (q, t)"
    using assms(2) by (metis report_run prod.collapse snd_conv)
  then show ?thesis using upd_written assms(1) by blast
qed

text \<open>A failure of the operation is reported and then returned unchanged.\<close>

lemma onErr_report_Err:
  "onErr k (\<lambda>e. report w e (msg e)) s = (Err e, u) \<longleftrightarrow>
   (\<exists>t. k s = (Err e, t) \<and> report w e (msg e) t = (Ok (), u))"
  by (rule onErr_Err_iff) (simp add: report_run)

lemma upd_emits: "(\<And>c. Q (StatusUpdateVDO c)) \<Longrightarrow> keeps (emits Q) (upd w p m)"
  by (rule keepsI, drule upd_run) (auto intro: emitsI)

lemma report_emits: "(\<And>c. Q (StatusUpdateVDO c)) \<Longrightarrow> keeps (emits Q) (report w e m)"
  unfolding report_eq by (intro keeps_intro upd_emits)

lemma upd_fixed:
  "(\<And>s c l. f (s\<lparr>cfg := c, trace := l\<rparr>) = f s) \<Longrightarrow> (\<And>s c. f (s\<lparr>cfg := c\<rparr>) = f s) \<Longrightarrow>
   (\<And>s l. f (s\<lparr>trace := l\<rparr>) = f s) \<Longrightarrow> keeps (fixes_field f) (upd w p m)"
  by (auto simp: keeps_def fixes_field_def upd_eq thenM_def bindM_def statusUpdateVDO_def split: sum.splits)

lemma report_fixed:
  "(\<And>s c l. f (s\<lparr>cfg := c, trace := l\<rparr>) = f s) \<Longrightarrow> (\<And>s c. f (s\<lparr>cfg := c\<rparr>) = f s) \<Longrightarrow>
   (\<And>s l. f (s\<lparr>trace := l\<rparr>) = f s) \<Longrightarrow> keeps (fixes_field f) (report w e m)"
  unfolding report_eq by (intro keeps_intro upd_fixed)

lemma upd_no_panic: "no_panic (upd w p m)"
  by (auto simp: no_panic_def upd_eq thenM_def bindM_def statusUpdateVDO_def split: sum.splits)

lemma report_no_panic: "no_panic (report w e m)"
  by (simp add: no_panic_def report_run)

end

interpretation cpi: phase_writer updateCPIPhase updateCPIStatusForError setCPIPhase
  "\<lambda>st. CpiPhase (StCPI st)" "\<lambda>st. CpiStatusMsg (StCPI st)" "\<lambda>st. (CpiNodeStatus (StCPI st), StCSI st)"
  by unfold_locales
    (simp_all add: updateCPIPhase_def updateCPIStatusForError_def setCPIPhase_def)

interpretation csi: phase_writer updateCSIPhase updateCSIStatusForError setCSIPhase
  "\<lambda>st. CsiPhase (StCSI st)" "\<lambda>st. CsiStatusMsg (StCSI st)" "\<lambda>st. StCPI st"
  by unfold_locales
    (simp_all add: updateCSIPhase_def updateCSIStatusForError_def setCSIPhase_def)

lemmas status_keeps [keeps_intro] =
  cpi.upd_emits cpi.report_emits csi.upd_emits csi.report_emits
  cpi.upd_fixed cpi.report_fixed csi.upd_fixed csi.report_fixed

lemmas status_no_panic [no_panic_intro] =
  cpi.upd_no_panic cpi.report_no_panic csi.upd_no_panic csi.report_no_panic

lemma nodeStatus_emits [keeps_intro]:
  "(\<And>c. Q (StatusUpdateVDO c)) \<Longrightarrow> keeps (emits Q) (updateVdoConfigWithNodeStatus w p m)"
  by (rule keepsI)
    (auto simp: updateVdoConfigWithNodeStatus_def thenM_def bindM_def statusUpdateVDO_def
      split: sum.splits intro!: emitsI)

lemma nodeStatus_fixed [keeps_intro]:
  "(\<And>s c l. f (s\<lparr>cfg := c, trace := l\<rparr>) = f s) \<Longrightarrow> (\<And>s c. f (s\<lparr>cfg := c\<rparr>) = f s) \<Longrightarrow>
   (\<And>s l. f (s\<lparr>trace := l\<rparr>) = f s) \<Longrightarrow> keeps (fixes_field f) (updateVdoConfigWithNodeStatus w p m)"
  by (auto simp: keeps_def fixes_field_def updateVdoConfigWithNodeStatus_def thenM_def bindM_def
      statusUpdateVDO_def split: sum.splits)

end
