(* ===== verification/Cpi_Driver.thy ===== *)
theory Cpi_Driver
  imports Effects Sample_World
begin

text \<open>
  \<^verbatim>\<open>pkg/drivers/cpi/cpiutil.go\<close>: the data of the CPI secret and the configuration file of the
  cloud provider. The YAML encoding is a parameter of the world; what is encoded is computed
  here.
\<close>

definition VSPHERECONFIG :: string where
  "VSPHERECONFIG = ''vsphere.conf''"

definition CPI_VSPHERE_CONF_FILE :: string where
  "CPI_VSPHERE_CONF_FILE = ''/etc/kubernetes/vsphere.conf''"

definition AddVCSectionToDataMap ::
  "VsphereCloudConfig \<Rightarrow> string \<Rightarrow> string \<Rightarrow> (string, string) gomap \<Rightarrow> (string, string) gomap" where
  "AddVCSectionToDataMap config vcUser vcUserPwd stringData =
     (let vcIP = VcIP (VccSpec config) in
      mput (mput stringData (vcIP @ ''.username'') vcUser) (vcIP @ ''.password'') vcUserPwd)"

definition CreateSecret :: "NamespacedName \<Rightarrow> (string, string) gomap \<Rightarrow> Secret" where
  "CreateSecret cpiSecretKey dta = \<lparr>SecretKey = cpiSecretKey, SecretType = [], SecretData = dta\<rparr>"

definition CreateConfigMap :: "(string, string) gomap \<Rightarrow> NamespacedName \<Rightarrow> ConfigMap" where
  "CreateConfigMap dta configMapKey = \<lparr>CmKey = configMapKey, CmData = dta\<rparr>"

definition vcenterSection :: "NamespacedName \<Rightarrow> VsphereCloudConfig \<Rightarrow> Vcenter" where
  "vcenterSection key config =
     \<lparr>Server = VcIP (VccSpec config), VcDatacenters = DataCenters (VccSpec config),
      SecretName = NnName key, SecretNamespace = NnNamespace key, Port = 443,
      InsecureFlag = Insecure (VccSpec config)\<rparr>"

text \<open>The loop over the cloud configurations.\<close>

fun vcenterMap ::
  "NamespacedName \<Rightarrow> VsphereCloudConfig list \<Rightarrow> (string, Vcenter) gomap \<Rightarrow> (string, Vcenter) gomap" where
  "vcenterMap key [] m = m"
| "vcenterMap key (c # cs) m = vcenterMap key cs (mput m (VcIP (VccSpec c)) (vcenterSection key c))"

definition cpiConfigOf :: "VDOConfig \<Rightarrow> VsphereCloudConfig list \<Rightarrow> NamespacedName \<Rightarrow> CpiConfig" where
  "cpiConfigOf vdo cloudConfigs key =
     \<lparr>VcenterMap = vcenterMap key cloudConfigs make_map,
      LabelRegion = Region (Topology (CloudProvider (VdoSpec vdo))),
      LabelZone = Zone (Topology (CloudProvider (VdoSpec vdo)))\<rparr>"

definition CreateVsphereConfig ::
  "'v world \<Rightarrow> VsphereCloudConfig list \<Rightarrow> NamespacedName \<Rightarrow> (string, string) gomap M" where
  "CreateVsphereConfig w cloudConfigs key =
     bindM (getS (\<lambda>s. p_yamlCpiConfig w (cpiConfigOf (cfg s) cloudConfigs key)))
       (\<lambda>out. thenM (ask (OpenFile CPI_VSPHERE_CONF_FILE) (\<lambda>t. w_openFile w t CPI_VSPHERE_CONF_FILE))
         (thenM (ask (TruncateFile CPI_VSPHERE_CONF_FILE) (\<lambda>t. w_truncateFile w t CPI_VSPHERE_CONF_FILE))
         (thenM (ask (WriteFile CPI_VSPHERE_CONF_FILE out) (\<lambda>t. w_writeFile w t CPI_VSPHERE_CONF_FILE out))
           (ret (mput make_map VSPHERECONFIG out)))))"

section \<open>The data of the secret\<close>

text \<open>All cloud configurations with their credentials, in the order of the specification.\<close>

fun secretData :: "(VsphereCloudConfig \<times> string \<times> string) list \<Rightarrow> (string, string) gomap \<Rightarrow> (string, string) gomap" where
  "secretData [] m = m"
| "secretData ((c, user, pwd) # cs) m = secretData cs (AddVCSectionToDataMap c user pwd m)"

lemma suffix_keys_differ [simp]: "a @ ''.username'' \<noteq> b @ ''.password''" "b @ ''.password'' \<noteq> a @ ''.username''"
proof -
  have "last (a @ ''.username'') \<noteq> last (b @ ''.password'')" by simp
  then show "a @ ''.username'' \<noteq> b @ ''.password''" "b @ ''.password'' \<noteq> a @ ''.username''" by metis+
qed

lemma AddVC_lookup:
  "mlookup (AddVCSectionToDataMap c user pwd m) k =
     (if k = VcIP (VccSpec c) @ ''.password'' then Some pwd
      else if k = VcIP (VccSpec c) @ ''.username'' then Some user else mlookup m k)"
  by (simp add: AddVCSectionToDataMap_def Let_def)

text \<open>
  The last configuration of a vCenter decides its entries, and a key that belongs to none of
  the configurations keeps its value.
\<close>

lemma secretData_other:
  "\<forall>(c, user, pwd) \<in> set cs. k \<noteq> VcIP (VccSpec c) @ ''.username'' \<and> k \<noteq> VcIP (VccSpec c) @ ''.password'' \<Longrightarrow>
   mlookup (secretData cs m) k = mlookup m k"
  by (induction cs m rule: secretData.induct) (simp_all add: AddVC_lookup)

lemma secretData_append: "secretData (cs @ ds) m = secretData ds (secretData cs m)"
  by (induction cs m rule: secretData.induct) auto

lemma secretData_last:
  assumes "\<forall>(c', user', pwd') \<in> set ds. VcIP (VccSpec c') \<noteq> VcIP (VccSpec c)"
  shows "mlookup (secretData (cs @ (c, user, pwd) # ds) m) (VcIP (VccSpec c) @ ''.username'') = Some user"
    and "mlookup (secretData (cs @ (c, user, pwd) # ds) m) (VcIP (VccSpec c) @ ''.password'') = Some pwd"
proof -
  let ?m = "secretData cs m"
  have "mlookup (secretData ds (AddVCSectionToDataMap c user pwd ?m)) k =
    mlookup (AddVCSectionToDataMap c user pwd ?m) k"
    if "k = VcIP (VccSpec c) @ ''.username'' \<or> k = VcIP (VccSpec c) @ ''.password''" for k
    using assms that by (intro secretData_other) fastforce
  then show "mlookup (secretData (cs @ (c, user, pwd) # ds) m) (VcIP (VccSpec c) @ ''.username'') = Some user"
    and "mlookup (secretData (cs @ (c, user, pwd) # ds) m) (VcIP (VccSpec c) @ ''.password'') = Some pwd"
    by (auto simp: secretData_append AddVC_lookup)
qed

lemma vcenterMap_lookup:
  "mlookup (vcenterMap key cs m) ip =
     (case filter (\<lambda>c. VcIP (VccSpec c) = ip) cs of [] \<Rightarrow> mlookup m ip
      | x # xs \<Rightarrow> Some (vcenterSection key (last (x # xs))))"
  by (induction key cs m rule: vcenterMap.induct) (auto split: list.splits)

lemma vcenterMap_wf: "wf_gomap m \<Longrightarrow> wf_gomap (vcenterMap key cs m)"
  by (induction key cs m rule: vcenterMap.induct) auto

lemma secretData_wf: "wf_gomap m \<Longrightarrow> wf_gomap (secretData cs m)"
  by (induction cs m rule: secretData.induct) (auto simp: AddVCSectionToDataMap_def Let_def)

section \<open>Writing the configuration file\<close>

definition conf_file_call :: "call \<Rightarrow> bool" where
  "conf_file_call c \<longleftrightarrow> (case c of OpenFile f \<Rightarrow> f = CPI_VSPHERE_CONF_FILE
     | TruncateFile f \<Rightarrow> f = CPI_VSPHERE_CONF_FILE | WriteFile f _ \<Rightarrow> f = CPI_VSPHERE_CONF_FILE | _ \<Rightarrow> False)"

lemma CreateVsphereConfig_emits [keeps_intro]:
  "keeps (emits conf_file_call) (CreateVsphereConfig w cs key)"
  unfolding CreateVsphereConfig_def by (intro keeps_intro) (simp_all add: conf_file_call_def)

lemma CreateVsphereConfig_fixed [keeps_intro]:
  "(\<And>s l. f (s\<lparr>trace := l\<rparr>) = f s) \<Longrightarrow> keeps (fixes_field f) (CreateVsphereConfig w cs key)"
  unfolding CreateVsphereConfig_def by (intro keeps_intro)

lemma CreateVsphereConfig_no_panic [no_panic_intro]: "no_panic (CreateVsphereConfig w cs key)"
  unfolding CreateVsphereConfig_def by (intro no_panic_intro)

lemma CreateVsphereConfig_Ok:
  assumes "CreateVsphereConfig w cs key s = (Ok m, t)"
  shows "m = mput make_map VSPHERECONFIG (p_yamlCpiConfig w (cpiConfigOf (cfg s) cs key))"
  using assms by (auto simp: CreateVsphereConfig_def runs)

end
