(* ===== verification/Csi_Driver.thy ===== *)
theory Csi_Driver
  imports Effects Sample_World
begin

text \<open>
  \<^verbatim>\<open>pkg/drivers/csi/csiutil.go\<close>: the configuration of the CSI driver as a sequence of
  \<^verbatim>\<open>SetValue\<close> calls (section, key, value) on an INI file, the temporary file it is rendered in,
  and the CSI secret. The INI encoding is a parameter of the world.
\<close>

definition CSI_SECRET_CONFIG_FILENAME :: string where
  "CSI_SECRET_CONFIG_FILENAME = ''csi-vsphere.conf''"

definition CreateCSISecret :: "string \<Rightarrow> NamespacedName \<Rightarrow> Secret" where
  "CreateCSISecret configData csiSecretKey =
     \<lparr>SecretKey = csiSecretKey, SecretType = [],
      SecretData = mput make_map CSI_SECRET_CONFIG_FILENAME configData\<rparr>"

definition CompareCSISecret :: "Secret \<Rightarrow> string \<Rightarrow> bool" where
  "CompareCSISecret csiSecret configData \<longleftrightarrow>
     mindex (SecretData csiSecret) CSI_SECRET_CONFIG_FILENAME = configData"

definition UpdateCSISecret :: "Secret \<Rightarrow> string \<Rightarrow> Secret" where
  "UpdateCSISecret csiSecret configData =
     csiSecret\<lparr>SecretData := mput make_map CSI_SECRET_CONFIG_FILENAME configData\<rparr>"

text \<open>The verb \<^verbatim>\<open>%c\<close>: the UTF-8 encoding of a code point, U+FFFD for one that is none.\<close>

definition utf8 :: "nat \<Rightarrow> string" where
  "utf8 n =
     (if n < 128 then [char_of n]
      else if n < 2048 then [char_of (192 + n div 64), char_of (128 + n mod 64)]
      else if (55296 \<le> n \<and> n < 57344) \<or> 1114112 \<le> n then [char_of (239::nat), char_of (191::nat), char_of (189::nat)]
      else if n < 65536 then [char_of (224 + n div 4096), char_of (128 + n div 64 mod 64), char_of (128 + n mod 64)]
      else [char_of (240 + n div 262144), char_of (128 + n div 4096 mod 64),
            char_of (128 + n div 64 mod 64), char_of (128 + n mod 64)])"

definition vcSection :: "string \<Rightarrow> string" where
  "vcSection vcIP = ''VirtualCenter '' @ quoted vcIP"

definition netSection :: "nat \<Rightarrow> string" where
  "netSection sequenceCh = ''NetPermissions '' @ quoted (utf8 sequenceCh)"

definition netSetting :: "nat \<Rightarrow> NetPermission \<Rightarrow> setting list" where
  "netSetting sequenceCh np =
     [(netSection sequenceCh, ''ips'', quoted (Ip np))] @
     (if Permission np \<noteq> [] then [(netSection sequenceCh, ''permissions'', quoted (Permission np))] else []) @
     (if RootSquash np then [(netSection sequenceCh, ''rootsquash'', quoted (FormatBool (RootSquash np)))] else [])"

fun netSettings :: "nat \<Rightarrow> NetPermission list \<Rightarrow> setting list" where
  "netSettings sequenceCh [] = []"
| "netSettings sequenceCh (np # nps) = netSetting sequenceCh np @ netSettings (Suc sequenceCh) nps"

definition csiSettings :: "VDOConfig \<Rightarrow> VsphereCloudConfig \<Rightarrow> string \<Rightarrow> string \<Rightarrow> setting list" where
  "csiSettings vdo cloudConfig vcUser vcUserPwd =
     (let vcIP = VcIP (VccSpec cloudConfig);
          fv = FileVolumes (StorageProvider (VdoSpec vdo)) in
      [(''Global'', ''cluster-id'', quoted vcIP),
       (vcSection vcIP, ''insecure-flag'', quoted (FormatBool (Insecure (VccSpec cloudConfig)))),
       (vcSection vcIP, ''user'', quoted vcUser),
       (vcSection vcIP, ''password'', quoted vcUserPwd),
       (vcSection vcIP, ''datacenters'', quoted (Join (entries (DataCenters (VccSpec cloudConfig))) '', ''))] @
      (case VSanDataStoreUrl fv of None \<Rightarrow> []
       | Some urls \<Rightarrow> [(vcSection vcIP, ''targetvSANFileShareDatastoreURLs'', quoted (Join urls '', ''))]) @
      netSettings 65 (NetPermissions fv))"

text \<open>
  \<^verbatim>\<open>CreateCSISecretConfig\<close>: the file is opened (created when missing, never truncated), loaded,
  edited, saved and read back; the deferred function removes it on every way out after it was
  opened.
\<close>

definition CreateCSISecretConfig ::
  "'v world \<Rightarrow> VsphereCloudConfig \<Rightarrow> string \<Rightarrow> string \<Rightarrow> string \<Rightarrow> string M" where
  "CreateCSISecretConfig w cloudConfig vcUser vcUserPwd file =
     thenM (ask (OpenFile file) (\<lambda>t. w_openFile w t file))
      (deferM
        (bindM (ask (ReadFile file) (\<lambda>t. w_readFile w t file))
          (\<lambda>old. thenM (liftO (outcome_of (p_iniLoad w old)))
            (bindM (getS (\<lambda>s. p_iniText w old (csiSettings (cfg s) cloudConfig vcUser vcUserPwd)))
              (\<lambda>txt. thenM (ask (WriteFile file txt) (\<lambda>t. w_writeFile w t file txt))
                (ask (ReadFile file) (\<lambda>t. w_readFile w t file))))))
        (ask (RemoveFile file) (\<lambda>t. w_removeFile w t file)))"

section \<open>The settings\<close>

text \<open>\<open>utf8\<close> is injective up to the first surrogate, so the sections of the entries differ.\<close>

lemma char_of_byte_eq: "m < 256 \<Longrightarrow> n < 256 \<Longrightarrow> (char_of m = (char_of n :: char)) \<longleftrightarrow> m = (n :: nat)"
  by (metis of_char_of mod_less)

lemma split_64: "(m :: nat) = n \<longleftrightarrow> m div 64 = n div 64 \<and> m mod 64 = n mod 64"
  by (metis div_mult_mod_eq)

lemma split_4096: "(m :: nat) = n \<longleftrightarrow> m div 4096 = n div 4096 \<and> m div 64 mod 64 = n div 64 mod 64 \<and> m mod 64 = n mod 64"
proof -
  have "k div 4096 = k div 64 div 64" for k :: nat by (simp flip: div_mult2_eq)
  then show ?thesis by (metis div_mult_mod_eq)
qed

lemma utf8_one: "n < 128 \<Longrightarrow> utf8 n = [char_of n]"
  by (simp add: utf8_def)

lemma utf8_two: "128 \<le> n \<Longrightarrow> n < 2048 \<Longrightarrow> utf8 n = [char_of (192 + n div 64), char_of (128 + n mod 64)]"
  by (simp add: utf8_def)

lemma utf8_three:
  "2048 \<le> n \<Longrightarrow> n < 55296 \<Longrightarrow>
   utf8 n = [char_of (224 + n div 4096), char_of (128 + n div 64 mod 64), char_of (128 + n mod 64)]"
  by (simp add: utf8_def)

lemma bytes_small:
  "n < 2048 \<Longrightarrow> 192 + n div 64 < (256 :: nat)" "128 + n mod 64 < (256 :: nat)"
  "n < 55296 \<Longrightarrow> 224 + n div 4096 < (256 :: nat)" "128 + n div 64 mod 64 < (256 :: nat)"
proof -
  have "n mod 64 < 64" "n div 64 mod 64 < 64" by (rule mod_less_divisor, simp)+
  then show "128 + n mod 64 < (256 :: nat)" "128 + n div 64 mod 64 < (256 :: nat)" by linarith+
qed (auto simp: less_mult_imp_div_less)

lemma utf8_inj:
  assumes "m < 55296" and "n < 55296" and "utf8 m = utf8 n"
  shows "m = n"
proof -
  consider "m < 128" "n < 128" | "128 \<le> m" "m < 2048" "128 \<le> n" "n < 2048" | "2048 \<le> m" "2048 \<le> n"
    using assms by (cases "m < 128"; cases "n < 128"; cases "m < 2048"; cases "n < 2048")
      (simp_all add: utf8_one utf8_two utf8_three)
  then show ?thesis
  proof cases
    case 1
    with assms(3) show ?thesis by (simp add: utf8_one char_of_byte_eq)
  next
    case 2
    with assms(3) show ?thesis
      unfolding split_64 [of m n] by (simp add: utf8_two char_of_byte_eq bytes_small)
  next
    case 3
    with assms show ?thesis
      unfolding split_4096 [of m n] by (simp add: utf8_three char_of_byte_eq bytes_small)
  qed
qed

lemma utf8_surrogate: "55296 \<le> n \<Longrightarrow> n < 57344 \<Longrightarrow> utf8 n = [char_of (239::nat), char_of (191::nat), char_of (189::nat)]"
  by (simp add: utf8_def)

lemma utf8_not_replacement:
  assumes "n < 55296"
  shows "utf8 n \<noteq> utf8 55296"
proof -
  have "n div 4096 < 14" using assms by (intro less_mult_imp_div_less) simp
  then show ?thesis using assms
    by (cases "n < 128"; cases "n < 2048") (simp_all add: utf8_one utf8_two utf8_three utf8_surrogate char_of_byte_eq)
qed

lemma netSection_inj:
  assumes "m \<le> 55296" and "n \<le> 55296"
  shows "netSection m = netSection n \<longleftrightarrow> m = n"
proof
  assume "netSection m = netSection n"
  then have eq: "utf8 m = utf8 n" by (simp add: netSection_def quoted_def)
  then have "m < 55296 \<longleftrightarrow> n < 55296"
    using assms utf8_not_replacement [of m] utf8_not_replacement [of n] by (cases "m = 55296"; cases "n = 55296") auto
  then show "m = n" using assms eq utf8_inj [of m n] by (cases "m < 55296") auto
qed simp

lemma vcSection_not_net [simp]: "vcSection ip \<noteq> netSection n" "''Global'' \<noteq> netSection n"
  by (simp_all add: vcSection_def netSection_def)

lemma netSetting_section: "x \<in> set (netSetting n np) \<Longrightarrow> fst x = netSection n"
  by (auto simp: netSetting_def split: if_splits)

lemma netSettings_section:
  "n + length nps \<le> 55297 \<Longrightarrow> i < length nps \<Longrightarrow>
   filter (\<lambda>x. fst x = netSection (n + i)) (netSettings n nps) = netSetting (n + i) (nps ! i)"
proof (induction nps arbitrary: n i)
  case (Cons np nps)
  have rest: "filter (\<lambda>x. fst x = netSection k) (netSettings m xs) = []"
    if "k < m" "m + length xs \<le> 55297" for k m and xs :: "NetPermission list"
    using that
  proof (induction xs arbitrary: m)
    case (Cons x xs)
    then show ?case using Cons.IH [of "Suc m"]
      by (auto simp: filter_empty_conv netSection_inj dest!: netSetting_section)
  qed simp
  show ?case
  proof (cases i)
    case 0
    with Cons.prems rest [of n "Suc n" nps] show ?thesis
      by (auto simp: filter_id_conv dest: netSetting_section)
  next
    case (Suc j)
    then have "filter (\<lambda>x. fst x = netSection (n + i)) (netSetting n np) = []"
      using Cons.prems by (auto simp: filter_empty_conv netSection_inj dest!: netSetting_section)
    with Suc Cons.IH [of "Suc n" j] Cons.prems show ?thesis by simp
  qed
qed simp

lemma netSettings_ip:
  "i < length nps \<Longrightarrow> (netSection (n + i), ''ips'', quoted (Ip (nps ! i))) \<in> set (netSettings n nps)"
proof (induction nps arbitrary: n i)
  case (Cons np nps)
  then show ?case using Cons.IH [of "i - 1" "Suc n"] by (cases i) (auto simp: netSetting_def)
qed simp

section \<open>The temporary file\<close>

definition tmp_call :: "string \<Rightarrow> call \<Rightarrow> bool" where
  "tmp_call file c \<longleftrightarrow> c = OpenFile file \<or> c = ReadFile file \<or> (\<exists>txt. c = WriteFile file txt) \<or> c = RemoveFile file"

lemma tmp_call_simps [simp]:
  "tmp_call f (OpenFile f)" "tmp_call f (ReadFile f)" "tmp_call f (WriteFile f x)" "tmp_call f (RemoveFile f)"
  by (simp_all add: tmp_call_def)

lemma CreateCSISecretConfig_emits [keeps_intro]:
  "keeps (emits (tmp_call file)) (CreateCSISecretConfig w vcc user pwd file)"
  unfolding CreateCSISecretConfig_def by (intro keeps_intro) simp_all

lemma CreateCSISecretConfig_fixed [keeps_intro]:
  "(\<And>s l. f (s\<lparr>trace := l\<rparr>) = f s) \<Longrightarrow> keeps (fixes_field f) (CreateCSISecretConfig w vcc user pwd file)"
  unfolding CreateCSISecretConfig_def by (intro keeps_intro)

lemma CreateCSISecretConfig_no_panic [no_panic_intro]: "no_panic (CreateCSISecretConfig w vcc user pwd file)"
  unfolding CreateCSISecretConfig_def by (intro no_panic_intro)

section \<open>Properties\<close>

text \<open>
  C38. Every network permission of the specification gets a section of its own in the CSI configuration, with exactly the
  address, the permission when it is set, and \<^verbatim>\<open>rootsquash\<close> when it is true: for up to 55232 permissions. The name of
  the section is one letter, counted up from A without a bound; the code points of the entries from number 55231 on are
  surrogates, which all become the same replacement letter, so with one permission more two addresses meet in one
  section.
\<close>

theorem csi_permission_sections:
  assumes "nps = NetPermissions (FileVolumes (StorageProvider (VdoSpec vdo)))"
  shows "(length nps \<le> 55232 \<longrightarrow> (\<forall>i < length nps.
      filter (\<lambda>x. fst x = netSection (65 + i)) (csiSettings vdo cc user pwd) = netSetting (65 + i) (nps ! i))) \<and>
    (55232 < length nps \<longrightarrow>
      {(netSection 55296, ''ips'', quoted (Ip (nps ! 55231))), (netSection 55296, ''ips'', quoted (Ip (nps ! 55232)))}
        \<subseteq> set (csiSettings vdo cc user pwd))"
proof (intro conjI impI allI)
  fix i assume "length nps \<le> 55232" and "i < length nps"
  have "filter (\<lambda>x. fst x = netSection (65 + i)) (csiSettings vdo cc user pwd) =
    filter (\<lambda>x. fst x = netSection (65 + i)) (netSettings 65 nps)"
    by (simp add: csiSettings_def Let_def assms(1) split: option.split)
  with netSettings_section [of 65 nps i] \<open>length nps \<le> 55232\<close> \<open>i < length nps\<close>
  show "filter (\<lambda>x. fst x = netSection (65 + i)) (csiSettings vdo cc user pwd) = netSetting (65 + i) (nps ! i)" by simp
next
  assume "55232 < length nps"
  then have "(netSection 55296, ''ips'', quoted (Ip (nps ! 55231))) \<in> set (netSettings 65 nps)"
    and "(netSection 55297, ''ips'', quoted (Ip (nps ! 55232))) \<in> set (netSettings 65 nps)"
    using netSettings_ip [of 55231 nps 65] netSettings_ip [of 55232 nps 65] by simp_all
  moreover have "netSection 55297 = netSection 55296" by (simp add: netSection_def utf8_surrogate)
  ultimately show "{(netSection 55296, ''ips'', quoted (Ip (nps ! 55231))), (netSection 55296, ''ips'', quoted (Ip (nps ! 55232)))}
      \<subseteq> set (csiSettings vdo cc user pwd)"
    by (simp add: csiSettings_def Let_def assms(1))
qed

definition two_permissions :: VDOConfig where
  "two_permissions = empty_cfg\<lparr>VdoSpec := VdoSpec empty_cfg\<lparr>StorageProvider :=
     StorageProvider (VdoSpec empty_cfg)\<lparr>FileVolumes := \<lparr>VSanDataStoreUrl = None,
       NetPermissions = [\<lparr>Ip = ''*'', Permission = ''READ_ONLY'', RootSquash = False\<rparr>,
                         \<lparr>Ip = ''10.20.20.0/24'', Permission = [], RootSquash = True\<rparr>]\<rparr>\<rparr>\<rparr>\<rparr>"

lemma two_permissions_sel [simp]:
  "NetPermissions (FileVolumes (StorageProvider (VdoSpec two_permissions))) =
     [\<lparr>Ip = ''*'', Permission = ''READ_ONLY'', RootSquash = False\<rparr>,
      \<lparr>Ip = ''10.20.20.0/24'', Permission = [], RootSquash = True\<rparr>]"
  by (simp add: two_permissions_def)

theorem csi_permission_sections_witness:
  "\<forall>cc. filter (\<lambda>x. fst x = ''NetPermissions '' @ quoted ''B'') (csiSettings two_permissions cc [] []) =
     [(''NetPermissions '' @ quoted ''B'', ''ips'', quoted ''10.20.20.0/24''),
      (''NetPermissions '' @ quoted ''B'', ''rootsquash'', quoted ''true'')]"
proof
  fix cc
  have "netSection 66 = ''NetPermissions '' @ quoted ''B''" by code_simp
  then show "filter (\<lambda>x. fst x = ''NetPermissions '' @ quoted ''B'') (csiSettings two_permissions cc [] []) =
     [(''NetPermissions '' @ quoted ''B'', ''ips'', quoted ''10.20.20.0/24''),
      (''NetPermissions '' @ quoted ''B'', ''rootsquash'', quoted ''true'')]"
    using conjunct1 [OF csi_permission_sections [of _ two_permissions cc "[]" "[]", OF refl]]
    by (simp add: netSetting_def FormatBool_def All_less_Suc)
qed

text \<open>
  The file that holds the vCenter password is removed on every way out of
  \<^verbatim>\<open>CreateCSISecretConfig\<close> after it was opened, and the last request is its removal. A result is
  what was read back after the settings of the specification were written.
\<close>

theorem CreateCSISecretConfig_removes_file:
  assumes "CreateCSISecretConfig w vcc user pwd file s = (r, t)"
  shows "(\<exists>e. w_openFile w (trace s) file = Inl e \<and> r = Err e \<and> trace t = trace s @ [OpenFile file]) \<or>
    (\<exists>mid. trace t = trace s @ [OpenFile file] @ mid @ [RemoveFile file] \<and>
      (\<forall>txt. r = Ok txt \<longrightarrow> (\<exists>old. w_readFile w (trace s @ [OpenFile file]) file = Inr old \<and>
        mid = [ReadFile file, WriteFile file (p_iniText w old (csiSettings (cfg s) vcc user pwd)), ReadFile file] \<and>
        w_readFile w (trace s @ [OpenFile file] @ butlast mid) file = Inr txt)))"
proof (cases "w_openFile w (trace s) file")
  case (Inl e)
  with assms show ?thesis by (auto simp: CreateCSISecretConfig_def thenM_def bindM_def ask_def)
next
  case (Inr u)
  with assms show ?thesis
    by (auto simp: CreateCSISecretConfig_def thenM_def bindM_def deferM_def ask_def
        outcome_of_def split: sum.splits)
qed

definition csi_world :: "nat list world" where
  "csi_world = down_world\<lparr>w_openFile := \<lambda>t f. Inr (), w_readFile := \<lambda>t f. Inr ''x'',
     w_writeFile := \<lambda>t f x. Inr (), w_removeFile := \<lambda>t f. Inr (),
     p_iniLoad := \<lambda>x. Inr (), p_iniText := \<lambda>old ss. concat (map (\<lambda>(a, b, c). c) ss)\<rparr>"

lemma csi_world_sel [simp]:
  "w_openFile csi_world t f = Inr ()" "w_readFile csi_world t f = Inr ''x''"
  "w_writeFile csi_world t f x = Inr ()" "w_removeFile csi_world t f = Inr ()"
  "p_iniLoad csi_world x = Inr ()"
  by (simp_all add: csi_world_def)

theorem CreateCSISecretConfig_removes_file_witness:
  "\<forall>vcc. \<exists>mid. trace (snd (CreateCSISecretConfig csi_world vcc ''u'' ''p'' ''f'' init_St)) =
     [OpenFile ''f''] @ mid @ [RemoveFile ''f''] \<and> length mid = 3"
proof
  fix vcc
  obtain r t where run: "CreateCSISecretConfig csi_world vcc ''u'' ''p'' ''f'' init_St = (r, t)" by force
  then have "r = Ok ''x''"
    by (auto simp: CreateCSISecretConfig_def monad_defs)
  with CreateCSISecretConfig_removes_file [OF run] run
  show "\<exists>mid. trace (snd (CreateCSISecretConfig csi_world vcc ''u'' ''p'' ''f'' init_St)) =
     [OpenFile ''f''] @ mid @ [RemoveFile ''f''] \<and> length mid = 3"
    by auto
qed

end
