(* ===== verification/Secrets.thy ===== *)
theory Secrets
  imports Compat_Check Phase_Status Cpi_Driver Csi_Driver
begin

text \<open>
  The secrets and the ConfigMap that the drivers read
  (\<^verbatim>\<open>controllers/vdoconfig_controller.go\<close>): fetching and checking the cloud configurations, and
  \<open>reconcileCPISecret\<close>, \<open>reconcileConfigMap\<close> and \<open>reconcileCSISecret\<close>, which bring a stored object
  to the data that the configuration asks for. The functions return the \<^verbatim>\<open>VDOConfig\<close> they were
  given, the shared object \<open>cfg\<close>. A value of a secret is a byte list; a nil byte slice is not
  told from an empty one.
\<close>

section \<open>The cloud configurations\<close>

text \<open>None is the nil error; otherwise the status message and the error.\<close>

definition verifyVsphereCloudConfig :: "VsphereCloudConfig \<Rightarrow> (string \<times> err) option" where
  "verifyVsphereCloudConfig c =
     (let st = ConfigState (VccStatus c) in
      if st = VsphereConfigFailed
      then Some (''Status of VSphereCloudConfig resource is in failed state'',
                 Msg (''Failed to verify vSphere connection information. '' @
                      ''Status of VsphereCloudConfig resource is in failed state''))
      else if st \<noteq> VsphereConfigVerified
      then Some (''Status of VsphereCloudConfig resource is unknown'',
                 Msg (''Failed to verify vSphere connection information. '' @
                      ''Status of VsphereCloudConfig resource is in unknown state''))
      else None)"

text \<open>The body of the loop, with the index into the list of the shared object.\<close>

definition fetchItem :: "'v world \<Rightarrow> NamespacedName \<Rightarrow> nat \<Rightarrow> VsphereCloudConfig M" where
  "fetchItem w req i =
     bindM (getS cfg)
       (\<lambda>vdo. if i < length (cloud_configs vdo)
          then onErr (fetchVSphereCloudConfig w (cloud_configs vdo ! i) (NnNamespace req))
                 (\<lambda>e. updateCPIStatusForError w e ''unable to fetch the vsphereCloudConfig resource'')
          else panic ''index out of range'')"

definition fetchVsphereCloudConfigItems ::
  "'v world \<Rightarrow> NamespacedName \<Rightarrow> string list \<Rightarrow> VsphereCloudConfig list M" where
  "fetchVsphereCloudConfigItems w req vsphereCloudConfigsList =
     mapM (fetchItem w req) [0 ..< length vsphereCloudConfigsList]"

section \<open>The CPI secret\<close>

definition addCPISection ::
  "'v world \<Rightarrow> VsphereCloudConfig \<Rightarrow> (string, string) gomap \<Rightarrow> (string, string) gomap M" where
  "addCPISection w cloudConfig cpiSecretDataMap =
     bindM (onErr (fetchVcCredentials w cloudConfig)
              (\<lambda>e. updateCPIStatusForError w e ''Error in fetching vc credentials for CPI configuration''))
       (\<lambda>(vcUser, vcUserPwd). ret (AddVCSectionToDataMap cloudConfig vcUser vcUserPwd cpiSecretDataMap))"

definition cpiSecretDataMap :: "'v world \<Rightarrow> VsphereCloudConfig list \<Rightarrow> (string, string) gomap M" where
  "cpiSecretDataMap w cloudConfigs = foldM (addCPISection w) cloudConfigs make_map"

definition createCPISecret :: "'v world \<Rightarrow> NamespacedName \<Rightarrow> (string, string) gomap \<Rightarrow> unit M" where
  "createCPISecret w key dta =
     (let cpiSecret = CreateSecret key dta in
      thenM (wrapM ''error creating cpi secret''
              (onErr (ask (CreateSecretReq cpiSecret) (\<lambda>t. w_createSecret w t cpiSecret))
                (\<lambda>e. updateCPIStatusForError w e (''could not create cpi secret '' @ NnName (SecretKey cpiSecret)))))
        (updateCPIPhase w Configuring []))"

definition updateCPISecret :: "'v world \<Rightarrow> (string, string) gomap \<Rightarrow> Secret \<Rightarrow> unit M" where
  "updateCPISecret w dta old =
     (let cpiSecret = old\<lparr>SecretData := dta\<rparr> in
      thenM (onErr (ask (UpdateSecretReq cpiSecret) (\<lambda>t. w_updateSecret w t cpiSecret))
              (\<lambda>e. updateCPIStatusForError w e (''could not update cpi secret '' @ NnName (SecretKey cpiSecret))))
        (updateCPIPhase w Configuring []))"

text \<open>When the secret cannot be fetched its name in the message is that of the empty object.\<close>

definition reconcileCPISecret :: "'v world \<Rightarrow> VsphereCloudConfig list \<Rightarrow> NamespacedName \<Rightarrow> unit M" where
  "reconcileCPISecret w cloudConfigs cpiSecretKey =
     bindM (cpiSecretDataMap w cloudConfigs)
       (\<lambda>dta. bindM (tryM (ask (GetSecret cpiSecretKey) (\<lambda>t. w_getSecret w t cpiSecretKey)))
         (\<lambda>r. case r of
            Inl e \<Rightarrow> if IsNotFound e then createCPISecret w cpiSecretKey dta
                     else thenM (updateCPIStatusForError w e ''unable to fetch secret '') (throw e)
          | Inr cpiSecret \<Rightarrow> if DeepEqual_map dta (SecretData cpiSecret) then ret ()
                             else updateCPISecret w dta cpiSecret))"

section \<open>The CPI ConfigMap\<close>

definition createCPIConfigMap :: "'v world \<Rightarrow> NamespacedName \<Rightarrow> (string, string) gomap \<Rightarrow> unit M" where
  "createCPIConfigMap w key dta =
     (let vsphereConfigMap = CreateConfigMap dta key in
      bindM (tryM (ask (CreateConfigMapReq vsphereConfigMap) (\<lambda>t. w_createConfigMap w t vsphereConfigMap)))
        (\<lambda>r. case r of
           Inl e \<Rightarrow> if \<not> IsAlreadyExists e
                    then thenM (updateCPIStatusForError w e (''could not create vsphere configmap '' @ CONFIGMAP_NAME))
                           (throw e)
                    else updateCPIPhase w Configuring []
         | Inr _ \<Rightarrow> updateCPIPhase w Configuring []))"

definition updateCPIConfigMap :: "'v world \<Rightarrow> (string, string) gomap \<Rightarrow> ConfigMap \<Rightarrow> unit M" where
  "updateCPIConfigMap w dta old =
     (let vsphereConfigMap = old\<lparr>CmData := dta\<rparr> in
      thenM (ask (UpdateConfigMapReq vsphereConfigMap) (\<lambda>t. w_updateConfigMap w t vsphereConfigMap))
        (updateCPIPhase w Configuring []))"

definition reconcileConfigMap :: "'v world \<Rightarrow> VsphereCloudConfig list \<Rightarrow> NamespacedName \<Rightarrow> unit M" where
  "reconcileConfigMap w vsphereCloudConfigs cpiSecretKey =
     (let configMapKey = \<lparr>NnNamespace = VC_CREDS_SECRET_NS, NnName = CONFIGMAP_NAME\<rparr> in
      bindM (onErr (CreateVsphereConfig w vsphereCloudConfigs cpiSecretKey)
              (\<lambda>e. updateCPIStatusForError w e (''could not create vsphere configDataMap '' @ CONFIGMAP_NAME)))
        (\<lambda>dta. bindM (tryM (ask (GetConfigMap configMapKey) (\<lambda>t. w_getConfigMap w t configMapKey)))
          (\<lambda>r. case r of
             Inl e \<Rightarrow> if IsNotFound e then createCPIConfigMap w configMapKey dta
                      else thenM (updateCPIStatusForError w e (''could not fetch configmap '' @ CONFIGMAP_NAME))
                             (throw e)
           | Inr cm \<Rightarrow> if DeepEqual_map dta (CmData cm) then ret () else updateCPIConfigMap w dta cm)))"

section \<open>The CSI secret\<close>

definition createCSISecretObj :: "'v world \<Rightarrow> NamespacedName \<Rightarrow> string \<Rightarrow> unit M" where
  "createCSISecretObj w key configData =
     (let csiSecret = CreateCSISecret configData key in
      thenM (wrapM (''could not create csi secret '' @ NnName (SecretKey csiSecret))
              (ask (CreateSecretReq csiSecret) (\<lambda>t. w_createSecret w t csiSecret)))
        (updateCSIPhase w Configuring []))"

definition updateCSISecretObj :: "'v world \<Rightarrow> string \<Rightarrow> Secret \<Rightarrow> unit M" where
  "updateCSISecretObj w configData old =
     (let csiSecret = UpdateCSISecret old configData in
      thenM (wrapM (''could not update csi secret '' @ NnName (SecretKey csiSecret))
              (ask (UpdateSecretReq csiSecret) (\<lambda>t. w_updateSecret w t csiSecret)))
        (updateCSIPhase w Configuring []))"

definition reconcileCSISecret :: "'v world \<Rightarrow> VsphereCloudConfig \<Rightarrow> unit M" where
  "reconcileCSISecret w vsphereCloudConfig =
     bindM (onErr (fetchVcCredentials w vsphereCloudConfig)
              (\<lambda>e. updateCSIStatusForError w e
                 ''Error in reconcile of fetching vc credentials for CSI configuration''))
       (\<lambda>(vcUser, vcUserPwd). bindM (getS (\<lambda>s. \<lparr>NnNamespace = CsiNamespace s, NnName = CSI_SECRET_NAME\<rparr>))
         (\<lambda>csiSecretKey.
           bindM (onErr (CreateCSISecretConfig w vsphereCloudConfig vcUser vcUserPwd CSI_SECRET_CONFIG_FILE)
                    (\<lambda>e. updateCSIStatusForError w e ''unable to create csi config''))
             (\<lambda>configData. bindM (tryM (ask (GetSecret csiSecretKey) (\<lambda>t. w_getSecret w t csiSecretKey)))
               (\<lambda>r. case r of
                  Inl e \<Rightarrow> if IsNotFound e then createCSISecretObj w csiSecretKey configData else throw e
                | Inr csiSecret \<Rightarrow>
                    if \<not> CompareCSISecret csiSecret configData then updateCSISecretObj w configData csiSecret
                    else bindM (getS cfg)
                      (\<lambda>vdo. if csi_phase vdo = PhaseUnset then updateCSIPhase w Configuring [] else ret ())))))"

section \<open>The contract of a stored object\<close>

text \<open>
  \<open>recon\<close> computes the key and the data it wants, reads the stored object, and creates it when
  it is missing, updates it when it differs and otherwise only settles the status. \<open>wrote\<close> gives
  the data of a request that writes such an object.
\<close>

locale stored_object =
  fixes recon :: "'v world \<Rightarrow> 'c \<Rightarrow> unit M"
    and want :: "'v world \<Rightarrow> 'c \<Rightarrow> (NamespacedName \<times> 'd) M"
    and read :: "'v world \<Rightarrow> NamespacedName \<Rightarrow> 'o M"
    and same :: "'d \<Rightarrow> 'o \<Rightarrow> bool"
    and create :: "'v world \<Rightarrow> NamespacedName \<Rightarrow> 'd \<Rightarrow> unit M"
    and update :: "'v world \<Rightarrow> 'd \<Rightarrow> 'o \<Rightarrow> unit M"
    and fail :: "'v world \<Rightarrow> err \<Rightarrow> unit M"
    and settled :: "'v world \<Rightarrow> unit M"
    and wrote :: "call \<Rightarrow> 'd option"
  assumes recon_eq: "recon w c = bindM (want w c)
      (\<lambda>(k, d). bindM (tryM (read w k))
        (\<lambda>r. case r of Inl e \<Rightarrow> if IsNotFound e then create w k d else thenM (fail w e) (throw e)
           | Inr x \<Rightarrow> if same d x then settled w else update w d x))"
    and create_writes: "\<exists>x. wrote x = Some d \<and> starts x status_call (create w k d)"
    and update_writes: "\<exists>x. wrote x = Some d \<and> starts x status_call (update w d old)"
    and fail_emits: "keeps (emits status_call) (fail w e)"
    and settled_emits: "keeps (emits status_call) (settled w)"
begin

lemma create_run:
  "create w k d s = (r, t) \<Longrightarrow> \<exists>x cs. trace t = trace s @ x # cs \<and> wrote x = Some d \<and> list_all status_call cs"
  using create_writes [of d w k] by (meson startsD)

lemma update_run:
  "update w d old s = (r, t) \<Longrightarrow> \<exists>x cs. trace t = trace s @ x # cs \<and> wrote x = Some d \<and> list_all status_call cs"
  using update_writes [of d w old] by (meson startsD)

text \<open>Success: the stored object was right and only the status is touched, or it was written.\<close>

lemma recon_Ok:
  assumes "recon w c s = (Ok (), t)"
  shows "\<exists>k d u. want w c s = (Ok (k, d), u) \<and>
    ((\<exists>x v. read w k u = (Ok x, v) \<and> same d x \<and> settled w v = (Ok (), t) \<and> emits status_call v t) \<or>
     (\<exists>x cs. trace t = trace (snd (read w k u)) @ x # cs \<and> wrote x = Some d \<and> list_all status_call cs))"
proof -
  from assms obtain k d u where want: "want w c s = (Ok (k, d), u)"
    and rest: "bindM (tryM (read w k))
        (\<lambda>r. case r of Inl e \<Rightarrow> if IsNotFound e then create w k d else thenM (fail w e) (throw e)
           | Inr x \<Rightarrow> if same d x then settled w else update w d x) u = (Ok (), t)"
    by (auto simp: recon_eq runs)
  obtain q v where read: "read w k u = (q, v)" by force
  show ?thesis
  proof (cases q)
    case (Ok x)
    with rest read have "(if same d x then settled w else update w d x) v = (Ok (), t)"
      by (simp add: bindM_def tryM_def)
    with want read Ok keepsD [OF settled_emits, of w v "Ok ()" t] update_run [of w d x v "Ok ()" t]
    show ?thesis by (auto split: if_splits)
  next
    case (Err e)
    with rest read have "IsNotFound e" "create w k d v = (Ok (), t)"
      by (auto simp: bindM_def tryM_def thenM_def split: if_splits prod.splits outcome.splits)
    with want read create_run [of w k d v "Ok ()" t] show ?thesis by auto
  qed (use rest read in \<open>simp add: bindM_def tryM_def\<close>)
qed

text \<open>Convergence: when the store already holds the wanted data, nothing is written to it.\<close>

lemma recon_same:
  assumes "want w c s = (Ok (k, d), u)" and "read w k u = (Ok x, v)" and "same d x"
  shows "recon w c s = settled w v"
  using assms by (simp add: recon_eq bindM_def tryM_def)

end


text \<open>The data that the secrets and the ConfigMap ask for.\<close>

definition wantCPISecret ::
  "'v world \<Rightarrow> VsphereCloudConfig list \<times> NamespacedName \<Rightarrow> (NamespacedName \<times> (string, string) gomap) M" where
  "wantCPISecret w c = bindM (cpiSecretDataMap w (fst c)) (\<lambda>d. ret (snd c, d))"

definition wantConfigMap ::
  "'v world \<Rightarrow> VsphereCloudConfig list \<times> NamespacedName \<Rightarrow> (NamespacedName \<times> (string, string) gomap) M" where
  "wantConfigMap w c =
     bindM (onErr (CreateVsphereConfig w (fst c) (snd c))
              (\<lambda>e. updateCPIStatusForError w e (''could not create vsphere configDataMap '' @ CONFIGMAP_NAME)))
       (\<lambda>d. ret (\<lparr>NnNamespace = VC_CREDS_SECRET_NS, NnName = CONFIGMAP_NAME\<rparr>, d))"

definition wantCSISecret :: "'v world \<Rightarrow> VsphereCloudConfig \<Rightarrow> (NamespacedName \<times> string) M" where
  "wantCSISecret w vcc =
     bindM (onErr (fetchVcCredentials w vcc)
              (\<lambda>e. updateCSIStatusForError w e
                 ''Error in reconcile of fetching vc credentials for CSI configuration''))
       (\<lambda>(vcUser, vcUserPwd). bindM (getS (\<lambda>s. \<lparr>NnNamespace = CsiNamespace s, NnName = CSI_SECRET_NAME\<rparr>))
         (\<lambda>key. bindM (onErr (CreateCSISecretConfig w vcc vcUser vcUserPwd CSI_SECRET_CONFIG_FILE)
                    (\<lambda>e. updateCSIStatusForError w e ''unable to create csi config''))
            (\<lambda>d. ret (key, d))))"

definition readSecret :: "'v world \<Rightarrow> NamespacedName \<Rightarrow> Secret M" where
  "readSecret w k = ask (GetSecret k) (\<lambda>t. w_getSecret w t k)"

definition readConfigMap :: "'v world \<Rightarrow> NamespacedName \<Rightarrow> ConfigMap M" where
  "readConfigMap w k = ask (GetConfigMap k) (\<lambda>t. w_getConfigMap w t k)"

definition settleCSI :: "'v world \<Rightarrow> unit M" where
  "settleCSI w = bindM (getS cfg)
     (\<lambda>vdo. if csi_phase vdo = PhaseUnset then updateCSIPhase w Configuring [] else ret ())"

definition wroteSecret :: "call \<Rightarrow> (string, string) gomap option" where
  "wroteSecret c = (case c of CreateSecretReq x \<Rightarrow> Some (SecretData x) | UpdateSecretReq x \<Rightarrow> Some (SecretData x)
     | _ \<Rightarrow> None)"

definition wroteConfigMap :: "call \<Rightarrow> (string, string) gomap option" where
  "wroteConfigMap c = (case c of CreateConfigMapReq x \<Rightarrow> Some (CmData x) | UpdateConfigMapReq x \<Rightarrow> Some (CmData x)
     | _ \<Rightarrow> None)"

definition wroteCSISecret :: "call \<Rightarrow> string option" where
  "wroteCSISecret c = (case wroteSecret c of None \<Rightarrow> None | Some d \<Rightarrow> mlookup d CSI_SECRET_CONFIG_FILENAME)"

lemma wrote_simps [simp]:
  "wroteSecret (CreateSecretReq x) = Some (SecretData x)"
  "wroteSecret (UpdateSecretReq x) = Some (SecretData x)"
  "wroteConfigMap (CreateConfigMapReq y) = Some (CmData y)"
  "wroteConfigMap (UpdateConfigMapReq y) = Some (CmData y)"
  by (simp_all add: wroteSecret_def wroteConfigMap_def)

lemma wrote_status [simp]: "status_call c \<Longrightarrow> wroteSecret c = None" "status_call c \<Longrightarrow> wroteConfigMap c = None"
  by (auto simp: status_call_def wroteSecret_def wroteConfigMap_def split: call.splits)

lemma secret_starts:
  "starts (CreateSecretReq (CreateSecret k d)) status_call (createCPISecret w k d)"
  "starts (UpdateSecretReq (old\<lparr>SecretData := d\<rparr>)) status_call (updateCPISecret w d old)"
  "starts (CreateSecretReq (CreateCSISecret x k)) status_call (createCSISecretObj w k x)"
  "starts (UpdateSecretReq (UpdateCSISecret old x)) status_call (updateCSISecretObj w x old)"
  "starts (CreateConfigMapReq (CreateConfigMap d k)) status_call (createCPIConfigMap w k d)"
  "starts (UpdateConfigMapReq (cm\<lparr>CmData := d\<rparr>)) status_call (updateCPIConfigMap w d cm)"
  unfolding createCPISecret_def updateCPISecret_def createCSISecretObj_def updateCSISecretObj_def
    createCPIConfigMap_def updateCPIConfigMap_def Let_def
  by (intro starts_intro keeps_intro; simp)+

lemma if_not: "(if \<not> b then x else y) = (if b then y else x)"
  by simp

interpretation cpi_secret: stored_object "\<lambda>w c. reconcileCPISecret w (fst c) (snd c)" wantCPISecret readSecret
  "\<lambda>d x. DeepEqual_map d (SecretData x)" createCPISecret updateCPISecret
  "\<lambda>w e. updateCPIStatusForError w e ''unable to fetch secret ''" "\<lambda>w. ret ()" wroteSecret
proof unfold_locales
  fix w :: "'v world" and c
  show "reconcileCPISecret w (fst c) (snd c) = bindM (wantCPISecret w c)
      (\<lambda>(k, d). bindM (tryM (readSecret w k))
        (\<lambda>r. case r of Inl e \<Rightarrow> if IsNotFound e then createCPISecret w k d
               else thenM (updateCPIStatusForError w e ''unable to fetch secret '') (throw e)
           | Inr x \<Rightarrow> if DeepEqual_map d (SecretData x) then ret () else updateCPISecret w d x))"
    by (simp add: reconcileCPISecret_def wantCPISecret_def bindM_assoc readSecret_def)
  show "\<exists>x. wroteSecret x = Some d \<and> starts x status_call (createCPISecret w k d)" for k d
    by (rule exI, rule conjI [OF _ secret_starts(1)]) (simp add: CreateSecret_def)
  show "\<exists>x. wroteSecret x = Some d \<and> starts x status_call (updateCPISecret w d old)" for d old
    by (rule exI, rule conjI [OF _ secret_starts(2)]) simp
qed (intro keeps_intro; simp)+

interpretation csi_secret: stored_object reconcileCSISecret wantCSISecret readSecret
  "\<lambda>d x. CompareCSISecret x d" createCSISecretObj updateCSISecretObj "\<lambda>w e. ret ()" settleCSI wroteCSISecret
proof unfold_locales
  fix w :: "'v world" and c
  show "reconcileCSISecret w c = bindM (wantCSISecret w c)
      (\<lambda>(k, d). bindM (tryM (readSecret w k))
        (\<lambda>r. case r of Inl e \<Rightarrow> if IsNotFound e then createCSISecretObj w k d else thenM (ret ()) (throw e)
           | Inr x \<Rightarrow> if CompareCSISecret x d then settleCSI w else updateCSISecretObj w d x))"
    by (simp add: reconcileCSISecret_def wantCSISecret_def bindM_assoc readSecret_def settleCSI_def
        case_prod_unfold if_not cong del: sum.case_cong_weak if_weak_cong)
  show "\<exists>x. wroteCSISecret x = Some d \<and> starts x status_call (createCSISecretObj w k d)" for k d
    by (rule exI, rule conjI [OF _ secret_starts(3)]) (simp add: wroteCSISecret_def CreateCSISecret_def)
  show "\<exists>x. wroteCSISecret x = Some d \<and> starts x status_call (updateCSISecretObj w d old)" for d old
    by (rule exI, rule conjI [OF _ secret_starts(4)]) (simp add: wroteCSISecret_def UpdateCSISecret_def)
qed (unfold settleCSI_def, (intro keeps_intro; simp)+)

interpretation cpi_config_map: stored_object "\<lambda>w c. reconcileConfigMap w (fst c) (snd c)" wantConfigMap readConfigMap
  "\<lambda>d x. DeepEqual_map d (CmData x)" createCPIConfigMap updateCPIConfigMap
  "\<lambda>w e. updateCPIStatusForError w e (''could not fetch configmap '' @ CONFIGMAP_NAME)" "\<lambda>w. ret ()" wroteConfigMap
proof unfold_locales
  fix w :: "'v world" and c
  show "reconcileConfigMap w (fst c) (snd c) = bindM (wantConfigMap w c)
      (\<lambda>(k, d). bindM (tryM (readConfigMap w k))
        (\<lambda>r. case r of Inl e \<Rightarrow> if IsNotFound e then createCPIConfigMap w k d
               else thenM (updateCPIStatusForError w e (''could not fetch configmap '' @ CONFIGMAP_NAME)) (throw e)
           | Inr x \<Rightarrow> if DeepEqual_map d (CmData x) then ret () else updateCPIConfigMap w d x))"
    by (simp add: reconcileConfigMap_def wantConfigMap_def bindM_assoc readConfigMap_def Let_def)
  show "\<exists>x. wroteConfigMap x = Some d \<and> starts x status_call (createCPIConfigMap w k d)" for k d
    by (rule exI, rule conjI [OF _ secret_starts(5)]) (simp add: CreateConfigMap_def)
  show "\<exists>x. wroteConfigMap x = Some d \<and> starts x status_call (updateCPIConfigMap w d old)" for d old
    by (rule exI, rule conjI [OF _ secret_starts(6)]) simp
qed (intro keeps_intro; simp)+

section \<open>Requests, fixed fields and panics\<close>

definition stored_call :: "call \<Rightarrow> bool" where
  "stored_call c \<longleftrightarrow> reading_call c \<or> status_call c \<or> conf_file_call c \<or> tmp_call CSI_SECRET_CONFIG_FILE c \<or>
     (case c of CreateSecretReq x \<Rightarrow> True | UpdateSecretReq x \<Rightarrow> True
      | CreateConfigMapReq x \<Rightarrow> True | UpdateConfigMapReq x \<Rightarrow> True | _ \<Rightarrow> False)"

lemma stored_call_simps [simp]:
  "reading_call c \<Longrightarrow> stored_call c" "status_call c \<Longrightarrow> stored_call c" "conf_file_call c \<Longrightarrow> stored_call c"
  "tmp_call CSI_SECRET_CONFIG_FILE c \<Longrightarrow> stored_call c"
  "stored_call (CreateSecretReq x)" "stored_call (UpdateSecretReq x)"
  "stored_call (CreateConfigMapReq y)" "stored_call (UpdateConfigMapReq y)"
  by (simp_all add: stored_call_def)

lemmas stored_defs = reconcileCPISecret_def cpiSecretDataMap_def addCPISection_def createCPISecret_def updateCPISecret_def
  reconcileConfigMap_def createCPIConfigMap_def updateCPIConfigMap_def reconcileCSISecret_def
  createCSISecretObj_def updateCSISecretObj_def fetchVsphereCloudConfigItems_def fetchItem_def Let_def

lemma stored_emits [keeps_intro]:
  assumes "\<And>c. stored_call c \<Longrightarrow> Q c"
  shows "keeps (emits Q) (reconcileCPISecret w cs key)" "keeps (emits Q) (reconcileConfigMap w cs key)"
    "keeps (emits Q) (reconcileCSISecret w vcc)" "keeps (emits Q) (fetchVsphereCloudConfigItems w req l)"
  unfolding stored_defs
  by (intro keeps_intro keeps_emits_mono [OF CreateVsphereConfig_emits]
      keeps_emits_mono [OF CreateCSISecretConfig_emits] assms; simp)+

lemma stored_fixed [keeps_intro]:
  assumes "\<And>s c l. f (s\<lparr>cfg := c, trace := l\<rparr>) = f s" "\<And>s c. f (s\<lparr>cfg := c\<rparr>) = f s"
    "\<And>s l. f (s\<lparr>trace := l\<rparr>) = f s"
  shows "keeps (fixes_field f) (reconcileCPISecret w cs key)" "keeps (fixes_field f) (reconcileConfigMap w cs key)"
    "keeps (fixes_field f) (reconcileCSISecret w vcc)" "keeps (fixes_field f) (fetchVsphereCloudConfigItems w req l)"
  unfolding stored_defs by (intro keeps_intro; simp add: assms)+

lemma stored_no_panic [no_panic_intro]:
  "no_panic (reconcileCPISecret w cs key)" "no_panic (reconcileConfigMap w cs key)"
  "no_panic (reconcileCSISecret w vcc)"
  unfolding stored_defs by (intro no_panic_intro; simp?)+

section \<open>Properties\<close>

text \<open>The credentials of a configuration: the two entries of its secret.\<close>

definition login_of :: "'v world \<Rightarrow> VsphereCloudConfig \<Rightarrow> string \<times> string \<Rightarrow> bool" where
  "login_of w c login \<longleftrightarrow> Credentials (VccSpec c) \<noteq> [] \<and>
     (\<exists>tr sec. w_getSecret w tr \<lparr>NnNamespace = VC_CREDS_SECRET_NS, NnName = Credentials (VccSpec c)\<rparr> = Inr sec \<and>
       login = (mindex (SecretData sec) ''username'', mindex (SecretData sec) ''password''))"

lemma fetchVcCredentials_Ok:
  assumes "fetchVcCredentials w c s = (Ok login, t)"
  shows "login_of w c login" "t = s\<lparr>trace := trace t\<rparr>" "emits reading_call s t"
proof -
  show "login_of w c login" "t = s\<lparr>trace := trace t\<rparr>"
    using assms by (auto simp: fetchVcCredentials_def login_of_def runs Let_def split: if_splits)
  show "emits reading_call s t" by (rule keepsD [OF fetchVcCredentials_emits assms])
qed

lemma addCPISection_Ok:
  assumes "addCPISection w c m s = (Ok d, t)"
  shows "\<exists>user pwd. fetchVcCredentials w c s = (Ok (user, pwd), t) \<and> d = AddVCSectionToDataMap c user pwd m"
  using assms by (auto simp: addCPISection_def runs)

lemma cpiSecretDataMap_fold:
  "foldM (addCPISection w) cs m s = (Ok d, t) \<Longrightarrow>
   \<exists>creds. map fst creds = cs \<and> d = secretData creds m \<and> (\<forall>(c, login) \<in> set creds. login_of w c login) \<and>
     t = s\<lparr>trace := trace t\<rparr> \<and> emits reading_call s t"
proof (induction cs arbitrary: m s)
  case Nil
  then show ?case by (simp add: emits.R_refl)
next
  case (Cons c cs)
  from Cons.prems obtain m1 u where "addCPISection w c m s = (Ok m1, u)"
    and rest: "foldM (addCPISection w) cs m1 u = (Ok d, t)"
    by (auto simp: runs)
  from addCPISection_Ok [OF this(1)] obtain user pwd where
    f: "fetchVcCredentials w c s = (Ok (user, pwd), u)" and m1: "m1 = AddVCSectionToDataMap c user pwd m"
    by blast
  from Cons.IH [OF rest] obtain creds where IH: "map fst creds = cs" "d = secretData creds m1"
    "\<forall>(c, login) \<in> set creds. login_of w c login" "t = u\<lparr>trace := trace t\<rparr>" "emits reading_call u t" by blast
  note this_step = fetchVcCredentials_Ok [OF f]
  have "t = s\<lparr>trace := trace t\<rparr>"
    by (subst IH(4), subst this_step(2)) simp
  moreover have "emits reading_call s t" using this_step(3) IH(5) by (rule emits.R_trans)
  ultimately show ?case
    using IH this_step(1) m1 by (intro exI [of _ "(c, user, pwd) # creds"]) auto
qed

lemma cpiSecretDataMap_Ok:
  "cpiSecretDataMap w cs s = (Ok d, t) \<Longrightarrow>
   \<exists>creds. map fst creds = cs \<and> d = secretData creds make_map \<and> (\<forall>(c, login) \<in> set creds. login_of w c login) \<and>
     t = s\<lparr>trace := trace t\<rparr> \<and> emits reading_call s t"
  unfolding cpiSecretDataMap_def by (rule cpiSecretDataMap_fold)

text \<open>
  C16. A reconciliation of the CPI secret that succeeds leaves the cluster with the user name and
  password of every vCenter of the configuration: with the data computed from the credentials
  of each cloud configuration, in order, either the stored secret had the same entries and
  nothing was written, or the first write creates or updates the secret with exactly this
  data and only status updates follow.
\<close>

theorem reconcileCPISecret_converges:
  assumes "reconcileCPISecret w cs key s = (Ok (), t)"
  shows "\<exists>creds. map fst creds = cs \<and> (\<forall>(c, login) \<in> set creds. login_of w c login) \<and>
    ((\<exists>tr sec. w_getSecret w tr key = Inr sec \<and> mlookup (SecretData sec) = mlookup (secretData creds make_map) \<and>
        emits reading_call s t \<and> cfg t = cfg s) \<or>
     (\<exists>pre x post. trace t = trace s @ pre @ x # post \<and> list_all reading_call pre \<and>
        wroteSecret x = Some (secretData creds make_map) \<and> list_all status_call post))"
proof -
  from cpi_secret.recon_Ok [of w "(cs, key)" s t] assms obtain d u
    where want: "cpiSecretDataMap w cs s = (Ok d, u)"
      and cases: "(\<exists>x v. readSecret w key u = (Ok x, v) \<and> DeepEqual_map d (SecretData x) \<and> v = t) \<or>
        (\<exists>x post. trace t = trace (snd (readSecret w key u)) @ x # post \<and> wroteSecret x = Some d \<and> list_all status_call post)"
    by (auto simp: wantCPISecret_def runs)
  from cpiSecretDataMap_Ok [OF want] obtain creds where
    creds: "map fst creds = cs" "\<forall>(c, login) \<in> set creds. login_of w c login" "d = secretData creds make_map"
    and u: "u = s\<lparr>trace := trace u\<rparr>" "emits reading_call s u" by blast
  from u(2) obtain pre where pre: "trace u = trace s @ pre" "list_all reading_call pre" by (rule emitsE)
  have v: "snd (readSecret w key u) = u\<lparr>trace := trace s @ pre @ [GetSecret key]\<rparr>"
    by (simp add: readSecret_def ask_def pre(1))
  have "cfg u = cfg s" by (subst u(1)) simp
  with cases creds pre v show ?thesis
  proof (elim disjE exE conjE)
    fix x v'
    assume r: "readSecret w key u = (Ok x, v')" "DeepEqual_map d (SecretData x)" "v' = t"
    then have "w_getSecret w (trace u) key = Inr x" by (auto simp: readSecret_def ask_def)
    moreover have "emits reading_call s t"
      using r v pre(2) by (intro emitsI [of _ _ "pre @ [GetSecret key]"]) auto
    moreover have "cfg t = cfg s" using r v \<open>cfg u = cfg s\<close> by simp
    ultimately show ?thesis
      using creds r(2) by (intro exI [of _ creds]) (auto simp: DeepEqual_map_iff)
  next
    fix x post
    assume "trace t = trace (snd (readSecret w key u)) @ x # post" "wroteSecret x = Some d" "list_all status_call post"
    then have "trace t = trace s @ (pre @ [GetSecret key]) @ x # post \<and> list_all reading_call (pre @ [GetSecret key]) \<and>
      wroteSecret x = Some (secretData creds make_map) \<and> list_all status_call post"
      using v pre creds by simp
    then show ?thesis using creds by blast
  qed
qed

definition store_world :: "nat list world" where
  "store_world = lab_world
     \<lparr>w_getSecret := \<lambda>t k. if NnName k = ''creds'' then Inr lab_secret else Inl (ApiErr NotFound ''none''),
      w_createSecret := \<lambda>t x. Inr (), w_statusVDO := \<lambda>t c. Inr c,
      w_getConfigMap := \<lambda>t k. Inl (ApiErr NotFound ''none''), w_createConfigMap := \<lambda>t x. Inr (),
      w_openFile := \<lambda>t f. Inr (), w_truncateFile := \<lambda>t f. Inr (), w_writeFile := \<lambda>t f x. Inr (),
      w_readFile := \<lambda>t f. Inr ''conf'', w_removeFile := \<lambda>t f. Inr ()\<rparr>"

lemma store_world_sel [simp]:
  "w_getSecret store_world = (\<lambda>t k. if NnName k = ''creds'' then Inr lab_secret else Inl (ApiErr NotFound ''none''))"
  "w_createSecret store_world = (\<lambda>t x. Inr ())" "w_statusVDO store_world = (\<lambda>t c. Inr c)"
  "w_getConfigMap store_world = (\<lambda>t k. Inl (ApiErr NotFound ''none''))"
  "w_createConfigMap store_world = (\<lambda>t x. Inr ())"
  "w_openFile store_world = (\<lambda>t f. Inr ())" "w_truncateFile store_world = (\<lambda>t f. Inr ())"
  "w_writeFile store_world = (\<lambda>t f x. Inr ())" "w_readFile store_world = (\<lambda>t f. Inr ''conf'')"
  "w_removeFile store_world = (\<lambda>t f. Inr ())" "p_iniLoad store_world = (\<lambda>x. Inr ())"
  "w_getVCC store_world = (\<lambda>t k. Inr lab_vcc)"
  by (simp_all add: store_world_def lab_world_def login_world_def)

definition cpi_key :: NamespacedName where
  "cpi_key = \<lparr>NnNamespace = VC_CREDS_SECRET_NS, NnName = SECRET_NAME\<rparr>"

lemma cpi_key_sel [simp]: "NnName cpi_key = SECRET_NAME" "SECRET_NAME \<noteq> ''creds''"
  by (simp_all add: cpi_key_def SECRET_NAME_def)

lemma store_cpi_secret:
  "reconcileCPISecret store_world [lab_vcc] cpi_key lab_St =
    (Ok (), snd (reconcileCPISecret store_world [lab_vcc] cpi_key lab_St))"
  by (simp add: reconcileCPISecret_def cpiSecretDataMap_def addCPISection_def fetchVcCredentials_def
      createCPISecret_def updateCPIPhase_def statusUpdateVDO_def monad_defs)

theorem reconcileCPISecret_converges_witness:
  "\<exists>pre x post. trace (snd (reconcileCPISecret store_world [lab_vcc] cpi_key lab_St)) = pre @ x # post \<and>
     wroteSecret x = Some (secretData [(lab_vcc, ''admin'', ''pw'')] make_map)"
proof -
  have login: "login_of store_world lab_vcc l \<Longrightarrow> l = (''admin'', ''pw'')" for l
    by (auto simp: login_of_def)
  from reconcileCPISecret_converges [OF store_cpi_secret] obtain creds where
    c: "map fst creds = [lab_vcc]" "\<forall>(c, login) \<in> set creds. login_of store_world c login"
    and cases: "(\<exists>tr sec. w_getSecret store_world tr cpi_key = Inr sec \<and> mlookup (SecretData sec) = mlookup (secretData creds make_map) \<and>
        emits reading_call lab_St (snd (reconcileCPISecret store_world [lab_vcc] cpi_key lab_St)) \<and>
        cfg (snd (reconcileCPISecret store_world [lab_vcc] cpi_key lab_St)) = cfg lab_St) \<or>
     (\<exists>pre x post. trace (snd (reconcileCPISecret store_world [lab_vcc] cpi_key lab_St)) = trace lab_St @ pre @ x # post \<and>
        list_all reading_call pre \<and> wroteSecret x = Some (secretData creds make_map) \<and> list_all status_call post)"
    by (elim exE conjE)
  from c have "creds = [(lab_vcc, ''admin'', ''pw'')]" by (cases creds) (auto dest: login)
  with cases show ?thesis by auto
qed


lemma CSI_SECRET_NAME_not_creds [simp]: "CSI_SECRET_NAME \<noteq> ''creds''"
  by (simp add: CSI_SECRET_NAME_def)

lemma store_csi_secret:
  "reconcileCSISecret store_world lab_vcc lab_St = (Ok (), snd (reconcileCSISecret store_world lab_vcc lab_St))"
  by (simp add: reconcileCSISecret_def fetchVcCredentials_def CreateCSISecretConfig_def
      createCSISecretObj_def updateCSIPhase_def statusUpdateVDO_def monad_defs)


text \<open>
  C18. A reconciliation of the ConfigMap that succeeds either found the rendered \<^verbatim>\<open>vsphere.conf\<close> and
  wrote nothing to the cluster, or sent it in its first write; the rendered file has exactly
  one section per vCenter address, the last cloud configuration of an address deciding.
\<close>

theorem reconcileConfigMap_converges:
  assumes "reconcileConfigMap w cs key s = (Ok (), t)"
  shows "\<exists>d. mlookup d VSPHERECONFIG = Some (p_yamlCpiConfig w (cpiConfigOf (cfg s) cs key)) \<and>
    (let k = \<lparr>NnNamespace = VC_CREDS_SECRET_NS, NnName = CONFIGMAP_NAME\<rparr> in
     (\<exists>tr cm. w_getConfigMap w tr k = Inr cm \<and> mlookup (CmData cm) = mlookup d \<and> cfg t = cfg s \<and>
        emits (\<lambda>c. conf_file_call c \<or> c = GetConfigMap k) s t) \<or>
     (\<exists>pre x post. trace t = trace s @ pre @ x # post \<and> wroteConfigMap x = Some d \<and>
        list_all (\<lambda>c. conf_file_call c \<or> c = GetConfigMap k) pre \<and> list_all status_call post)) \<and>
    (\<forall>ip. mlookup (VcenterMap (cpiConfigOf (cfg s) cs key)) ip =
       (case filter (\<lambda>c. VcIP (VccSpec c) = ip) cs of [] \<Rightarrow> None
        | x # xs \<Rightarrow> Some (vcenterSection key (last (x # xs)))))"
proof -
  let ?k = "\<lparr>NnNamespace = VC_CREDS_SECRET_NS, NnName = CONFIGMAP_NAME\<rparr>"
  let ?Q = "\<lambda>c. conf_file_call c \<or> c = GetConfigMap ?k"
  from cpi_config_map.recon_Ok [of w "(cs, key)" s t] assms obtain d u
    where want: "CreateVsphereConfig w cs key s = (Ok d, u)"
      and cases: "(\<exists>x v. readConfigMap w ?k u = (Ok x, v) \<and> DeepEqual_map d (CmData x) \<and> v = t) \<or>
        (\<exists>x post. trace t = trace (snd (readConfigMap w ?k u)) @ x # post \<and> wroteConfigMap x = Some d \<and> list_all status_call post)"
    by (auto simp: wantConfigMap_def runs)
  have d: "mlookup d VSPHERECONFIG = Some (p_yamlCpiConfig w (cpiConfigOf (cfg s) cs key))"
    using CreateVsphereConfig_Ok [OF want] by simp
  have "fixes_field cfg s u" by (rule keepsD [OF CreateVsphereConfig_fixed want]) simp
  then have u: "cfg u = cfg s" by (simp add: fixes_field_def)
  from keepsD [OF CreateVsphereConfig_emits want] obtain pre
    where pre: "trace u = trace s @ pre" "list_all conf_file_call pre" by (rule emitsE)
  then have pre': "list_all ?Q pre" by (auto simp: list_all_iff)
  have "(\<exists>tr cm. w_getConfigMap w tr ?k = Inr cm \<and> mlookup (CmData cm) = mlookup d \<and> cfg t = cfg s \<and> emits ?Q s t) \<or>
     (\<exists>pre x post. trace t = trace s @ pre @ x # post \<and> wroteConfigMap x = Some d \<and>
        list_all ?Q pre \<and> list_all status_call post)"
    using cases
  proof (elim disjE exE conjE)
    fix x v assume r: "readConfigMap w ?k u = (Ok x, v)" "DeepEqual_map d (CmData x)" "v = t"
    then have "w_getConfigMap w (trace u) ?k = Inr x" "cfg t = cfg s" "emits ?Q s t"
      using u pre' by (auto simp: readConfigMap_def ask_def pre(1) intro!: emitsI [of _ _ "pre @ [GetConfigMap ?k]"])
    then show ?thesis using r(2) by (auto simp: DeepEqual_map_iff)
  next
    fix x post
    assume "trace t = trace (snd (readConfigMap w ?k u)) @ x # post" "wroteConfigMap x = Some d" "list_all status_call post"
    then have "trace t = trace s @ (pre @ [GetConfigMap ?k]) @ x # post \<and> wroteConfigMap x = Some d \<and>
      list_all ?Q (pre @ [GetConfigMap ?k]) \<and> list_all status_call post"
      using pre' by (simp add: readConfigMap_def ask_def pre(1))
    then show ?thesis by blast
  qed
  moreover have "mlookup (VcenterMap (cpiConfigOf (cfg s) cs key)) ip =
       (case filter (\<lambda>c. VcIP (VccSpec c) = ip) cs of [] \<Rightarrow> None
        | x # xs \<Rightarrow> Some (vcenterSection key (last (x # xs))))" for ip
    by (simp add: cpiConfigOf_def vcenterMap_lookup split: list.split)
  ultimately show ?thesis using d unfolding Let_def by blast
qed

lemma store_config_map:
  "reconcileConfigMap store_world [lab_vcc] cpi_key lab_St = (Ok (), snd (reconcileConfigMap store_world [lab_vcc] cpi_key lab_St))"
  by (simp add: reconcileConfigMap_def CreateVsphereConfig_def createCPIConfigMap_def updateCPIPhase_def
      statusUpdateVDO_def monad_defs)

theorem reconcileConfigMap_converges_witness:
  "\<exists>d pre x post. trace (snd (reconcileConfigMap store_world [lab_vcc] cpi_key lab_St)) = pre @ x # post \<and>
     wroteConfigMap x = Some d \<and>
     mlookup d VSPHERECONFIG = Some (p_yamlCpiConfig store_world (cpiConfigOf lab_cfg [lab_vcc] cpi_key))"
  using reconcileConfigMap_converges [OF store_config_map] by (auto simp: Let_def)

lemma fetchItem_run:
  assumes "fetchItem w req i s = (r, t)" and "i < length (cloud_configs (cfg s))"
  shows "case r of
      Ok c \<Rightarrow> cfg t = cfg s \<and>
        w_getVCC w (trace s) \<lparr>NnNamespace = NnNamespace req, NnName = cloud_configs (cfg s) ! i\<rparr> = Inr c
    | Err e \<Rightarrow> \<exists>u. cfg u = cfg s \<and>
        updateCPIStatusForError w e ''unable to fetch the vsphereCloudConfig resource'' u = (Ok (), t)
    | Panic p \<Rightarrow> False"
proof -
  let ?f = "fetchVSphereCloudConfig w (cloud_configs (cfg s) ! i) (NnNamespace req)"
  let ?h = "\<lambda>e. updateCPIStatusForError w e ''unable to fetch the vsphereCloudConfig resource''"
  have run: "onErr ?f ?h s = (r, t)" using assms by (simp add: fetchItem_def bindM_def)
  show ?thesis
  proof (cases r)
    case (Ok c)
    with run have "?f s = (Ok c, t)" by (simp add: onErr_Ok_iff)
    then show ?thesis using Ok by (auto simp: fetchVSphereCloudConfig_def Let_def runs)
  next
    case (Err e)
    with run obtain u where "?f s = (Err e, u)" "?h e u = (Ok (), t)"
      by (auto simp: cpi.onErr_report_Err)
    moreover from this(1) have "cfg u = cfg s"
      by (auto simp: fetchVSphereCloudConfig_def Let_def wrapM_Err_iff ask_def)
    ultimately show ?thesis using Err by auto
  next
    case (Panic p)
    have "no_panic (onErr ?f ?h)" by (intro no_panic_intro)
    with run Panic show ?thesis by (simp add: no_panicD)
  qed
qed

lemma mapM_fetchItem:
  "\<forall>i \<in> set is. i < length (cloud_configs c) \<Longrightarrow> cfg s = c \<Longrightarrow> mapM (fetchItem w req) is s = (r, t) \<Longrightarrow>
   case r of
      Ok items \<Rightarrow> cfg t = c \<and> length items = length is \<and>
        (\<forall>j < length is. \<exists>tr. w_getVCC w tr \<lparr>NnNamespace = NnNamespace req, NnName = cloud_configs c ! (is ! j)\<rparr> = Inr (items ! j))
    | Err e \<Rightarrow> \<exists>u. cfg u = c \<and>
        updateCPIStatusForError w e ''unable to fetch the vsphereCloudConfig resource'' u = (Ok (), t)
    | Panic p \<Rightarrow> False"
proof (induction "is" arbitrary: s r t)
  case (Cons i is')
  obtain q u where step: "fetchItem w req i s = (q, u)" by force
  note one = fetchItem_run [OF step]
  show ?case
  proof (cases q)
    case (Ok x)
    obtain q' t' where rest: "mapM (fetchItem w req) is' u = (q', t')" by force
    have "mapM (fetchItem w req) (i # is') s =
      ((case q' of Ok xs \<Rightarrow> Ok (x # xs) | Err e \<Rightarrow> Err e | Panic p \<Rightarrow> Panic p), t')"
      using step rest Ok by (simp add: bindM_def split: outcome.split)
    then have "t = t'" and r: "r = (case q' of Ok xs \<Rightarrow> Ok (x # xs) | Err e \<Rightarrow> Err e | Panic p \<Rightarrow> Panic p)"
      using Cons.prems(3) by simp_all
    have x: "cfg u = c" "w_getVCC w (trace s) \<lparr>NnNamespace = NnNamespace req, NnName = cloud_configs c ! i\<rparr> = Inr x"
      using one Ok Cons.prems(1,2) by auto
    have "\<forall>i \<in> set is'. i < length (cloud_configs c)" using Cons.prems(1) by simp
    note IH = Cons.IH [OF this x(1) rest]
    show ?thesis
    proof (cases q')
      case (Ok xs)
      with IH have xs: "cfg t' = c" "length xs = length is'"
        "\<forall>j < length is'. \<exists>tr. w_getVCC w tr \<lparr>NnNamespace = NnNamespace req, NnName = cloud_configs c ! (is' ! j)\<rparr> = Inr (xs ! j)"
        by simp_all
      have "\<exists>tr. w_getVCC w tr \<lparr>NnNamespace = NnNamespace req, NnName = cloud_configs c ! ((i # is') ! j)\<rparr> = Inr ((x # xs) ! j)"
        if "j < length (i # is')" for j
      proof (cases j)
        case 0
        show ?thesis by (rule exI [of _ "trace s"]) (simp add: 0 x(2))
      next
        case (Suc k)
        with that xs(3) show ?thesis by simp
      qed
      with xs r Ok \<open>t = t'\<close> show ?thesis by simp
    qed (use IH r \<open>t = t'\<close> in simp_all)
  qed (use one step Cons.prems in \<open>auto simp: bindM_def\<close>)
qed auto

text \<open>
  The cloud configurations of CPI are fetched in the order of the specification, one per name
  and from the namespace of the request; the index never leaves the range. The first that
  cannot be fetched ends the run with its error after the status was set to Failed.
\<close>

theorem fetchItems_spec:
  assumes "fetchVsphereCloudConfigItems w req (cloud_configs (cfg s)) s = (r, t)"
  shows "case r of
      Ok items \<Rightarrow> cfg t = cfg s \<and> length items = length (cloud_configs (cfg s)) \<and>
        (\<forall>i < length items. \<exists>tr. w_getVCC w tr
           \<lparr>NnNamespace = NnNamespace req, NnName = cloud_configs (cfg s) ! i\<rparr> = Inr (items ! i))
    | Err e \<Rightarrow> \<exists>u. cfg u = cfg s \<and>
        updateCPIStatusForError w e ''unable to fetch the vsphereCloudConfig resource'' u = (Ok (), t)
    | Panic p \<Rightarrow> False"
proof -
  have "\<forall>i \<in> set [0 ..< length (cloud_configs (cfg s))]. i < length (cloud_configs (cfg s))" by simp
  from mapM_fetchItem [OF this refl assms [unfolded fetchVsphereCloudConfigItems_def]] show ?thesis
    by (cases r) auto
qed

theorem fetchItems_spec_witness:
  "cfg (snd (fetchVsphereCloudConfigItems store_world lab_req (cloud_configs (cfg lab_St)) lab_St)) = lab_cfg"
proof -
  obtain r t where run: "fetchVsphereCloudConfigItems store_world lab_req (cloud_configs (cfg lab_St)) lab_St = (r, t)"
    by force
  then have "r = Ok [lab_vcc]"
    by (auto simp: fetchVsphereCloudConfigItems_def fetchItem_def fetchVSphereCloudConfig_def monad_defs)
  with fetchItems_spec [OF run] run show ?thesis by simp
qed

end
