(* ===== verification/Node_Sync.thy ===== *)
theory Node_Sync
  imports Secrets
begin

text \<open>
  Nodes (\<^verbatim>\<open>controllers/vdoconfig_controller.go\<close>): the search of a node on the vCenters, the status
  of the nodes with respect to the cloud provider, the label that links a node to the
  \<^verbatim>\<open>VDOConfig\<close>, and the requests that events of nodes and of the matrix ConfigMap give rise to.
\<close>

section \<open>Events\<close>

text \<open>\<open>None\<close> is an object that is not a node.\<close>

definition validateNode :: "string \<Rightarrow> Node option \<Rightarrow> NamespacedName list" where
  "validateNode vdoNamespace object =
     (case object of None \<Rightarrow> []
      | Some node \<Rightarrow>
          if ProviderID node \<noteq> [] then
            (case mlookup (NodeLabels node) VDO_NODE_LABEL_KEY of
               Some vdoName \<Rightarrow> [\<lparr>NnNamespace = vdoNamespace, NnName = vdoName @ '':'' @ NodeName node\<rparr>]
             | None \<Rightarrow> [])
          else [])"

definition configMapRequests :: "string \<Rightarrow> NamespacedName \<Rightarrow> NamespacedName list" where
  "configMapRequests vdoNamespace configMap =
     (if NnNamespace configMap = vdoNamespace \<and> NnName configMap = CM_NAME
      then [\<lparr>NnNamespace = vdoNamespace, NnName = NnName configMap\<rparr>] else [])"

text \<open>How \<^verbatim>\<open>Reconcile\<close> takes a request apart: the name of the node, and the request for the resource.\<close>

definition splitRequest :: "NamespacedName \<Rightarrow> string \<times> NamespacedName" where
  "splitRequest req =
     (if Contains (NnName req) '':''
      then (Split (NnName req) (CHR '':'') ! 1, req\<lparr>NnName := Split (NnName req) (CHR '':'') ! 0\<rparr>)
      else ([], req))"

section \<open>Where a node runs\<close>

definition nodeIP :: "Node \<Rightarrow> string" where
  "nodeIP node = foldl (\<lambda>ip a. if AddrType a = NodeInternalIP then Address a else ip) [] (Addresses node)"

fun checkNodeExistence :: "'v world \<Rightarrow> VsphereCloudConfig list \<Rightarrow> Node \<Rightarrow> bool M" where
  "checkNodeExistence w [] node = ret False"
| "checkNodeExistence w (cloudConfig # cloudConfigs) node =
     bindM (getVcSession w cloudConfig)
       (\<lambda>sess. bindM (GetVMByIP w (nodeIP node) (Datacenters sess))
         (\<lambda>vm. case vm of Some _ \<Rightarrow> ret True | None \<Rightarrow> checkNodeExistence w cloudConfigs node))"

section \<open>The status of the nodes\<close>

record NodeLoop =
  LoopStatus :: "(string, NodeStatus) gomap"
  LoopPhase :: VDOConfigPhase
  AllNodesReady :: bool

definition markReady :: "Node \<Rightarrow> NodeLoop \<Rightarrow> NodeLoop" where
  "markReady node st = st\<lparr>LoopStatus := mput (LoopStatus st) (NodeName node) NodeStatusReady\<rparr>"

definition markPending :: "Node \<Rightarrow> NodeLoop \<Rightarrow> NodeLoop" where
  "markPending node st = st\<lparr>LoopStatus := mput (LoopStatus st) (NodeName node) NodeStatusPending,
     LoopPhase := Configuring, AllNodesReady := False\<rparr>"

definition unmanagedNode :: "Node \<Rightarrow> err" where
  "unmanagedNode node = Msg ('' Cloud Provider is not configured to manage the node '' @ NodeName node @
     ''. Please check your cloud Provider settings. '')"

definition uninitialized :: "Node \<Rightarrow> bool" where
  "uninitialized node \<longleftrightarrow> list_ex (\<lambda>t. TaintKey t = CLOUD_PROVIDER_INIT_TAINT_KEY) (Taints node)"

text \<open>
  The body of the loop. The first taint with the key decides: every branch for it goes on with
  the next node or returns.
\<close>

definition nodeStep ::
  "'v world \<Rightarrow> VsphereCloudConfig list \<Rightarrow> Node \<Rightarrow> NodeLoop \<Rightarrow> NodeLoop M" where
  "nodeStep w vsphereCloudConfigs node st =
     (if ProviderID node \<noteq> [] then ret (markReady node st)
      else if \<not> uninitialized node then ret st
      else bindM (getS (\<lambda>s. mlookup (node_status (cfg s)) (NodeName node)))
        (\<lambda>known. case known of Some _ \<Rightarrow> ret (markPending node st)
           | None \<Rightarrow>
               bindM (wrapM ''Error reconciling the providerID for CPI'' (checkNodeExistence w vsphereCloudConfigs node))
                 (\<lambda>nodeExistsInVC. if nodeExistsInVC then ret (markPending node st)
                    else thenM (updateCPIStatusForError w (unmanagedNode node) (Error (unmanagedNode node)))
                           (throw (unmanagedNode node)))))"

text \<open>The result tells whether the status has to be written.\<close>

definition reconcileNodeProviderID :: "'v world \<Rightarrow> VsphereCloudConfig list \<Rightarrow> bool M" where
  "reconcileNodeProviderID w vsphereCloudConfigs =
     bindM (wrapM ''Error reconciling the providerID for CPI, unable to fetch list of nodes''
              (ask ListNodes (\<lambda>t. w_listNodes w t)))
       (\<lambda>nodes. bindM (foldM (nodeStep w vsphereCloudConfigs) nodes
                  \<lparr>LoopStatus = make_map, LoopPhase = PhaseUnset, AllNodesReady = True\<rparr>)
         (\<lambda>st. if mlen (LoopStatus st) = 0 then ret False
            else (let cpiStatus = (if AllNodesReady st then Configured else LoopPhase st) in
              bindM (getS cfg)
                (\<lambda>config. if cpi_phase config \<noteq> cpiStatus \<or> \<not> DeepEqual_map (node_status config) (LoopStatus st)
                   then thenM (modCfg (upd_cpi (\<lambda>c. c\<lparr>CpiNodeStatus := LoopStatus st, CpiPhase := cpiStatus\<rparr>)))
                          (ret True)
                   else ret False))))"

section \<open>The label of the nodes\<close>

definition labelNode :: "NamespacedName \<Rightarrow> Node \<Rightarrow> Node" where
  "labelNode req node =
     (let labels = (case NodeLabels node of None \<Rightarrow> make_map | Some l \<Rightarrow> Some l) in
      node\<lparr>NodeLabels := mput labels VDO_NODE_LABEL_KEY (NnName req)\<rparr>)"

definition labelStep :: "'v world \<Rightarrow> NamespacedName \<Rightarrow> Node \<Rightarrow> unit M" where
  "labelStep w req node =
     bindM (getS (\<lambda>s. mlookup (node_status (cfg s)) (NodeName node)))
       (\<lambda>known. if known = None then ret ()
          else if mlookup (NodeLabels node) VDO_NODE_LABEL_KEY \<noteq> None then ret ()
          else wrapM ''Unable to update label on node''
                 (ask (UpdateNode (labelNode req node)) (\<lambda>t. w_updateNode w t (labelNode req node))))"

definition reconcileNodeLabel :: "'v world \<Rightarrow> NamespacedName \<Rightarrow> unit M" where
  "reconcileNodeLabel w req =
     bindM (wrapM ''unable to fetch list of nodes'' (ask ListNodes (\<lambda>t. w_listNodes w t)))
       (forM (labelStep w req))"

section \<open>Requests, fixed fields and panics\<close>

lemma checkNodeExistence_emits [keeps_intro]:
  assumes "\<And>c. reading_call c \<Longrightarrow> Q c"
  shows "keeps (emits Q) (checkNodeExistence w cs node)"
proof (induction cs)
  case (Cons c cs)
  then show ?case
    by (auto intro!: keeps_intro keeps_emits_mono [OF GetVMByIP_emits] assms)
qed (simp add: keeps_intro)

lemma GetVMByIP_fixed [keeps_intro]:
  "(\<And>s l. f (s\<lparr>trace := l\<rparr>) = f s) \<Longrightarrow> keeps (fixes_field f) (GetVMByIP w ip dcs)"
  by (induction dcs arbitrary: ip) (auto simp: Let_def intro!: keeps_intro)

lemma checkNodeExistence_fixed [keeps_intro]:
  "(\<And>s l. f (s\<lparr>trace := l\<rparr>) = f s) \<Longrightarrow> (\<And>s c. f (s\<lparr>sessionCache := c\<rparr>) = f s) \<Longrightarrow>
   keeps (fixes_field f) (checkNodeExistence w cs node)"
  by (induction cs) (auto intro!: keeps_intro)

lemma GetVMByIP_no_panic [no_panic_intro]: "no_panic (GetVMByIP w ip dcs)"
  by (induction dcs arbitrary: ip) (auto simp: Let_def intro!: no_panic_intro)

lemma checkNodeExistence_no_panic [no_panic_intro]: "no_panic (checkNodeExistence w cs node)"
  by (induction cs) (auto intro!: no_panic_intro)

definition node_call :: "call \<Rightarrow> bool" where
  "node_call c \<longleftrightarrow> reading_call c \<or> status_call c \<or> (\<exists>n. c = UpdateNode n)"

lemma node_call_simps [simp]:
  "reading_call c \<Longrightarrow> node_call c" "status_call c \<Longrightarrow> node_call c" "node_call (UpdateNode n)"
  by (simp_all add: node_call_def)

lemma node_emits [keeps_intro]:
  assumes "\<And>c. node_call c \<Longrightarrow> Q c"
  shows "keeps (emits Q) (reconcileNodeProviderID w cs)" "keeps (emits Q) (reconcileNodeLabel w req)"
  unfolding reconcileNodeProviderID_def nodeStep_def reconcileNodeLabel_def labelStep_def Let_def
  by (intro keeps_intro assms; simp)+

lemma node_fixed [keeps_intro]:
  assumes "\<And>s c l. f (s\<lparr>cfg := c, trace := l\<rparr>) = f s" "\<And>s c. f (s\<lparr>cfg := c\<rparr>) = f s"
    "\<And>s l. f (s\<lparr>trace := l\<rparr>) = f s" "\<And>s c. f (s\<lparr>sessionCache := c\<rparr>) = f s"
  shows "keeps (fixes_field f) (reconcileNodeProviderID w cs)" "keeps (fixes_field f) (reconcileNodeLabel w req)"
  unfolding reconcileNodeProviderID_def nodeStep_def reconcileNodeLabel_def labelStep_def Let_def
  by (intro keeps_intro; simp add: assms)+

lemma node_no_panic [no_panic_intro]:
  "no_panic (reconcileNodeProviderID w cs)" "no_panic (reconcileNodeLabel w req)"
  unfolding reconcileNodeProviderID_def nodeStep_def reconcileNodeLabel_def labelStep_def Let_def
  by (intro no_panic_intro; simp?)+

section \<open>The requests of node events\<close>

text \<open>
  The name of a request for a node is taken apart into the names it was made of, when the
  label and the name of the node have no colon, as Kubernetes requires of both.
\<close>

theorem node_request_roundtrip:
  assumes "validateNode ns (Some node) = [req]"
    and "mlookup (NodeLabels node) VDO_NODE_LABEL_KEY = Some vdoName"
    and "CHR '':'' \<notin> set vdoName" and "CHR '':'' \<notin> set (NodeName node)"
  shows "splitRequest req = (NodeName node, \<lparr>NnNamespace = ns, NnName = vdoName\<rparr>)"
proof -
  from assms(1,2) have req: "req = \<lparr>NnNamespace = ns, NnName = vdoName @ '':'' @ NodeName node\<rparr>"
    by (auto simp: validateNode_def split: if_splits)
  have "Split (vdoName @ '':'' @ NodeName node) (CHR '':'') = [vdoName, NodeName node]"
    using assms(3,4) by (simp add: Split_append Split_no_sep)
  then show ?thesis by (simp add: splitRequest_def req)
qed

definition lab_node :: Node where
  "lab_node = \<lparr>NodeName = ''node1'', NodeLabels = Some [(VDO_NODE_LABEL_KEY, ''vdo'')],
     ProviderID = ''vsphere://1'', Taints = [], Addresses = []\<rparr>"

theorem node_request_roundtrip_witness:
  "\<exists>req. validateNode ''ns'' (Some lab_node) = [req] \<and>
     splitRequest req = (''node1'', \<lparr>NnNamespace = ''ns'', NnName = ''vdo''\<rparr>)"
proof -
  have "validateNode ''ns'' (Some lab_node) = [\<lparr>NnNamespace = ''ns'', NnName = ''vdo:node1''\<rparr>]"
    by (simp add: validateNode_def lab_node_def mlookup_def)
  moreover have "mlookup (NodeLabels lab_node) VDO_NODE_LABEL_KEY = Some ''vdo''" "NodeName lab_node = ''node1''"
    by (simp_all add: lab_node_def mlookup_def)
  ultimately show ?thesis
    using node_request_roundtrip [of "''ns''" lab_node _ "''vdo''"] by simp
qed

section \<open>The status of the nodes as a function of the list\<close>

text \<open>The loop without its requests.\<close>

definition pureStep :: "Node \<Rightarrow> NodeLoop \<Rightarrow> NodeLoop" where
  "pureStep node st = (if ProviderID node \<noteq> [] then markReady node st
     else if uninitialized node then markPending node st else st)"

definition pending :: "Node \<Rightarrow> bool" where
  "pending node \<longleftrightarrow> ProviderID node = [] \<and> uninitialized node"

definition statusOf :: "Node \<Rightarrow> NodeStatus option" where
  "statusOf node = (if ProviderID node \<noteq> [] then Some NodeStatusReady
     else if uninitialized node then Some NodeStatusPending else None)"

lemma nodeStep_Ok:
  assumes "nodeStep w cs node st s = (Ok st', t)"
  shows "st' = pureStep node st \<and> cfg t = cfg s \<and> 
    (pending node \<longrightarrow> mlookup (node_status (cfg s)) (NodeName node) \<noteq> None \<or>
       (\<exists>u v. checkNodeExistence w cs node u = (Ok True, v)))"
proof (cases "ProviderID node \<noteq> [] \<or> \<not> uninitialized node \<or> mlookup (node_status (cfg s)) (NodeName node) \<noteq> None")
  case True
  with assms show ?thesis
    by (auto simp: nodeStep_def pureStep_def pending_def bindM_def split: if_splits)
next
  case False
  with assms obtain b u where run: "checkNodeExistence w cs node s = (Ok b, u)"
    and rest: "(if b then ret (markPending node st)
       else thenM (updateCPIStatusForError w (unmanagedNode node) (Error (unmanagedNode node)))
              (throw (unmanagedNode node))) u = (Ok st', t)"
    by (auto simp: nodeStep_def runs)
  from rest have "b" "st' = markPending node st" "u = t"
    by (auto simp: thenM_Ok_iff split: if_splits)
  moreover have "fixes_field cfg s u" by (rule keepsD [OF checkNodeExistence_fixed run]) simp_all
  ultimately show ?thesis using False run by (auto simp: pureStep_def fixes_field_def)
qed

lemma nodeLoop_Ok:
  "foldM (nodeStep w cs) nodes st s = (Ok st', t) \<Longrightarrow>
   st' = fold pureStep nodes st \<and> cfg t = cfg s \<and>
   (\<forall>node \<in> set nodes. pending node \<longrightarrow> mlookup (node_status (cfg s)) (NodeName node) \<noteq> None \<or>
       (\<exists>u v. checkNodeExistence w cs node u = (Ok True, v)))"
proof (induction nodes arbitrary: st s)
  case (Cons node nodes)
  then obtain st1 u where "nodeStep w cs node st s = (Ok st1, u)" "foldM (nodeStep w cs) nodes st1 u = (Ok st', t)"
    by (auto simp: runs)
  with nodeStep_Ok [OF this(1)] Cons.IH show ?case by fastforce
qed simp

lemma fold_pure_ready:
  "AllNodesReady (fold pureStep nodes st) \<longleftrightarrow> AllNodesReady st \<and> \<not> (\<exists>n \<in> set nodes. pending n)"
  by (induction nodes arbitrary: st) (auto simp: pureStep_def markReady_def markPending_def pending_def)

lemma fold_pure_phase:
  "LoopPhase (fold pureStep nodes st) = (if \<exists>n \<in> set nodes. pending n then Configuring else LoopPhase st)"
  by (induction nodes arbitrary: st) (auto simp: pureStep_def markReady_def markPending_def pending_def)

lemma pureStep_lookup:
  "mlookup (LoopStatus (pureStep n st)) k =
    (if k = NodeName n \<and> statusOf n \<noteq> None then statusOf n else mlookup (LoopStatus st) k)"
  by (auto simp: pureStep_def markReady_def markPending_def statusOf_def)

lemma fold_pure_other:
  "k \<notin> NodeName ` set nodes \<Longrightarrow> mlookup (LoopStatus (fold pureStep nodes st)) k = mlookup (LoopStatus st) k"
  by (induction nodes arbitrary: st) (auto simp: pureStep_def markReady_def markPending_def)

lemma fold_pure_lookup:
  "distinct (map NodeName nodes) \<Longrightarrow> node \<in> set nodes \<Longrightarrow> mlookup (LoopStatus st) (NodeName node) = None \<Longrightarrow>
   mlookup (LoopStatus (fold pureStep nodes st)) (NodeName node) = statusOf node"
proof (induction nodes arbitrary: st)
  case (Cons n nodes)
  show ?case
  proof (cases "node = n")
    case True
    with Cons.prems have "NodeName node \<notin> NodeName ` set nodes" by auto
    from fold_pure_other [OF this, of "pureStep n st"] Cons.prems(3) True show ?thesis
      by (simp add: pureStep_lookup)
  next
    case False
    with Cons.prems have "node \<in> set nodes" "NodeName n \<notin> NodeName ` set nodes" by simp_all
    then have "node \<in> set nodes" "NodeName node \<noteq> NodeName n" by (metis imageI)+
    with Cons.IH [of "pureStep n st"] Cons.prems show ?thesis
      by (simp add: pureStep_lookup)
  qed
qed simp

lemma reconcileNodeProviderID_Ok:
  assumes "reconcileNodeProviderID w cs s = (Ok b, t)" and "w_listNodes w (trace s) = Inr nodes"
  defines "st \<equiv> fold pureStep nodes \<lparr>LoopStatus = make_map, LoopPhase = PhaseUnset, AllNodesReady = True\<rparr>"
  defines "phase \<equiv> (if AllNodesReady st then Configured else LoopPhase st)"
  defines "stale \<equiv> cpi_phase (cfg s) \<noteq> phase \<or> \<not> DeepEqual_map (node_status (cfg s)) (LoopStatus st)"
  shows "b = (mlen (LoopStatus st) \<noteq> 0 \<and> stale) \<and>
    cfg t = (if b then upd_cpi (\<lambda>c. c\<lparr>CpiNodeStatus := LoopStatus st, CpiPhase := phase\<rparr>) (cfg s) else cfg s) \<and>
    (\<forall>node \<in> set nodes. pending node \<longrightarrow> mlookup (node_status (cfg s)) (NodeName node) \<noteq> None \<or>
       (\<exists>u v. checkNodeExistence w cs node u = (Ok True, v)))"
proof -
  let ?init = "\<lparr>LoopStatus = make_map, LoopPhase = PhaseUnset, AllNodesReady = True\<rparr>"
  let ?u = "s\<lparr>trace := trace s @ [ListNodes]\<rparr>"
  from assms(1,2) obtain st' v where loop: "foldM (nodeStep w cs) nodes ?init ?u = (Ok st', v)"
    and rest: "(if mlen (LoopStatus st') = 0 then ret False
            else (let cpiStatus = (if AllNodesReady st' then Configured else LoopPhase st') in
              bindM (getS cfg)
                (\<lambda>config. if cpi_phase config \<noteq> cpiStatus \<or> \<not> DeepEqual_map (node_status config) (LoopStatus st')
                   then thenM (modCfg (upd_cpi (\<lambda>c. c\<lparr>CpiNodeStatus := LoopStatus st', CpiPhase := cpiStatus\<rparr>)))
                          (ret True)
                   else ret False))) v = (Ok b, t)"
    by (auto simp: reconcileNodeProviderID_def runs)
  from nodeLoop_Ok [OF loop] have st': "st' = st" "cfg v = cfg s"
    "\<forall>node \<in> set nodes. pending node \<longrightarrow> mlookup (node_status (cfg s)) (NodeName node) \<noteq> None \<or>
       (\<exists>u v. checkNodeExistence w cs node u = (Ok True, v))"
    by (simp_all add: st_def)
  with rest show ?thesis
    by (auto simp: phase_def stale_def Let_def bindM_def thenM_def split: if_splits)
qed

lemma nodeProviderID_run:
  assumes "reconcileNodeProviderID w cs s = (Ok b, t)"
    and "w_listNodes w (trace s) = Inr nodes" and "distinct (map NodeName nodes)"
  shows "\<exists>m. (\<forall>n \<in> set nodes. mlookup m (NodeName n) = statusOf n) \<and>
      (\<forall>k. k \<notin> NodeName ` set nodes \<longrightarrow> mlookup m k = None) \<and>
      b = ((\<exists>n \<in> set nodes. statusOf n \<noteq> None) \<and>
           (cpi_phase (cfg s) \<noteq> (if \<exists>n \<in> set nodes. pending n then Configuring else Configured) \<or>
            \<not> DeepEqual_map (node_status (cfg s)) m)) \<and>
      cfg t = (if b then upd_cpi (\<lambda>c. c\<lparr>CpiNodeStatus := m,
          CpiPhase := (if \<exists>n \<in> set nodes. pending n then Configuring else Configured)\<rparr>) (cfg s) else cfg s) \<and>
      (\<forall>n \<in> set nodes. pending n \<longrightarrow> mlookup (node_status (cfg s)) (NodeName n) \<noteq> None \<or>
         (\<exists>u v. checkNodeExistence w cs n u = (Ok True, v)))"
proof -
  let ?st = "fold pureStep nodes \<lparr>LoopStatus = make_map, LoopPhase = PhaseUnset, AllNodesReady = True\<rparr>"
  have lookups: "\<forall>n \<in> set nodes. mlookup (LoopStatus ?st) (NodeName n) = statusOf n"
    using fold_pure_lookup [OF assms(3)] by simp
  have other: "\<forall>k. k \<notin> NodeName ` set nodes \<longrightarrow> mlookup (LoopStatus ?st) k = None"
    using fold_pure_other by simp
  have empty: "(mlen (LoopStatus ?st) \<noteq> 0) = (\<exists>n \<in> set nodes. statusOf n \<noteq> None)"
    unfolding mlen_zero using lookups other by (metis imageE)
  have phase: "(if AllNodesReady ?st then Configured else LoopPhase ?st) =
     (if \<exists>n \<in> set nodes. pending n then Configuring else Configured)"
    by (simp add: fold_pure_ready fold_pure_phase)
  show ?thesis
    using reconcileNodeProviderID_Ok [OF assms(1,2)] lookups other unfolding empty phase by blast
qed

text \<open>
  C21. A run over nodes with different names that succeeds computes for every node Ready if it has a
  provider ID, Pending if it waits for the cloud provider, and no status otherwise, and the
  phase Configuring while a node waits and Configured else. It changes the status (and says so)
  exactly if this differs from what is recorded and some node has a status. Every waiting node
  is already recorded or was found on a vCenter.
\<close>

theorem reconcileNodeProviderID_spec:
  assumes "reconcileNodeProviderID w cs s = (Ok b, t)"
    and "w_listNodes w (trace s) = Inr nodes" and "distinct (map NodeName nodes)"
  shows "\<exists>m. (\<forall>n \<in> set nodes. mlookup m (NodeName n) = statusOf n) \<and>
      (\<forall>k. k \<notin> NodeName ` set nodes \<longrightarrow> mlookup m k = None) \<and>
      b = ((\<exists>n \<in> set nodes. statusOf n \<noteq> None) \<and>
           (cpi_phase (cfg s) \<noteq> (if \<exists>n \<in> set nodes. pending n then Configuring else Configured) \<or>
            \<not> DeepEqual_map (node_status (cfg s)) m)) \<and>
      cfg t = (if b then upd_cpi (\<lambda>c. c\<lparr>CpiNodeStatus := m,
          CpiPhase := (if \<exists>n \<in> set nodes. pending n then Configuring else Configured)\<rparr>) (cfg s) else cfg s) \<and>
      (\<forall>n \<in> set nodes. pending n \<longrightarrow> mlookup (node_status (cfg s)) (NodeName n) \<noteq> None \<or>
         (\<exists>u v. checkNodeExistence w cs n u = (Ok True, v)))"
  by (rule nodeProviderID_run [OF assms])

definition new_node :: Node where
  "new_node = \<lparr>NodeName = ''node2'', NodeLabels = None, ProviderID = [],
     Taints = [\<lparr>TaintKey = CLOUD_PROVIDER_INIT_TAINT_KEY\<rparr>],
     Addresses = [\<lparr>AddrType = NodeInternalIP, Address = ''10.0.0.7''\<rparr>]\<rparr>"

definition nodes_world :: "nat list world" where
  "nodes_world = lab_world\<lparr>w_listNodes := \<lambda>t. Inr [lab_node, new_node],
     w_findByIp := \<lambda>t dc ip. Inr (if ip = ''10.0.0.7'' then Some 42 else None),
     w_updateNode := \<lambda>t n. Inr ()\<rparr>"

lemma nodes_world_sel [simp]:
  "w_listNodes nodes_world = (\<lambda>t. Inr [lab_node, new_node])"
  "w_findByIp nodes_world = (\<lambda>t dc ip. Inr (if ip = ''10.0.0.7'' then Some 42 else None))"
  "w_updateNode nodes_world = (\<lambda>t n. Inr ())"
  "w_getSecret nodes_world = w_getSecret lab_world" "p_parseURL nodes_world = p_parseURL lab_world"
  "w_newVimClient nodes_world = w_newVimClient lab_world" "w_login nodes_world = w_login lab_world"
  "w_findDatacenter nodes_world = w_findDatacenter lab_world"
  "ProviderID new_node = []" "uninitialized new_node" "NodeName new_node = ''node2''" "nodeIP new_node = ''10.0.0.7''"
  "ProviderID lab_node = ''vsphere://1''" "NodeName lab_node = ''node1''"
  by (simp_all add: nodes_world_def new_node_def lab_node_def uninitialized_def nodeIP_def)

lemma nodes_session:
  "sessionCache s = [] \<Longrightarrow>
   \<exists>t sess. getVcSession nodes_world lab_vcc s = (Ok sess, t) \<and> Datacenters sess = [\<lparr>DcId = 1, InventoryPath = ''/dc0''\<rparr>]"
  by (simp add: getVcSession_def fetchVcCredentials_def GetOrCreate_def cachedSession_def createSession_def
      newClient_def findDatacenters_def monad_defs)

lemma nodes_exists:
  assumes "sessionCache s = []"
  shows "\<exists>t. checkNodeExistence nodes_world [lab_vcc] new_node s = (Ok True, t) \<and> cfg t = cfg s"
proof -
  have norm: "ToLower (TrimSpace ''10.0.0.7'') = ''10.0.0.7''" by code_simp
  obtain t sess where "getVcSession nodes_world lab_vcc s = (Ok sess, t)"
    "Datacenters sess = [\<lparr>DcId = 1, InventoryPath = ''/dc0''\<rparr>]"
    using nodes_session [OF assms] by blast
  then obtain u where run: "checkNodeExistence nodes_world [lab_vcc] new_node s = (Ok True, u)"
    by (simp add: norm bindM_def ask_def)
  have "fixes_field cfg s u" by (rule keepsD [OF checkNodeExistence_fixed run]) simp_all
  with run show ?thesis by (simp add: fixes_field_def)
qed

lemma nodes_run: "fst (reconcileNodeProviderID nodes_world [lab_vcc] lab_St) = Ok True"
proof -
  let ?s = "lab_St\<lparr>trace := [ListNodes]\<rparr>"
  obtain t where t: "checkNodeExistence nodes_world [lab_vcc] new_node ?s = (Ok True, t)" "cfg t = lab_cfg"
    using nodes_exists [of ?s] by auto
  have "node_status lab_cfg = None" "cpi_phase lab_cfg = PhaseUnset"
    by (simp_all add: lab_cfg_def empty_cfg_def)
  with t show ?thesis
    by (simp add: reconcileNodeProviderID_def nodeStep_def monad_defs mlookup_def markReady_def markPending_def
        del: checkNodeExistence.simps)
qed

theorem reconcileNodeProviderID_spec_witness:
  "cpi_phase (cfg (snd (reconcileNodeProviderID nodes_world [lab_vcc] lab_St))) = Configuring \<and>
   mlookup (node_status (cfg (snd (reconcileNodeProviderID nodes_world [lab_vcc] lab_St)))) ''node2'' = Some NodeStatusPending"
proof -
  have run: "reconcileNodeProviderID nodes_world [lab_vcc] lab_St =
     (Ok True, snd (reconcileNodeProviderID nodes_world [lab_vcc] lab_St))"
    using nodes_run by (metis prod.collapse)
  have p: "pending new_node" "statusOf new_node = Some NodeStatusPending"
    by (simp_all add: pending_def statusOf_def)
  let ?t = "snd (reconcileNodeProviderID nodes_world [lab_vcc] lab_St)"
  have "w_listNodes nodes_world (trace lab_St) = Inr [lab_node, new_node]" "distinct (map NodeName [lab_node, new_node])"
    by simp_all
  from reconcileNodeProviderID_spec [OF run this] obtain m
    where m: "\<forall>n \<in> set [lab_node, new_node]. mlookup m (NodeName n) = statusOf n"
      and t: "cfg ?t = (if True then upd_cpi (\<lambda>c. c\<lparr>CpiNodeStatus := m,
          CpiPhase := (if \<exists>n \<in> set [lab_node, new_node]. pending n then Configuring else Configured)\<rparr>) (cfg lab_St)
        else cfg lab_St)"
    by (elim exE conjE)
  have "mlookup m ''node2'' = Some NodeStatusPending" using m p by simp
  moreover have "\<exists>n \<in> set [lab_node, new_node]. pending n" using p by simp
  ultimately show ?thesis unfolding t by simp
qed

section \<open>Labels\<close>

definition to_label :: "St \<Rightarrow> Node \<Rightarrow> bool" where
  "to_label s node \<longleftrightarrow> mlookup (node_status (cfg s)) (NodeName node) \<noteq> None \<and>
     mlookup (NodeLabels node) VDO_NODE_LABEL_KEY = None"

lemma labelNode_keeps:
  "mlookup (NodeLabels (labelNode req n)) k = (if k = VDO_NODE_LABEL_KEY then Some (NnName req) else mlookup (NodeLabels n) k)"
  by (cases "NodeLabels n") (simp_all add: labelNode_def mlookup_def mput_def make_map_def Let_def update_conv')

lemma labelStep_run:
  "labelStep w req node s =
    (if to_label s node
     then ((case w_updateNode w (trace s) (labelNode req node) of
              Inl e \<Rightarrow> Err (Wrapped ''Unable to update label on node'' e) | Inr u \<Rightarrow> Ok ()),
           s\<lparr>trace := trace s @ [UpdateNode (labelNode req node)]\<rparr>)
     else (Ok (), s))"
  by (auto simp: labelStep_def to_label_def bindM_def wrapM_def ask_def split: sum.split)

definition sentLabels :: "NamespacedName \<Rightarrow> Node list \<Rightarrow> call list" where
  "sentLabels req nodes = map (\<lambda>x. UpdateNode (labelNode req x)) nodes"

lemma label_loop:
  "forM (labelStep w req) nodes s = (r, t) \<Longrightarrow>
   \<exists>n \<le> length (filter (to_label s) nodes).
     t = s\<lparr>trace := trace s @ sentLabels req (take n (filter (to_label s) nodes))\<rparr> \<and>
     (r = Ok () \<and> n = length (filter (to_label s) nodes) \<or> (\<exists>e. r = Err e \<and> 0 < n))"
proof (induction nodes arbitrary: s)
  case (Cons node nodes)
  show ?case
  proof (cases "to_label s node")
    case False
    with Cons.prems have "forM (labelStep w req) nodes s = (r, t)"
      by (simp add: thenM_def bindM_def labelStep_run [of w req node s])
    from Cons.IH [OF this] False show ?thesis by simp
  next
    case True
    let ?u = "s\<lparr>trace := trace s @ [UpdateNode (labelNode req node)]\<rparr>"
    have same: "to_label ?u = to_label s" by (simp add: to_label_def fun_eq_iff)
    show ?thesis
    proof (cases "w_updateNode w (trace s) (labelNode req node)")
      case (Inl e)
      with Cons.prems True have "r = Err (Wrapped ''Unable to update label on node'' e)" "t = ?u"
        by (simp_all add: thenM_def bindM_def labelStep_run [of w req node s])
      with True show ?thesis by (intro exI [of _ 1]) (simp add: sentLabels_def)
    next
      case (Inr x)
      with Cons.prems True have "forM (labelStep w req) nodes ?u = (r, t)"
        by (simp add: thenM_def bindM_def labelStep_run [of w req node s])
      from Cons.IH [OF this] obtain n where n: "n \<le> length (filter (to_label s) nodes)"
        "t = ?u\<lparr>trace := trace ?u @ sentLabels req (take n (filter (to_label s) nodes))\<rparr>"
        "r = Ok () \<and> n = length (filter (to_label s) nodes) \<or> (\<exists>e. r = Err e \<and> 0 < n)"
        unfolding same by blast
      with True show ?thesis by (intro exI [of _ "Suc n"]) (auto simp: sentLabels_def)
    qed
  qed
qed (auto simp: sentLabels_def)

text \<open>
  Labelling sends, in the order of the list, one update for every recorded node that has no
  label yet, and no other request but the listing: the update adds the name of the request
  under the label key and keeps every other label. It stops at the first update that fails.
\<close>

theorem reconcileNodeLabel_spec:
  assumes "reconcileNodeLabel w req s = (r, t)" and "w_listNodes w (trace s) = Inr nodes"
  shows "\<exists>n \<le> length (filter (to_label s) nodes).
     t = s\<lparr>trace := trace s @ ListNodes # sentLabels req (take n (filter (to_label s) nodes))\<rparr> \<and>
     (r = Ok () \<and> n = length (filter (to_label s) nodes) \<or> (\<exists>e. r = Err e \<and> 0 < n)) \<and>
     (\<forall>x k. mlookup (NodeLabels (labelNode req x)) k =
        (if k = VDO_NODE_LABEL_KEY then Some (NnName req) else mlookup (NodeLabels x) k))"
proof -
  let ?u = "s\<lparr>trace := trace s @ [ListNodes]\<rparr>"
  have same: "to_label ?u = to_label s" by (simp add: to_label_def fun_eq_iff)
  from assms have "forM (labelStep w req) nodes ?u = (r, t)"
    by (simp add: reconcileNodeLabel_def bindM_def wrapM_def ask_def)
  from label_loop [OF this] obtain n where "n \<le> length (filter (to_label s) nodes)"
    "t = ?u\<lparr>trace := trace ?u @ sentLabels req (take n (filter (to_label s) nodes))\<rparr>"
    "r = Ok () \<and> n = length (filter (to_label s) nodes) \<or> (\<exists>e. r = Err e \<and> 0 < n)"
    unfolding same by blast
  then show ?thesis by (intro exI [of _ n]) (simp add: labelNode_keeps)
qed

definition recorded_St :: St where
  "recorded_St = lab_St\<lparr>cfg := upd_cpi (\<lambda>c. c\<lparr>CpiNodeStatus := Some [(''node1'', NodeStatusReady), (''node2'', NodeStatusReady)]\<rparr>) lab_cfg\<rparr>"

theorem reconcileNodeLabel_spec_witness:
  "trace (snd (reconcileNodeLabel nodes_world lab_req recorded_St)) = [ListNodes, UpdateNode (labelNode lab_req new_node)]"
proof -
  have f: "filter (to_label recorded_St) [lab_node, new_node] = [new_node]"
    by (simp add: to_label_def recorded_St_def mlookup_def lab_node_def new_node_def)
  obtain r t where run: "reconcileNodeLabel nodes_world lab_req recorded_St = (r, t)" by force
  have "r = Ok ()"
    using run by (auto simp: reconcileNodeLabel_def bindM_def wrapM_def ask_def thenM_def labelStep_run split: if_splits)
  moreover have "w_listNodes nodes_world (trace recorded_St) = Inr [lab_node, new_node]" by simp
  note reconcileNodeLabel_spec [OF run this, unfolded f]
  moreover have "trace recorded_St = []" by (simp add: recorded_St_def)
  ultimately show ?thesis using run by (auto simp: sentLabels_def)
qed

end
