(* ===== verification/Rollout.thy ===== *)
theory Rollout
  imports Secrets
begin

text \<open>
  The state of the deployed drivers (\<^verbatim>\<open>controllers/vdoconfig_controller.go\<close>): the readiness of the
  daemon sets, of the CSI nodes and of the driver registration; the kubelet path in the CSI
  daemon set; the feature switch in the CSI ConfigMap.
\<close>

section \<open>Readiness\<close>

definition fetchDaemonSetPodStatus :: "'v world \<Rightarrow> string \<Rightarrow> string \<Rightarrow> string \<Rightarrow> unit M" where
  "fetchDaemonSetPodStatus w deploymentName deploymentNs daemonPodkey =
     (let daemonKey = \<lparr>NnNamespace = deploymentNs, NnName = deploymentName\<rparr> in
      bindM (ask (GetDaemonSet daemonKey) (\<lambda>t. w_getDaemonSet w t daemonKey))
        (\<lambda>daemon. bindM (ask (ListPods deploymentNs daemonPodkey) (\<lambda>t. w_listPods w t deploymentNs daemonPodkey))
          (\<lambda>pods. if list_ex (\<lambda>pod. PodPhaseOf pod \<noteq> PodRunning) pods \<or> 0 < NumberUnavailable daemon
             then throw (Msg ''Some Pods are not Ready or Unavailable'') else ret ())))"

text \<open>The last loop: the first node that is not a key of the map of CSI nodes.\<close>

fun firstUnlisted :: "string list \<Rightarrow> Node list \<Rightarrow> Node option" where
  "firstUnlisted csinodes [] = None"
| "firstUnlisted csinodes (node # nodes) =
     (if NodeName node \<notin> set csinodes then Some node else firstUnlisted csinodes nodes)"

definition verifyCSINodeStatus :: "'v world \<Rightarrow> unit M" where
  "verifyCSINodeStatus w =
     bindM (wrapM ''unable to fetch list of CSI nodes'' (ask ListCSINodes (\<lambda>t. w_listCSINodes w t)))
       (\<lambda>csinodes. bindM (wrapM ''unable to fetch list of nodes'' (ask ListNodes (\<lambda>t. w_listNodes w t)))
         (\<lambda>nodes. if length nodes = length csinodes then ret ()
            else (case firstUnlisted csinodes nodes of None \<Rightarrow> ret ()
                  | Some node \<Rightarrow> throw (Msg (''not listed as csinode '' @ NodeName node)))))"

definition verifyCSIDriverRegisteration :: "'v world \<Rightarrow> unit M" where
  "verifyCSIDriverRegisteration w =
     bindM (wrapM ''unable to fetch CSI Drivers'' (ask ListCSIDrivers (\<lambda>t. w_listCSIDrivers w t)))
       (\<lambda>csidrivers. if csidrivers = [] then throw (Msg ''No CSI Drivers registered'') else ret ())"

definition reconcileCPIDeploymentStatus :: "'v world \<Rightarrow> unit M" where
  "reconcileCPIDeploymentStatus w =
     wrapM ''unable to get CPI DaemonSet Pod Status''
       (fetchDaemonSetPodStatus w CPI_DEPLOYMENT_NAME DEPLOYMENT_NS CPI_DAEMON_POD_KEY)"

definition reconcileCSIDeploymentStatus :: "'v world \<Rightarrow> unit M" where
  "reconcileCSIDeploymentStatus w =
     bindM (getS CsiNamespace)
       (\<lambda>ns. thenM (wrapM ''unable to get CSI DaemonSet Pod Status''
                      (fetchDaemonSetPodStatus w CSI_DAEMONSET_NAME ns CSI_DAEMON_POD_KEY))
         (thenM (wrapM ''unable to get CSI Node Status'' (verifyCSINodeStatus w))
           (wrapM ''unable to register CSI Driver'' (verifyCSIDriverRegisteration w))))"

section \<open>The kubelet path\<close>

definition kubeletDefaultPath :: string where
  "kubeletDefaultPath = ''/var/lib/kubelet''"

definition podVolName :: string where "podVolName = ''pods-mount-dir''"
definition pluginDir :: string where "pluginDir = ''plugin-dir''"
definition registrationDir :: string where "registrationDir = ''registration-dir''"
definition csiDaemonSetName :: string where "csiDaemonSetName = ''vsphere-csi-node''"
definition csiNodeDriverRegName :: string where "csiNodeDriverRegName = ''node-driver-registrar''"

text \<open>
  The loops change the daemon set in place, through the pointer to the host path and through the
  index; each returns the changed list and whether it changed anything.
\<close>

fun relocateVolumes :: "string \<Rightarrow> Volume list \<Rightarrow> (Volume list \<times> bool) outcome" where
  "relocateVolumes kubPath [] = Ok ([], False)"
| "relocateVolumes kubPath (vol # vols) =
     (if VolumeName vol \<in> {podVolName, pluginDir, registrationDir} then
        (case HostPath vol of
           None \<Rightarrow> Panic ''nil pointer dereference''
         | Some path \<Rightarrow>
             bindO (relocateVolumes kubPath vols)
               (\<lambda>(vols', b). if HasPrefix path kubeletDefaultPath
                  then Ok (vol\<lparr>HostPath := Some (Replace1 path kubeletDefaultPath kubPath)\<rparr> # vols', True)
                  else Ok (vol # vols', b)))
      else bindO (relocateVolumes kubPath vols) (\<lambda>(vols', b). Ok (vol # vols', b)))"

text \<open>Changing the first element of a list that satisfies a condition (\<^verbatim>\<open>break\<close> after the write).\<close>

fun changeFirst :: "('a \<Rightarrow> bool) \<Rightarrow> ('a \<Rightarrow> 'a) \<Rightarrow> 'a list \<Rightarrow> 'a list \<times> bool" where
  "changeFirst P f [] = ([], False)"
| "changeFirst P f (x # xs) =
     (if P x then (f x # xs, True) else (case changeFirst P f xs of (ys, b) \<Rightarrow> (x # ys, b)))"

definition atDefault :: "string \<Rightarrow> bool" where
  "atDefault path \<longleftrightarrow> Contains path kubeletDefaultPath"

definition relocate :: "string \<Rightarrow> string \<Rightarrow> string" where
  "relocate kubPath path = Replace1 path kubeletDefaultPath kubPath"

definition relocateMounts :: "string \<Rightarrow> Container \<Rightarrow> Container \<times> bool" where
  "relocateMounts kubPath con =
     (case changeFirst (\<lambda>vm. MountName vm = podVolName \<and> atDefault (MountPath vm))
             (\<lambda>vm. vm\<lparr>MountPath := relocate kubPath (MountPath vm)\<rparr>) (VolumeMounts con) of
        (ms, b) \<Rightarrow> (con\<lparr>VolumeMounts := ms\<rparr>, b))"

definition relocateEnv :: "string \<Rightarrow> Container \<Rightarrow> Container \<times> bool" where
  "relocateEnv kubPath con =
     (case changeFirst (\<lambda>e. EnvName e = CSI_DRIVER_REG_PATH \<and> atDefault (EnvValue e))
             (\<lambda>e. e\<lparr>EnvValue := relocate kubPath (EnvValue e)\<rparr>) (ContainerEnv con) of
        (es, b) \<Rightarrow> (con\<lparr>ContainerEnv := es\<rparr>, b))"

definition relocateProbe :: "string \<Rightarrow> Container \<Rightarrow> Container \<times> bool" where
  "relocateProbe kubPath con =
     (case LivenessProbe con of
        Some (Some cmds) \<Rightarrow>
          (case changeFirst atDefault (relocate kubPath) cmds of
             (cs, b) \<Rightarrow> (con\<lparr>LivenessProbe := Some (Some cs)\<rparr>, b))
      | _ \<Rightarrow> (con, False))"

definition relocateContainer :: "string \<Rightarrow> Container \<Rightarrow> Container \<times> bool" where
  "relocateContainer kubPath con =
     (if ContainerName con = csiDaemonSetName then relocateMounts kubPath con
      else if ContainerName con = csiNodeDriverRegName then
        (case relocateEnv kubPath con of (con1, b1) \<Rightarrow>
          (case relocateProbe kubPath con1 of (con2, b2) \<Rightarrow> (con2, b1 \<or> b2)))
      else (con, False))"

fun relocateContainers :: "string \<Rightarrow> Container list \<Rightarrow> Container list \<times> bool" where
  "relocateContainers kubPath [] = ([], False)"
| "relocateContainers kubPath (con # cons) =
     (case relocateContainer kubPath con of (con', b) \<Rightarrow>
       (case relocateContainers kubPath cons of (cons', c) \<Rightarrow> (con' # cons', b \<or> c)))"

definition relocateDaemonSet :: "string \<Rightarrow> DaemonSet \<Rightarrow> (DaemonSet \<times> bool) outcome" where
  "relocateDaemonSet kubPath ds =
     bindO (relocateVolumes kubPath (Volumes ds))
       (\<lambda>(vols, b). case relocateContainers kubPath (Containers ds) of
          (cons, c) \<Rightarrow> Ok (ds\<lparr>Volumes := vols, Containers := cons\<rparr>, b \<or> c))"

definition updateCSIDaemonSet :: "'v world \<Rightarrow> string \<Rightarrow> unit M" where
  "updateCSIDaemonSet w kubPath =
     bindM (getS (\<lambda>s. \<lparr>NnNamespace = CsiNamespace s, NnName = CSI_DAEMONSET_NAME\<rparr>))
       (\<lambda>key. bindM (ask (GetDaemonSet key) (\<lambda>t. w_getDaemonSet w t key))
         (\<lambda>ds. bindM (liftO (relocateDaemonSet kubPath ds))
           (\<lambda>(ds', updateDS). if updateDS then ask (UpdateDaemonSet ds') (\<lambda>t. w_updateDaemonSet w t ds')
              else ret ())))"

section \<open>The feature switch\<close>

definition updateCSIConfigmap :: "'v world \<Rightarrow> unit M" where
  "updateCSIConfigmap w =
     bindM (getS (\<lambda>s. \<lparr>NnNamespace = CsiNamespace s, NnName = CSI_FSS_CONFIGMAP\<rparr>))
       (\<lambda>configKey. bindM (ask (GetConfigMap configKey) (\<lambda>t. w_getConfigMap w t configKey))
         (\<lambda>configMap. if CmData configMap \<noteq> None
            then (let configMap1 = configMap\<lparr>CmData := mput (CmData configMap) CSI_NODE_ID ''true''\<rparr> in
                  ask (UpdateConfigMapReq configMap1) (\<lambda>t. w_updateConfigMap w t configMap1))
            else ret ()))"

section \<open>Requests, fixed fields and panics\<close>

definition rollout_call :: "call \<Rightarrow> bool" where
  "rollout_call c \<longleftrightarrow> reading_call c \<or> (\<exists>ds. c = UpdateDaemonSet ds) \<or> (\<exists>cm. c = UpdateConfigMapReq cm)"

lemma rollout_call_simps [simp]:
  "reading_call c \<Longrightarrow> rollout_call c" "rollout_call (UpdateDaemonSet ds)" "rollout_call (UpdateConfigMapReq cm)"
  by (simp_all add: rollout_call_def)

lemmas rollout_defs = fetchDaemonSetPodStatus_def verifyCSINodeStatus_def verifyCSIDriverRegisteration_def
  reconcileCPIDeploymentStatus_def reconcileCSIDeploymentStatus_def Let_def

lemma status_reads [keeps_intro]:
  assumes "\<And>c. reading_call c \<Longrightarrow> Q c"
  shows "keeps (emits Q) (reconcileCPIDeploymentStatus w)" "keeps (emits Q) (reconcileCSIDeploymentStatus w)"
  unfolding rollout_defs by (intro keeps_intro assms; simp)+

lemma update_emits [keeps_intro]:
  assumes "\<And>c. rollout_call c \<Longrightarrow> Q c"
  shows "keeps (emits Q) (updateCSIDaemonSet w kubPath)" "keeps (emits Q) (updateCSIConfigmap w)"
  unfolding updateCSIDaemonSet_def updateCSIConfigmap_def Let_def by (intro keeps_intro assms; simp)+

lemma rollout_fixed [keeps_intro]:
  assumes "\<And>s l. f (s\<lparr>trace := l\<rparr>) = f s"
  shows "keeps (fixes_field f) (reconcileCPIDeploymentStatus w)" "keeps (fixes_field f) (reconcileCSIDeploymentStatus w)"
    "keeps (fixes_field f) (updateCSIDaemonSet w kubPath)" "keeps (fixes_field f) (updateCSIConfigmap w)"
  unfolding rollout_defs updateCSIDaemonSet_def updateCSIConfigmap_def by (intro keeps_intro; simp add: assms)+

lemma rollout_no_panic [no_panic_intro]:
  "no_panic (reconcileCPIDeploymentStatus w)" "no_panic (reconcileCSIDeploymentStatus w)"
  "no_panic (updateCSIConfigmap w)"
  unfolding rollout_defs updateCSIConfigmap_def by (intro no_panic_intro; simp?)+

section \<open>Properties of readiness\<close>

lemma firstUnlisted_None: "firstUnlisted csinodes nodes = None \<longleftrightarrow> list_all (\<lambda>n. NodeName n \<in> set csinodes) nodes"
  by (induction nodes) auto

lemma fetchDaemonSet_Ok:
  "fetchDaemonSetPodStatus w name ns key s = (Ok (), t) \<longleftrightarrow>
   (\<exists>ds pods. w_getDaemonSet w (trace s) \<lparr>NnNamespace = ns, NnName = name\<rparr> = Inr ds \<and>
      w_listPods w (trace s @ [GetDaemonSet \<lparr>NnNamespace = ns, NnName = name\<rparr>]) ns key = Inr pods \<and>
      list_all (\<lambda>p. PodPhaseOf p = PodRunning) pods \<and> NumberUnavailable ds \<le> 0 \<and>
      t = s\<lparr>trace := trace s @ [GetDaemonSet \<lparr>NnNamespace = ns, NnName = name\<rparr>, ListPods ns key]\<rparr>)"
  by (auto simp: fetchDaemonSetPodStatus_def Let_def bindM_def ask_def outcome_of_def list_ex_iff list_all_iff
      split: sum.split if_splits)

lemma verifyCSINodes_Ok:
  "verifyCSINodeStatus w s = (Ok (), t) \<longleftrightarrow>
   (\<exists>csinodes nodes. w_listCSINodes w (trace s) = Inr csinodes \<and>
      w_listNodes w (trace s @ [ListCSINodes]) = Inr nodes \<and>
      (length nodes = length csinodes \<or> list_all (\<lambda>n. NodeName n \<in> set csinodes) nodes) \<and>
      t = s\<lparr>trace := trace s @ [ListCSINodes, ListNodes]\<rparr>)"
  by (auto simp: verifyCSINodeStatus_def bindM_def wrapM_def ask_def outcome_of_def
      firstUnlisted_None [symmetric] split: sum.split option.split if_splits)

lemma verifyCSIDriver_Ok:
  "verifyCSIDriverRegisteration w s = (Ok (), t) \<longleftrightarrow>
   (\<exists>ds. w_listCSIDrivers w (trace s) = Inr ds \<and> ds \<noteq> [] \<and> t = s\<lparr>trace := trace s @ [ListCSIDrivers]\<rparr>)"
  by (auto simp: verifyCSIDriverRegisteration_def runs)

text \<open>
  The CSI driver counts as deployed exactly if the daemon set exists without unavailable pods,
  all pods with the label are running, the CSI nodes are as many as the nodes or include every
  node, and a CSI driver is registered; each fact is that of its own request.
\<close>

theorem reconcileCSIDeploymentStatus_iff:
  "(\<exists>t. reconcileCSIDeploymentStatus w s = (Ok (), t)) \<longleftrightarrow>
   (\<exists>ds pods csinodes nodes drivers.
      (let key = \<lparr>NnNamespace = CsiNamespace s, NnName = CSI_DAEMONSET_NAME\<rparr>;
           t1 = trace s @ [GetDaemonSet key];
           t2 = t1 @ [ListPods (CsiNamespace s) CSI_DAEMON_POD_KEY] in
       w_getDaemonSet w (trace s) key = Inr ds \<and> NumberUnavailable ds \<le> 0 \<and>
       w_listPods w t1 (CsiNamespace s) CSI_DAEMON_POD_KEY = Inr pods \<and>
       list_all (\<lambda>p. PodPhaseOf p = PodRunning) pods \<and>
       w_listCSINodes w t2 = Inr csinodes \<and> w_listNodes w (t2 @ [ListCSINodes]) = Inr nodes \<and>
       (length nodes = length csinodes \<or> list_all (\<lambda>n. NodeName n \<in> set csinodes) nodes) \<and>
       w_listCSIDrivers w (t2 @ [ListCSINodes, ListNodes]) = Inr drivers \<and> drivers \<noteq> []))"
    (is "?run \<longleftrightarrow> ?facts")
proof -
  have "?run \<longleftrightarrow> (\<exists>u. fetchDaemonSetPodStatus w CSI_DAEMONSET_NAME (CsiNamespace s) CSI_DAEMON_POD_KEY s = (Ok (), u) \<and>
     (\<exists>v. verifyCSINodeStatus w u = (Ok (), v) \<and> (\<exists>t. verifyCSIDriverRegisteration w v = (Ok (), t))))"
    by (auto simp: reconcileCSIDeploymentStatus_def runs)
  also have "\<dots> \<longleftrightarrow> ?facts"
    unfolding fetchDaemonSet_Ok verifyCSINodes_Ok verifyCSIDriver_Ok Let_def by auto
  finally show ?thesis .
qed

text \<open>
  If every CSI node belongs to a node of the cluster, a check of the CSI nodes that succeeds
  means that every node of the cluster is listed as a CSI node, also when the code only
  compares the two numbers.
\<close>

theorem verifyCSINodes_sound:
  assumes "verifyCSINodeStatus w s = (Ok (), t)"
    and "w_listCSINodes w (trace s) = Inr csinodes" and "w_listNodes w (trace s @ [ListCSINodes]) = Inr nodes"
    and "distinct csinodes" and "set csinodes \<subseteq> NodeName ` set nodes"
  shows "\<forall>n \<in> set nodes. NodeName n \<in> set csinodes"
proof -
  from assms(1-3) consider "length nodes = length csinodes" | "list_all (\<lambda>n. NodeName n \<in> set csinodes) nodes"
    by (auto simp: verifyCSINodes_Ok)
  then show ?thesis
  proof cases
    case 1
    have "card (NodeName ` set nodes) \<le> length nodes"
      by (metis card_image_le List.finite_set card_length le_trans)
    with 1 assms(4) have "card (NodeName ` set nodes) \<le> card (set csinodes)" by (simp add: distinct_card)
    with assms(5) have "set csinodes = NodeName ` set nodes" by (intro card_seteq) auto
    then show ?thesis by auto
  qed (auto simp: list_all_iff)
qed

definition two_nodes :: "Node list" where
  "two_nodes = [\<lparr>NodeName = ''n1'', NodeLabels = None, ProviderID = [], Taints = [], Addresses = []\<rparr>,
                \<lparr>NodeName = ''n2'', NodeLabels = None, ProviderID = [], Taints = [], Addresses = []\<rparr>]"

definition csi_nodes_world :: "string list \<Rightarrow> nat list world" where
  "csi_nodes_world names = down_world\<lparr>w_listCSINodes := \<lambda>t. Inr names, w_listNodes := \<lambda>t. Inr two_nodes\<rparr>"

lemma csi_nodes_sel [simp]:
  "w_listCSINodes (csi_nodes_world names) = (\<lambda>t. Inr names)" "w_listNodes (csi_nodes_world names) = (\<lambda>t. Inr two_nodes)"
  by (simp_all add: csi_nodes_world_def)

theorem verifyCSINodes_sound_witness:
  "\<exists>t. verifyCSINodeStatus (csi_nodes_world [''n2'', ''n1'']) init_St = (Ok (), t) \<and>
     (\<forall>n \<in> set two_nodes. NodeName n \<in> {''n1'', ''n2''})"
proof -
  have run: "verifyCSINodeStatus (csi_nodes_world [''n2'', ''n1'']) init_St =
     (Ok (), init_St\<lparr>trace := [ListCSINodes, ListNodes]\<rparr>)"
    by (simp add: verifyCSINodes_Ok two_nodes_def)
  from verifyCSINodes_sound [OF run, of "[''n2'', ''n1'']" two_nodes] run show ?thesis
    by (auto simp: two_nodes_def)
qed

text \<open>
  Without that assumption the check is fooled: as soon as the numbers agree it succeeds, for
  instance when the CSI node of a deleted machine is still there and a new node has none.
\<close>

theorem verifyCSINodes_counts_only:
  assumes "w_listCSINodes w (trace s) = Inr csinodes" and "w_listNodes w (trace s @ [ListCSINodes]) = Inr nodes"
    and "length nodes = length csinodes"
  shows "verifyCSINodeStatus w s = (Ok (), s\<lparr>trace := trace s @ [ListCSINodes, ListNodes]\<rparr>)"
  using assms by (simp add: verifyCSINodes_Ok)

theorem verifyCSINodes_counts_only_witness:
  "fst (verifyCSINodeStatus (csi_nodes_world [''n1'', ''gone'']) init_St) = Ok () \<and>
   (\<exists>n \<in> set two_nodes. NodeName n \<notin> {''n1'', ''gone''})"
  using verifyCSINodes_counts_only [of "csi_nodes_world [''n1'', ''gone'']" init_St "[''n1'', ''gone'']" two_nodes]
  by (simp add: two_nodes_def)

section \<open>Properties of the kubelet path\<close>

text \<open>
  What is left to relocate: the volumes, mounts, variables and commands that the code would
  change, counted. \<open>relocatable\<close> are their paths.
\<close>

definition volDefault :: "Volume \<Rightarrow> bool" where
  "volDefault v \<longleftrightarrow> VolumeName v \<in> {podVolName, pluginDir, registrationDir} \<and>
     (\<exists>p. HostPath v = Some p \<and> HasPrefix p kubeletDefaultPath)"

definition mountDefault :: "VolumeMount \<Rightarrow> bool" where
  "mountDefault vm \<longleftrightarrow> MountName vm = podVolName \<and> atDefault (MountPath vm)"

definition envDefault :: "EnvVar \<Rightarrow> bool" where
  "envDefault e \<longleftrightarrow> EnvName e = CSI_DRIVER_REG_PATH \<and> atDefault (EnvValue e)"

definition probeCmds :: "Container \<Rightarrow> string list" where
  "probeCmds con = (case LivenessProbe con of Some (Some cmds) \<Rightarrow> cmds | _ \<Rightarrow> [])"

definition conDefaults :: "Container \<Rightarrow> nat" where
  "conDefaults con =
     (if ContainerName con = csiDaemonSetName then length (filter mountDefault (VolumeMounts con))
      else if ContainerName con = csiNodeDriverRegName
      then length (filter envDefault (ContainerEnv con)) + length (filter atDefault (probeCmds con)) else 0)"

definition dsDefaults :: "DaemonSet \<Rightarrow> nat" where
  "dsDefaults ds = length (filter volDefault (Volumes ds)) + sum_list (map conDefaults (Containers ds))"

definition conPaths :: "Container \<Rightarrow> string set" where
  "conPaths con = MountPath ` set (VolumeMounts con) \<union> EnvValue ` set (ContainerEnv con) \<union> set (probeCmds con)"

definition dsPaths :: "DaemonSet \<Rightarrow> string set" where
  "dsPaths ds = {p. \<exists>v \<in> set (Volumes ds). HostPath v = Some p} \<union> (\<Union>con \<in> set (Containers ds). conPaths con)"

text \<open>The new path has no occurrence of the default one in any of the given paths.\<close>

definition clears :: "string \<Rightarrow> string set \<Rightarrow> bool" where
  "clears kubPath ps \<longleftrightarrow> (\<forall>p \<in> ps. atDefault p \<longrightarrow> \<not> atDefault (relocate kubPath p))"

lemma clearsD: "clears kubPath ps \<Longrightarrow> p \<in> ps \<Longrightarrow> atDefault p \<Longrightarrow> \<not> atDefault (relocate kubPath p)"
  by (simp add: clears_def)

lemma clears_mono: "clears kubPath ps \<Longrightarrow> qs \<subseteq> ps \<Longrightarrow> clears kubPath qs"
  by (auto simp: clears_def)

lemma changeFirst_count:
  assumes "changeFirst P f xs = (ys, b)" and "\<And>x. x \<in> set xs \<Longrightarrow> P x \<Longrightarrow> \<not> P (f x)"
  shows "if b then length (filter P xs) = Suc (length (filter P ys)) else ys = xs"
  using assms by (induction xs arbitrary: ys) (auto split: if_splits prod.splits)

lemma relocateMounts_count:
  assumes "relocateMounts k con = (con', b)" and "clears k (conPaths con)"
    and "ContainerName con = csiDaemonSetName"
  shows "if b then conDefaults con = Suc (conDefaults con') else con' = con"
proof -
  obtain ms where ms: "changeFirst mountDefault (\<lambda>vm. vm\<lparr>MountPath := relocate k (MountPath vm)\<rparr>) (VolumeMounts con) = (ms, b)"
    and con': "con' = con\<lparr>VolumeMounts := ms\<rparr>"
    using assms(1) by (auto simp: relocateMounts_def mountDefault_def [abs_def] split: prod.splits)
  have "\<not> mountDefault (x\<lparr>MountPath := relocate k (MountPath x)\<rparr>)" if "x \<in> set (VolumeMounts con)" "mountDefault x" for x
    using that clearsD [OF assms(2), of "MountPath x"] by (auto simp: mountDefault_def conPaths_def)
  from changeFirst_count [OF ms this] con' assms(3) show ?thesis by (auto simp: conDefaults_def)
qed

lemma relocateEnv_count:
  assumes "relocateEnv k con = (con', b)" and "clears k (conPaths con)"
    and "ContainerName con = csiNodeDriverRegName"
  shows "(if b then conDefaults con = Suc (conDefaults con') else con' = con) \<and>
    ContainerName con' = csiNodeDriverRegName \<and> probeCmds con' = probeCmds con"
proof -
  obtain es where es: "changeFirst envDefault (\<lambda>e. e\<lparr>EnvValue := relocate k (EnvValue e)\<rparr>) (ContainerEnv con) = (es, b)"
    and con': "con' = con\<lparr>ContainerEnv := es\<rparr>"
    using assms(1) by (auto simp: relocateEnv_def envDefault_def [abs_def] split: prod.splits)
  have "\<not> envDefault (x\<lparr>EnvValue := relocate k (EnvValue x)\<rparr>)" if "x \<in> set (ContainerEnv con)" "envDefault x" for x
    using that clearsD [OF assms(2), of "EnvValue x"] by (auto simp: envDefault_def conPaths_def)
  from changeFirst_count [OF es this] con' assms(3) show ?thesis
    by (auto simp: conDefaults_def probeCmds_def csiNodeDriverRegName_def csiDaemonSetName_def split: if_splits)
qed

lemma relocateProbe_count:
  assumes "relocateProbe k con = (con', b)" and "clears k (set (probeCmds con))"
    and "ContainerName con = csiNodeDriverRegName"
  shows "if b then conDefaults con = Suc (conDefaults con') else con' = con"
proof (cases "\<exists>cmds. LivenessProbe con = Some (Some cmds)")
  case True
  then obtain cmds where cmds: "LivenessProbe con = Some (Some cmds)" by blast
  with assms(1) obtain cs where cs: "changeFirst atDefault (relocate k) cmds = (cs, b)"
    and con': "con' = con\<lparr>LivenessProbe := Some (Some cs)\<rparr>"
    by (auto simp: relocateProbe_def split: prod.splits)
  have "\<not> atDefault (relocate k x)" if "x \<in> set cmds" "atDefault x" for x
    using that clearsD [OF assms(2)] cmds by (simp add: probeCmds_def)
  from changeFirst_count [OF cs this] con' cmds assms(3) show ?thesis
    by (auto simp: conDefaults_def probeCmds_def csiNodeDriverRegName_def csiDaemonSetName_def split: if_splits)
qed (use assms(1) in \<open>auto simp: relocateProbe_def split: option.splits\<close>)

lemma relocateContainer_count:
  assumes "relocateContainer k con = (con', b)" and "clears k (conPaths con)"
  shows "if b then conDefaults con' < conDefaults con else con' = con"
proof -
  consider "ContainerName con = csiDaemonSetName" | "ContainerName con = csiNodeDriverRegName"
    "ContainerName con \<noteq> csiDaemonSetName"
    | "ContainerName con \<notin> {csiDaemonSetName, csiNodeDriverRegName}" by blast
  then show ?thesis
  proof cases
    case 1
    with relocateMounts_count [OF _ assms(2)] assms(1) show ?thesis
      by (fastforce simp: relocateContainer_def)
  next
    case 2
    obtain con1 b1 b2 where e: "relocateEnv k con = (con1, b1)" and p: "relocateProbe k con1 = (con', b2)"
      and b: "b = (b1 \<or> b2)"
      using assms(1) 2 by (auto simp: relocateContainer_def split: prod.splits)
    note env = relocateEnv_count [OF e assms(2) 2(1)]
    have "clears k (set (probeCmds con1))"
      using env by (intro clears_mono [OF assms(2)]) (auto simp: conPaths_def)
    from relocateProbe_count [OF p this] env b show ?thesis by (cases b1; cases b2) auto
  qed (use assms(1) in \<open>auto simp: relocateContainer_def\<close>)
qed

lemma relocateContainers_count:
  "relocateContainers k cons = (cons', b) \<Longrightarrow> clears k (\<Union>con \<in> set cons. conPaths con) \<Longrightarrow>
   if b then sum_list (map conDefaults cons') < sum_list (map conDefaults cons) else cons' = cons"
proof (induction cons arbitrary: cons' b)
  case (Cons con cons)
  obtain con1 b1 cons1 b2 where c: "relocateContainer k con = (con1, b1)" "relocateContainers k cons = (cons1, b2)"
    by (meson surj_pair)
  from Cons.prems(1) c have r: "cons' = con1 # cons1" "b = (b1 \<or> b2)" by auto
  have "if b1 then conDefaults con1 < conDefaults con else con1 = con"
    by (rule relocateContainer_count [OF c(1)]) (rule clears_mono [OF Cons.prems(2)], auto)
  moreover have "if b2 then sum_list (map conDefaults cons1) < sum_list (map conDefaults cons) else cons1 = cons"
    by (rule Cons.IH [OF c(2)]) (rule clears_mono [OF Cons.prems(2)], auto)
  ultimately show ?case using r by (cases b1; cases b2) auto
qed simp

lemma relocateVolumes_count:
  "relocateVolumes k vols = Ok (vols', b) \<Longrightarrow> clears k {p. \<exists>v \<in> set vols. HostPath v = Some p} \<Longrightarrow>
   if b then length (filter volDefault vols') < length (filter volDefault vols) else vols' = vols"
proof (induction vols arbitrary: vols' b)
  case (Cons v vols)
  have clears: "clears k {p. \<exists>v \<in> set vols. HostPath v = Some p}"
    by (rule clears_mono [OF Cons.prems(2)]) auto
  from Cons.prems(1) obtain ws c where rest: "relocateVolumes k vols = Ok (ws, c)"
    by (auto simp: bindO_Ok_iff split: if_splits option.splits)
  note IH = Cons.IH [OF rest clears]
  show ?case
  proof (cases "volDefault v")
    case True
    then obtain p where p: "HostPath v = Some p" "HasPrefix p kubeletDefaultPath" by (auto simp: volDefault_def)
    with Cons.prems(1) rest True have r: "vols' = v\<lparr>HostPath := Some (relocate k p)\<rparr> # ws" "b"
      by (auto simp: volDefault_def relocate_def)
    have "atDefault p" using p(2) by (simp add: atDefault_def HasPrefix_Contains)
    then have "\<not> HasPrefix (relocate k p) kubeletDefaultPath"
      using clearsD [OF Cons.prems(2), of p] p(1) HasPrefix_Contains by (auto simp: atDefault_def)
    then have "\<not> volDefault (v\<lparr>HostPath := Some (relocate k p)\<rparr>)" by (auto simp: volDefault_def)
    with r IH True show ?thesis by (auto split: if_splits)
  next
    case False
    with Cons.prems(1) rest have "vols' = v # ws" "b = c"
      by (auto simp: volDefault_def split: if_splits option.splits)
    with IH False show ?thesis by simp
  qed
qed simp

lemma relocateVolumes_not_Err: "relocateVolumes k vols \<noteq> Err e"
proof (induction vols)
  case (Cons v vols)
  then show ?case by (cases "relocateVolumes k vols") (auto split: option.splits if_splits)
qed simp

lemma relocateDaemonSet_count:
  assumes "relocateDaemonSet k ds = Ok (ds', b)" and "clears k (dsPaths ds)"
  shows "if b then dsDefaults ds' < dsDefaults ds else ds' = ds"
proof -
  obtain cons b2 where c: "relocateContainers k (Containers ds) = (cons, b2)" by force
  with assms(1) obtain vols b1 where v: "relocateVolumes k (Volumes ds) = Ok (vols, b1)"
    and r: "ds' = ds\<lparr>Volumes := vols, Containers := cons\<rparr>" "b = (b1 \<or> b2)"
    by (auto simp: relocateDaemonSet_def bindO_Ok_iff)
  have "if b1 then length (filter volDefault vols) < length (filter volDefault (Volumes ds)) else vols = Volumes ds"
    by (rule relocateVolumes_count [OF v]) (rule clears_mono [OF assms(2)], auto simp: dsPaths_def)
  moreover have "if b2 then sum_list (map conDefaults cons) < sum_list (map conDefaults (Containers ds)) else cons = Containers ds"
    by (rule relocateContainers_count [OF c]) (rule clears_mono [OF assms(2)], auto simp: dsPaths_def)
  ultimately show ?thesis using r by (cases b1; cases b2) (auto simp: dsDefaults_def)
qed


definition lab_ds :: DaemonSet where
  "lab_ds = \<lparr>DsKey = \<lparr>NnNamespace = ''vmware-system-csi'', NnName = ''vsphere-csi-node''\<rparr>, NumberUnavailable = 0,
     Volumes = [\<lparr>VolumeName = ''plugin-dir'', HostPath = Some ''/var/lib/kubelet/plugins''\<rparr>], Containers = []\<rparr>"

definition ds_world :: "nat list world" where
  "ds_world = down_world\<lparr>w_getDaemonSet := \<lambda>t k. Inr lab_ds, w_updateDaemonSet := \<lambda>t d. Inr ()\<rparr>"

lemma ds_world_sel [simp]:
  "w_getDaemonSet ds_world = (\<lambda>t k. Inr lab_ds)" "w_updateDaemonSet ds_world = (\<lambda>t d. Inr ())"
  by (simp_all add: ds_world_def)


text \<open>
  A kubelet path that extends the default path is never settled: a volume at the default path
  gets a new path that is again at the default path, one extension longer, so every run sends
  an update with a longer path.
\<close>

theorem updateCSIDaemonSet_never_settles:
  assumes "HasPrefix kubPath kubeletDefaultPath"
    and "v \<in> set (Volumes ds)" and "volDefault v" and "HostPath v = Some (kubeletDefaultPath @ rest)"
    and "relocateDaemonSet kubPath ds = Ok (ds', b)"
  shows "b \<and> (\<exists>v' \<in> set (Volumes ds'). volDefault v' \<and> HostPath v' = Some (kubPath @ rest))"
proof -
  have step: "c \<and> v\<lparr>HostPath := Some (kubPath @ rest)\<rparr> \<in> set vols'"
    if "relocateVolumes kubPath vols = Ok (vols', c)" "v \<in> set vols" for vols vols' c
    using that
  proof (induction vols arbitrary: vols' c)
    case (Cons x vols)
    from Cons.prems(1) obtain ws d where rest: "relocateVolumes kubPath vols = Ok (ws, d)"
      by (auto simp: bindO_Ok_iff split: if_splits option.splits)
    have r: "Replace1 (kubeletDefaultPath @ rest) kubeletDefaultPath kubPath = kubPath @ rest"
      by (rule Replace1_prefix) (simp add: kubeletDefaultPath_def)
    show ?case
      using Cons.prems Cons.IH [OF rest] rest assms(3,4) r
      by (auto simp: volDefault_def split: if_splits option.splits)
  qed simp
  obtain cons d where "relocateContainers kubPath (Containers ds) = (cons, d)" by force
  with assms(5) obtain vols c where "relocateVolumes kubPath (Volumes ds) = Ok (vols, c)"
    "Volumes ds' = vols" "c \<longrightarrow> b"
    by (auto simp: relocateDaemonSet_def bindO_Ok_iff)
  moreover have "volDefault (v\<lparr>HostPath := Some (kubPath @ rest)\<rparr>)"
    using assms(1,3) by (auto simp: volDefault_def HasPrefix_prefix)
  ultimately show ?thesis using step assms(2) by force
qed

theorem updateCSIDaemonSet_never_settles_witness:
  "\<exists>ds' b. relocateDaemonSet ''/var/lib/kubelet-data'' lab_ds = Ok (ds', b) \<and> b \<and>
     (\<exists>v' \<in> set (Volumes ds'). HostPath v' = Some ''/var/lib/kubelet-data/plugins'')"
proof -
  let ?v = "\<lparr>VolumeName = ''plugin-dir'', HostPath = Some ''/var/lib/kubelet/plugins''\<rparr>"
  have "relocateDaemonSet ''/var/lib/kubelet-data'' lab_ds =
      Ok (lab_ds\<lparr>Volumes := [\<lparr>VolumeName = ''plugin-dir'', HostPath = Some ''/var/lib/kubelet-data/plugins''\<rparr>]\<rparr>, True)"
    by code_simp
  moreover have "HasPrefix ''/var/lib/kubelet-data'' kubeletDefaultPath" by code_simp
  moreover have "?v \<in> set (Volumes lab_ds)" by (simp add: lab_ds_def)
  moreover have "volDefault ?v" by (simp add: volDefault_def pluginDir_def kubeletDefaultPath_def)
  moreover have "HostPath ?v = Some (kubeletDefaultPath @ ''/plugins'')" by (simp add: kubeletDefaultPath_def)
  ultimately show ?thesis
    using updateCSIDaemonSet_never_settles [of "''/var/lib/kubelet-data''" ?v lab_ds "''/plugins''"] by auto
qed

end
