(* ===== verification/Vdo_Reconcile.thy ===== *)
theory Vdo_Reconcile
  imports Node_Sync Rollout
begin

text \<open>
  The reconciler of \<^verbatim>\<open>VDOConfig\<close> (\<^verbatim>\<open>controllers/vdoconfig_controller.go\<close>):
  \<open>reconcileCPIConfiguration\<close>, \<open>reconcileCSIConfiguration\<close> and \<open>Reconcile\<close>. The result
  \<^verbatim>\<open>ctrl.Result\<close> is always the empty one, so an operation returns a unit or an error.
\<close>

section \<open>The cloud provider\<close>

text \<open>A configuration that is not verified: the CPI status becomes Failed and the error is returned.\<close>

definition requireVerified :: "'v world \<Rightarrow> VsphereCloudConfig \<Rightarrow> unit M" where
  "requireVerified w vsphereCloudConfig =
     (case verifyVsphereCloudConfig vsphereCloudConfig of None \<Rightarrow> ret ()
      | Some (statusMsg, e) \<Rightarrow> thenM (updateCPIStatusForError w e statusMsg) (throw e))"

definition deployCPI :: "'v world \<Rightarrow> unit M" where
  "deployCPI w =
     bindM (getS cfg)
       (\<lambda>vdo. if cpi_phase vdo = Configuring \<or> cpi_phase vdo = Failed
          then bindM (onErr (reconcileCPIDeployment w)
                  (\<lambda>e. updateCPIStatusForError w e ''Error in reconcile of deployment of CPI spec files''))
                 (\<lambda>updateStatus. if updateStatus then updateCPIPhase w Deploying [] else ret ())
          else ret ())"

definition markCPIDeployed :: "'v world \<Rightarrow> unit M" where
  "markCPIDeployed w =
     bindM (getS cfg)
       (\<lambda>vdo. if cpi_phase vdo = Deploying \<or> cpi_phase vdo = Failed then updateCPIPhase w Deployed [] else ret ())"

definition syncNodes :: "'v world \<Rightarrow> VsphereCloudConfig list \<Rightarrow> unit M" where
  "syncNodes w items =
     bindM (onErr (reconcileNodeProviderID w items) (\<lambda>e. updateCPIStatusForError w e (Error e)))
       (\<lambda>updReq. if updReq
          then bindM (getS cfg) (\<lambda>vdo. updateVdoConfigWithNodeStatus w (cpi_phase vdo) (node_status vdo))
          else ret ())"

definition reconcileCPIConfiguration :: "'v world \<Rightarrow> NamespacedName \<Rightarrow> unit M" where
  "reconcileCPIConfiguration w req =
     bindM (getS (\<lambda>s. cloud_configs (cfg s)))
       (\<lambda>names. if names = [] then ret ()
          else bindM (fetchVsphereCloudConfigItems w req names)
            (\<lambda>items. thenM (forM (requireVerified w) items)
              (let cpiSecretKey = \<lparr>NnNamespace = VC_CREDS_SECRET_NS, NnName = SECRET_NAME\<rparr> in
               thenM (onErr (reconcileCPISecret w items cpiSecretKey)
                       (\<lambda>e. updateCPIStatusForError w e ''Error in reconcile of secret for CPI configuration''))
              (thenM (onErr (reconcileConfigMap w items cpiSecretKey)
                       (\<lambda>e. updateCPIStatusForError w e ''Error in reconcile of configmap for CPI configuration''))
              (thenM (deployCPI w)
              (thenM (onErr (reconcileCPIDeploymentStatus w)
                       (\<lambda>e. updateCPIStatusForError w e ''Error in reconcile of deployment status for CPI''))
              (thenM (markCPIDeployed w)
              (thenM (syncNodes w items)
                (onErr (reconcileNodeLabel w req) (\<lambda>e. updateCPIStatusForError w e (Error e)))))))))))"

section \<open>The storage driver\<close>

definition deployCSI :: "'v world \<Rightarrow> unit M" where
  "deployCSI w =
     bindM (getS cfg)
       (\<lambda>vdo. if csi_phase vdo = Configuring \<or> csi_phase vdo = Failed
          then bindM (onErr (reconcileCSIDeployment w)
                  (\<lambda>e. updateCSIStatusForError w e ''Error in reconcile of deployment of CSI spec files''))
                 (\<lambda>updateStatus. if updateStatus then updateCSIPhase w Deploying [] else ret ())
          else ret ())"

definition switchCSINodeId :: "'v world \<Rightarrow> unit M" where
  "switchCSINodeId w =
     bindM (getS CurrentCSIDeployedVersion)
       (\<lambda>ver. bindM (liftO (outcome_of (compareVersions w ''2.5.0'' ver ''100.0.0'')))
          (\<lambda>isCsiConfigUpdateReq. if isCsiConfigUpdateReq then updateCSIConfigmap w else ret ()))"

definition moveKubeletPath :: "'v world \<Rightarrow> unit M" where
  "moveKubeletPath w =
     bindM (getS (\<lambda>s. CustomKubeletPath (StorageProvider (VdoSpec (cfg s)))))
       (\<lambda>kubPath. if kubPath \<noteq> [] then updateCSIDaemonSet w kubPath else ret ())"

definition markCSIDeployed :: "'v world \<Rightarrow> unit M" where
  "markCSIDeployed w =
     bindM (getS cfg) (\<lambda>vdo. if csi_phase vdo \<noteq> Deployed then updateCSIPhase w Deployed [] else ret ())"

text \<open>A failure to fetch or verify the configuration of the storage driver goes to the CPI status.\<close>

definition reconcileCSIConfiguration :: "'v world \<Rightarrow> NamespacedName \<Rightarrow> unit M" where
  "reconcileCSIConfiguration w req =
     bindM (bindM (getS (\<lambda>s. storage_config (cfg s)))
              (\<lambda>name. onErr (fetchVSphereCloudConfig w name (NnNamespace req))
                 (\<lambda>e. updateCPIStatusForError w e ''Unable to fetch vSphereCLoudConfig resource'')))
       (\<lambda>vsphereCloudConfig. thenM (requireVerified w vsphereCloudConfig)
         (thenM (onErr (reconcileCSISecret w vsphereCloudConfig)
                  (\<lambda>e. updateCSIStatusForError w e ''Error in reconcile of secret for CSI configuration''))
         (thenM (deployCSI w)
         (thenM (switchCSINodeId w)
         (thenM (moveKubeletPath w)
         (thenM (onErr (reconcileCSIDeploymentStatus w)
                  (\<lambda>e. updateCSIStatusForError w e ''Error in reconcile of deployment status for CSI''))
           (markCSIDeployed w)))))))"

section \<open>The reconciler\<close>

text \<open>The event of a node that is ready already.\<close>

definition skipNode :: "string \<Rightarrow> VDOConfig \<Rightarrow> bool" where
  "skipNode nodeName vdo \<longleftrightarrow>
     nodeName \<noteq> [] \<and> 0 < mlen (node_status vdo) \<and> mlookup (node_status vdo) nodeName = Some NodeStatusReady"

lemma skipNode_iff: "skipNode n vdo \<longleftrightarrow> n \<noteq> [] \<and> mlookup (node_status vdo) n = Some NodeStatusReady"
proof -
  have "0 < mlen (node_status vdo)" if "mlookup (node_status vdo) n = Some x" for x
    using that by (simp add: neq0_conv [symmetric] mlen_zero del: neq0_conv) blast
  then show ?thesis by (auto simp: skipNode_def)
qed

definition reconcileDrivers :: "'v world \<Rightarrow> NamespacedName \<Rightarrow> unit M" where
  "reconcileDrivers w req =
     bindM (getS (\<lambda>s. (environ s COMPAT_MATRIX_CONFIG_URL, environ s COMPAT_MATRIX_CONFIG_CONTENT)))
       (\<lambda>(url, content). thenM (ask NewClientset (\<lambda>t. w_newClientset w t))
         (bindM (liftO (outcome_of (getMatrixConfig url content)))
           (\<lambda>matrixConfig. thenM (CheckCompatAndRetrieveSpec w req matrixConfig)
             (thenM (reconcileCPIConfiguration w req) (reconcileCSIConfiguration w req)))))"

definition Reconcile :: "'v world \<Rightarrow> NamespacedName \<Rightarrow> unit M" where
  "Reconcile w req =
     thenM (modS (\<lambda>s. s\<lparr>VDO_NAMESPACE := environ s ''VDO_NAMESPACE''\<rparr>))
      (bindM (getS VDO_NAMESPACE)
        (\<lambda>ns. if ns = [] then throw (Msg ''Unable to determine operator namespace'')
          else thenM (updateMatrixInfo w req)
            (bindM (ask ListVDOConfigs (\<lambda>t. w_listVDO w t))
              (\<lambda>vdoConfigList. case vdoConfigList of
                 [vdoConfig] \<Rightarrow>
                   thenM (modCfg (\<lambda>_. vdoConfig))
                    (case splitRequest req of (nodeName, req1) \<Rightarrow>
                       if skipNode nodeName vdoConfig then ret () else reconcileDrivers w req1)
               | _ \<Rightarrow> throw (Msg ''VDOConfig resource not found'')))))"

section \<open>Requests\<close>

definition cpi_call :: "call \<Rightarrow> bool" where
  "cpi_call c \<longleftrightarrow> stored_call c \<or> node_call c \<or> spec_call CREATE c"

definition csi_call :: "call \<Rightarrow> bool" where
  "csi_call c \<longleftrightarrow> stored_call c \<or> rollout_call c \<or> spec_call CREATE c"

lemma component_calls [simp]:
  "stored_call c \<Longrightarrow> cpi_call c" "node_call c \<Longrightarrow> cpi_call c" "spec_call CREATE c \<Longrightarrow> cpi_call c"
  "reading_call c \<Longrightarrow> cpi_call c" "cpi_call (StatusUpdateVDO v)"
  "stored_call c \<Longrightarrow> csi_call c" "rollout_call c \<Longrightarrow> csi_call c" "spec_call CREATE c \<Longrightarrow> csi_call c"
  "reading_call c \<Longrightarrow> csi_call c" "csi_call (StatusUpdateVDO v)"
  by (simp_all add: cpi_call_def csi_call_def)

lemma requireVerified_emits [keeps_intro]:
  "(\<And>v. Q (StatusUpdateVDO v)) \<Longrightarrow> keeps (emits Q) (requireVerified w c)"
  unfolding requireVerified_def by (intro keeps_intro)

lemmas cpi_parts = deployCPI_def markCPIDeployed_def syncNodes_def
lemmas csi_parts = deployCSI_def switchCSINodeId_def moveKubeletPath_def markCSIDeployed_def

lemma cpi_emits: "keeps (emits cpi_call) (reconcileCPIConfiguration w req)"
  unfolding reconcileCPIConfiguration_def cpi_parts Let_def by (intro keeps_intro; simp)

lemma csi_emits: "keeps (emits csi_call) (reconcileCSIConfiguration w req)"
  unfolding reconcileCSIConfiguration_def csi_parts by (intro keeps_intro; simp)

lemma cpi_emits_mono [keeps_intro]:
  "(\<And>c. cpi_call c \<Longrightarrow> Q c) \<Longrightarrow> keeps (emits Q) (reconcileCPIConfiguration w req)"
  by (rule keeps_emits_mono [OF cpi_emits])

lemma csi_emits_mono [keeps_intro]:
  "(\<And>c. csi_call c \<Longrightarrow> Q c) \<Longrightarrow> keeps (emits Q) (reconcileCSIConfiguration w req)"
  by (rule keeps_emits_mono [OF csi_emits])

text \<open>Every request that a run of \<open>Reconcile\<close> can make.\<close>

definition reconcile_call :: "call \<Rightarrow> bool" where
  "reconcile_call c \<longleftrightarrow> cpi_call c \<or> csi_call c \<or> check_call c"

lemma Reconcile_emits: "keeps (emits reconcile_call) (Reconcile w req)"
  unfolding Reconcile_def reconcileDrivers_def
  by (intro keeps_intro) (auto intro!: keeps_intro simp: reconcile_call_def split: list.split)

lemma requireVerified_fixed [keeps_intro]:
  "(\<And>s c l. f (s\<lparr>cfg := c, trace := l\<rparr>) = f s) \<Longrightarrow> (\<And>s c. f (s\<lparr>cfg := c\<rparr>) = f s) \<Longrightarrow>
   (\<And>s l. f (s\<lparr>trace := l\<rparr>) = f s) \<Longrightarrow> keeps (fixes_field f) (requireVerified w c)"
  unfolding requireVerified_def by (intro keeps_intro)

lemma drivers_fixed [keeps_intro]:
  assumes "\<And>s c l. f (s\<lparr>cfg := c, trace := l\<rparr>) = f s" "\<And>s c. f (s\<lparr>cfg := c\<rparr>) = f s"
    "\<And>s l. f (s\<lparr>trace := l\<rparr>) = f s" "\<And>s c. f (s\<lparr>sessionCache := c\<rparr>) = f s"
  shows "keeps (fixes_field f) (reconcileCPIConfiguration w req)" "keeps (fixes_field f) (reconcileCSIConfiguration w req)"
  unfolding reconcileCPIConfiguration_def cpi_parts reconcileCSIConfiguration_def csi_parts Let_def
  by (intro keeps_intro; simp add: assms)+

section \<open>What a run may write\<close>

definition permitted :: "call \<Rightarrow> bool" where
  "permitted c = (case c of UpdateObject _ \<Rightarrow> False | StatusUpdateVCC _ \<Rightarrow> False
     | CreateNamespace n \<Rightarrow> n = ''vmware-system-csi'' | DeleteNamespace n \<Rightarrow> n = ''vmware-system-csi''
     | OpenFile f \<Rightarrow> f = CPI_VSPHERE_CONF_FILE \<or> f = CSI_SECRET_CONFIG_FILE
     | WriteFile f _ \<Rightarrow> f = CPI_VSPHERE_CONF_FILE \<or> f = CSI_SECRET_CONFIG_FILE
     | TruncateFile f \<Rightarrow> f = CPI_VSPHERE_CONF_FILE | RemoveFile f \<Rightarrow> f = CSI_SECRET_CONFIG_FILE
     | _ \<Rightarrow> True)"

lemma reading_permitted: "reading_call c \<Longrightarrow> permitted c"
  by (cases c) (auto simp: reading_call_def session_call_def readonly_call_def permitted_def)

lemma reconcile_permitted: "reconcile_call c \<Longrightarrow> permitted c"
  by (cases c)
    (auto simp: reconcile_call_def cpi_call_def csi_call_def check_call_def stored_call_def node_call_def
      rollout_call_def spec_call_def object_call_def status_call_def conf_file_call_def tmp_call_def
      permitted_def reading_call_def session_call_def readonly_call_def)

text \<open>
  C35. Whatever the cluster answers, a run of \<open>Reconcile\<close> never updates an object of a spec file,
  never touches the status of a \<^verbatim>\<open>VsphereCloudConfig\<close>, creates and deletes no namespace but
  \<^verbatim>\<open>vmware-system-csi\<close>, and writes, truncates and removes no file but the cloud provider's
  configuration file and the temporary CSI configuration.
\<close>

theorem Reconcile_writes_confined:
  "\<exists>cs. trace (snd (Reconcile w req s)) = trace s @ cs \<and> list_all permitted cs"
proof -
  have "keeps (emits permitted) (Reconcile w req)"
    by (rule keeps_emits_mono [OF Reconcile_emits reconcile_permitted])
  then show ?thesis by (auto simp: keeps_def elim!: emitsE)
qed

section \<open>What has to hold before anything is written\<close>

definition quiet_call :: "call \<Rightarrow> bool" where
  "quiet_call c \<longleftrightarrow> reading_call c \<or> status_call c"

lemma quiet_call_simps [simp]: "reading_call c \<Longrightarrow> quiet_call c" "quiet_call (StatusUpdateVDO v)"
  by (simp_all add: quiet_call_def)

lemma fetchItems_quiet: "keeps (emits quiet_call) (fetchVsphereCloudConfigItems w req l)"
  unfolding fetchVsphereCloudConfigItems_def fetchItem_def by (intro keeps_intro; simp)

lemma requireVerified_quiet: "keeps (emits quiet_call) (forM (requireVerified w) items)"
  by (intro keeps_intro; simp)

lemma verify_None_iff: "verifyVsphereCloudConfig c = None \<longleftrightarrow> ConfigState (VccStatus c) = VsphereConfigVerified"
  by (simp add: verifyVsphereCloudConfig_def Let_def)

lemma requireVerified_Ok:
  "forM (requireVerified w) items s = (Ok (), t) \<Longrightarrow>
   t = s \<and> (\<forall>c \<in> set items. ConfigState (VccStatus c) = VsphereConfigVerified)"
  by (induction items) (auto simp: runs requireVerified_def verify_None_iff split: option.splits)

lemma loud_not_quiet:
  assumes "c \<in> set (new_calls s t)" and "\<not> quiet_call c" and "emits quiet_call s t"
  shows False
  using assms by (auto simp: emits_def list_all_iff)


text \<open>A world that refuses every status update.\<close>

definition mute_world :: "nat list world" where
  "mute_world = store_world\<lparr>w_statusVDO := \<lambda>t c. Inl sample_refusal\<rparr>"

lemma mute_world_sel [simp]:
  "w_statusVDO mute_world = (\<lambda>t c. Inl sample_refusal)" "w_createSecret mute_world = (\<lambda>t x. Inr ())"
  "w_getSecret mute_world = w_getSecret store_world" "w_getVCC mute_world = (\<lambda>t k. Inr lab_vcc)"
  "w_getDaemonSet store_world = (\<lambda>t k. Inl sample_refusal)"
  by (simp_all add: mute_world_def store_world_def lab_world_def login_world_def)

lemma verify_lab [simp]: "verifyVsphereCloudConfig lab_vcc = None"
  by (simp add: verify_None_iff)

definition creates_secret :: "call \<Rightarrow> bool" where
  "creates_secret c \<longleftrightarrow> (case c of CreateSecretReq _ \<Rightarrow> True | _ \<Rightarrow> False)"

lemma mute_run:
  "list_ex creates_secret (new_calls lab_St (snd (reconcileCPIConfiguration mute_world lab_req lab_St)))"
  by (simp add: reconcileCPIConfiguration_def fetchVsphereCloudConfigItems_def fetchItem_def new_calls_def
      fetchVSphereCloudConfig_def requireVerified_def reconcileCPISecret_def cpiSecretDataMap_def
      addCPISection_def fetchVcCredentials_def createCPISecret_def updateCPIPhase_def statusUpdateVDO_def
      updateCPIStatusForError_def monad_defs creates_secret_def)


section \<open>What a run does with a request\<close>

lemma updateMatrixInfo_reads: "keeps (emits reading_call) (updateMatrixInfo w req)"
  by (intro keeps_intro; simp)

text \<open>A run reads the configuration of the operator and then either ends or works on the drivers.\<close>

lemma Reconcile_split:
  assumes "Reconcile w req s = (r, t)"
  shows "emits reading_call s t \<and> (r = Ok () \<longrightarrow>
      (\<exists>tr vdo. w_listVDO w tr = Inr [vdo] \<and> skipNode (fst (splitRequest req)) vdo)) \<and> (\<forall>p. r \<noteq> Panic p) \<or>
    (\<exists>u vdo. emits reading_call s u \<and> environ s ''VDO_NAMESPACE'' \<noteq> [] \<and> cfg u = vdo \<and>
       (\<exists>tr. w_listVDO w tr = Inr [vdo]) \<and> \<not> skipNode (fst (splitRequest req)) vdo \<and>
       reconcileDrivers w (snd (splitRequest req)) u = (r, t))"
proof (cases "environ s ''VDO_NAMESPACE'' = []")
  case True
  with assms have "r = Err (Msg ''Unable to determine operator namespace'')" "trace t = trace s"
    by (auto simp: Reconcile_def thenM_def bindM_def)
  then show ?thesis using emitsI [of t s "[]"] by simp
next
  case False
  let ?s0 = "s\<lparr>VDO_NAMESPACE := environ s ''VDO_NAMESPACE''\<rparr>"
  obtain q u where m: "updateMatrixInfo w req ?s0 = (q, u)" by force
  then have su: "emits reading_call s u"
    using keepsD [OF updateMatrixInfo_reads m] by (simp add: emits_def new_calls_def)
  let ?v = "u\<lparr>trace := trace u @ [ListVDOConfigs]\<rparr>"
  have sv: "emits reading_call s ?v"
    by (rule emits.R_trans [OF su emitsI [where cs = "[ListVDOConfigs]"]]) simp_all
  have q: "q \<noteq> Panic p" for p using m no_panicD [OF compat_no_panic(6)] by blast
  show ?thesis
  proof (cases q)
    case (Ok x)
    show ?thesis
    proof (cases "\<exists>vdo. w_listVDO w (trace u) = Inr [vdo]")
      case True
      then obtain vdo where vdo: "w_listVDO w (trace u) = Inr [vdo]" by blast
      let ?z = "?v\<lparr>cfg := vdo\<rparr>"
      have sz: "emits reading_call s ?z" using sv by (simp add: emits_def new_calls_def)
      have end': "(if skipNode (fst (splitRequest req)) vdo then ret ()
        else reconcileDrivers w (snd (splitRequest req))) ?z = (r, t)"
        using assms False m Ok vdo
        by (simp add: Reconcile_def thenM_def bindM_def ask_def split: prod.splits if_splits)
      show ?thesis
      proof (cases "skipNode (fst (splitRequest req)) vdo")
        case True
        with end' sz vdo show ?thesis by auto
      next
        case False
        with end' sz vdo \<open>environ s ''VDO_NAMESPACE'' \<noteq> []\<close> show ?thesis by (intro disjI2 exI [of _ ?z]) auto
      qed
    next
      case no: False
      then have "t = ?v \<and> (\<exists>e. r = Err e)"
        using assms False m Ok
        by (cases "w_listVDO w (trace u)")
          (auto simp: Reconcile_def thenM_def bindM_def ask_def split: list.splits)
      with sv show ?thesis by auto
    qed
  next
    case (Err e)
    with assms False m su show ?thesis by (auto simp: Reconcile_def thenM_def bindM_def)
  qed (use q in simp)
qed

lemma Reconcile_quiet_or_driven:
  assumes "Reconcile w req s = (r, t)" and "\<not> emits reading_call s t"
  obtains u vdo where "emits reading_call s u" "environ s ''VDO_NAMESPACE'' \<noteq> []" "cfg u = vdo"
    "\<exists>tr. w_listVDO w tr = Inr [vdo]" "\<not> skipNode (fst (splitRequest req)) vdo"
    "reconcileDrivers w (snd (splitRequest req)) u = (r, t)"
  using Reconcile_split [OF assms(1)] assms(2) by blast

lemma reconcileDrivers_environ: "keeps (fixes_field environ) (reconcileDrivers w req)"
  unfolding reconcileDrivers_def by (intro keeps_intro; simp)

text \<open>Without a matrix configuration a run only creates the client.\<close>

lemma reconcileDrivers_rejected:
  assumes "reconcileDrivers w req s = (r, t)"
    and "getMatrixConfig (environ s COMPAT_MATRIX_CONFIG_URL) (environ s COMPAT_MATRIX_CONFIG_CONTENT) = Inl e"
  shows "t = s\<lparr>trace := trace s @ [NewClientset]\<rparr>"
  using assms by (auto simp: reconcileDrivers_def thenM_def bindM_def ask_def split: outcome.splits)

text \<open>
  C2. A run writes to the cluster, to the status or to a file only if the operator knows its
  namespace, exactly one \<^verbatim>\<open>VDOConfig\<close> exists, the event is not that of a node that is
  recorded as ready, and exactly one of the URL and the content of the matrix is set.
\<close>

theorem Reconcile_gates:
  assumes "Reconcile w req s = (r, t)" and "c \<in> set (new_calls s t)" and "\<not> reading_call c"
  shows "environ s ''VDO_NAMESPACE'' \<noteq> [] \<and>
    (\<exists>tr vdo. w_listVDO w tr = Inr [vdo] \<and>
       \<not> (fst (splitRequest req) \<noteq> [] \<and>
          mlookup (node_status vdo) (fst (splitRequest req)) = Some NodeStatusReady)) \<and>
    (environ t COMPAT_MATRIX_CONFIG_URL = []) \<noteq> (environ t COMPAT_MATRIX_CONFIG_CONTENT = [])"
proof -
  have loud: "\<not> emits reading_call s t"
    using assms(2,3) by (auto simp: emits_def list_all_iff)
  from assms(1) loud obtain u vdo where run: "emits reading_call s u" "environ s ''VDO_NAMESPACE'' \<noteq> []"
    "\<exists>tr. w_listVDO w tr = Inr [vdo]" "\<not> skipNode (fst (splitRequest req)) vdo"
    "reconcileDrivers w (snd (splitRequest req)) u = (r, t)"
    by (elim Reconcile_quiet_or_driven) blast
  have env: "environ t = environ u"
    using keepsD [OF reconcileDrivers_environ run(5)] by (simp add: fixes_field_def)
  have "(environ u COMPAT_MATRIX_CONFIG_URL = []) \<noteq> (environ u COMPAT_MATRIX_CONFIG_CONTENT = [])"
  proof (rule ccontr)
    assume "\<not> ?thesis"
    then have "getMatrixConfig (environ u COMPAT_MATRIX_CONFIG_URL) (environ u COMPAT_MATRIX_CONFIG_CONTENT) =
      Inl (Msg ''Matrix Config URL/Content not provided in proper format'')"
      by (auto simp: getMatrixConfig_def)
    from reconcileDrivers_rejected [OF run(5) this] have "emits reading_call u t"
      by (intro emitsI [where cs = "[NewClientset]"]) simp_all
    with run(1) loud emits.R_trans show False by blast
  qed
  then show ?thesis using run(2,3,4) env unfolding skipNode_iff by auto
qed

text \<open>An operator with an inline matrix and one configuration.\<close>

definition run_world :: "nat list world" where
  "run_world = lab_world\<lparr>w_listVDO := \<lambda>t. Inr [lab_cfg], w_newClientset := \<lambda>t. Inr ()\<rparr>"

definition run_St :: St where
  "run_St = lab_St\<lparr>environ := (environ lab_St)(''VDO_NAMESPACE'' := ''vmware-system-vdo'',
     COMPAT_MATRIX_CONFIG_CONTENT := ''{}'')\<rparr>"

lemma run_world_sel [simp]:
  "w_listVDO run_world = (\<lambda>t. Inr [lab_cfg])" "w_newClientset run_world = (\<lambda>t. Inr ())"
  "w_newVimClient run_world = (\<lambda>_ _ _ _. Inr lab_client)" "w_login run_world = (\<lambda>_ _ _. Inr ())"
  "w_findDatacenter run_world = (\<lambda>_ _ n. Inr (Some \<lparr>DcId = 1, InventoryPath = n\<rparr>))"
  "w_newDiscovery run_world = (\<lambda>_. Inr ())" "w_serverVersion run_world = (\<lambda>_. Inr (''1'', ''21+''))"
  "w_getVCC run_world = (\<lambda>_ _. Inr lab_vcc)" "w_getSecret run_world = (\<lambda>_ _. Inr lab_secret)"
  "p_jsonMatrix run_world = (\<lambda>_. Inr sample_matrix)" "w_createNamespace run_world = (\<lambda>_ _. Inr ())"
  "p_newVersion run_world = sample_newVersion" "p_versionCompare run_world = sample_compare"
  "p_parseURL run_world = p_parseURL down_world"
  by (simp_all add: run_world_def lab_world_def login_world_def)

lemma run_St_sel [simp]:
  "trace run_St = []" "environ run_St ''VDO_NAMESPACE'' = ''vmware-system-vdo''"
  "environ run_St COMPAT_MATRIX_CONFIG_CONTENT = ''{}''" "environ run_St COMPAT_MATRIX_CONFIG_URL = []"
  "sessionCache run_St = []" "CurrentCSIDeployedVersion run_St = []" "CurrentCPIDeployedVersion run_St = []"
  by (simp_all add: run_St_def COMPAT_MATRIX_CONFIG_URL_def COMPAT_MATRIX_CONFIG_CONTENT_def)

lemma lab_req_split [simp]: "splitRequest lab_req = ([], lab_req)" "NnName lab_req = ''vdo''"
  by (simp add: splitRequest_def lab_req_def) (simp add: lab_req_def)

lemma lab_cfg_nodes [simp]: "node_status lab_cfg = None" "''vdo'' \<noteq> CM_NAME"
  by (simp_all add: lab_cfg_def empty_cfg_def CM_NAME_def)

lemma run_creates:
  "CreateNamespace ''vmware-system-csi'' \<in> set (new_calls run_St (snd (Reconcile run_world lab_req run_St)))"
proof -
  let ?u = "run_St\<lparr>VDO_NAMESPACE := ''vmware-system-vdo'', cfg := lab_cfg, trace := [ListVDOConfigs, NewClientset]\<rparr>"
  obtain t where check: "CheckCompatAndRetrieveSpec run_world lab_req ''{}'' ?u = (Ok (), t)"
    and mem: "CreateNamespace ''vmware-system-csi'' \<in> set (trace t)"
    by (simp add: CheckCompatAndRetrieveSpec_def Fetchk8sVersions_def FetchVsphereVersions_def
      fetchVSphereCloudConfig_def getVcSession_def fetchVcCredentials_def GetOrCreate_def cachedSession_def
      createSession_def newClient_def findDatacenters_def readMatrix_def monad_defs
      cpi_driver.fetch_run csi_driver.fetch_run cpi_driver.removed_def csi_driver.removed_def lab_select
      placeCSINamespace_run lab_csi_namespace createCSINamespace_def)
  obtain r z where rest: "thenM (reconcileCPIConfiguration run_world lab_req) (reconcileCSIConfiguration run_world lab_req) t = (r, z)"
    by force
  have "keeps (emits (\<lambda>_. True)) (thenM (reconcileCPIConfiguration run_world lab_req) (reconcileCSIConfiguration run_world lab_req))"
    by (intro keeps_intro) simp_all
  from keepsD [OF this rest] mem have "CreateNamespace ''vmware-system-csi'' \<in> set (trace z)"
    by (auto elim!: emitsE)
  moreover have "Reconcile run_world lab_req run_St = (r, z)"
    using check rest
    by (simp add: Reconcile_def updateMatrixInfo_def reconcileDrivers_def skipNode_def getMatrixConfig_def
      monad_defs)
  ultimately show ?thesis by (simp add: new_calls_def)
qed

theorem Reconcile_gates_witness:
  "environ run_St ''VDO_NAMESPACE'' \<noteq> [] \<and>
   (let t = snd (Reconcile run_world lab_req run_St) in
    (environ t COMPAT_MATRIX_CONFIG_URL = []) \<noteq> (environ t COMPAT_MATRIX_CONFIG_CONTENT = []))"
proof -
  have "\<not> reading_call (CreateNamespace n)" for n
    by (simp add: reading_call_def session_call_def readonly_call_def)
  from Reconcile_gates [OF prod.collapse [symmetric] run_creates this] show ?thesis
    unfolding Let_def by blast
qed

section \<open>A run for CSI that succeeds\<close>

lemma csi_parts_fixed [keeps_intro]:
  assumes "\<And>s c l. f (s\<lparr>cfg := c, trace := l\<rparr>) = f s" "\<And>s c. f (s\<lparr>cfg := c\<rparr>) = f s" "\<And>s l. f (s\<lparr>trace := l\<rparr>) = f s"
  shows "keeps (fixes_field f) (deployCSI w)" "keeps (fixes_field f) (switchCSINodeId w)"
    "keeps (fixes_field f) (moveKubeletPath w)" "keeps (fixes_field f) (markCSIDeployed w)"
  unfolding csi_parts by (intro keeps_intro; simp add: assms)+

lemma CSI_run_Ok:
  assumes "reconcileCSIConfiguration w req s = (Ok (), t)"
  obtains vcc u v where
    "\<exists>tr. w_getVCC w tr \<lparr>NnNamespace = NnNamespace req, NnName = storage_config (cfg s)\<rparr> = Inr vcc"
    "verifyVsphereCloudConfig vcc = None" "CsiNamespace u = CsiNamespace s"
    "reconcileCSIDeploymentStatus w u = (Ok (), v)" "markCSIDeployed w v = (Ok (), t)"
proof -
  from assms obtain vcc s1 s2 s3 s4 s5 s6 v where
    fetch: "fetchVSphereCloudConfig w (storage_config (cfg s)) (NnNamespace req) s = (Ok vcc, s1)"
    and ver: "requireVerified w vcc s1 = (Ok (), s2)"
    and steps: "reconcileCSISecret w vcc s2 = (Ok (), s3)" "deployCSI w s3 = (Ok (), s4)"
      "switchCSINodeId w s4 = (Ok (), s5)" "moveKubeletPath w s5 = (Ok (), s6)"
    and last: "reconcileCSIDeploymentStatus w s6 = (Ok (), v)" "markCSIDeployed w v = (Ok (), t)"
    by (auto simp: reconcileCSIConfiguration_def runs)
  have "fixes_field CsiNamespace s s1" by (rule keepsD [OF request_fixed(1) fetch]) simp
  moreover have "fixes_field CsiNamespace s1 s2" by (rule keepsD [OF requireVerified_fixed ver]) simp_all
  moreover have "fixes_field CsiNamespace s2 s3" by (rule keepsD [OF stored_fixed(3) steps(1)]) simp_all
  moreover have "fixes_field CsiNamespace s3 s4" by (rule keepsD [OF csi_parts_fixed(1) steps(2)]) simp_all
  moreover have "fixes_field CsiNamespace s4 s5" by (rule keepsD [OF csi_parts_fixed(2) steps(3)]) simp_all
  moreover have "fixes_field CsiNamespace s5 s6" by (rule keepsD [OF csi_parts_fixed(3) steps(4)]) simp_all
  ultimately have "CsiNamespace s6 = CsiNamespace s" by (simp add: fixes_field_def)
  moreover have "verifyVsphereCloudConfig vcc = None"
    using ver by (auto simp: requireVerified_def thenM_Ok_iff split: option.splits)
  moreover have "\<exists>tr. w_getVCC w tr \<lparr>NnNamespace = NnNamespace req, NnName = storage_config (cfg s)\<rparr> = Inr vcc"
    using fetch by (auto simp: fetchVSphereCloudConfig_def Let_def runs)
  ultimately show ?thesis using last that by blast
qed

lemma markCSIDeployed_Ok:
  "markCSIDeployed w s = (Ok (), t) \<Longrightarrow> status_echo w \<Longrightarrow> csi_phase (cfg t) = Deployed"
  by (auto simp: markCSIDeployed_def bindM_def split: if_splits dest: csi.upd_written)

lemma CSI_status_Ok:
  assumes "reconcileCSIDeploymentStatus w s = (Ok (), t)"
  shows "(\<exists>tr ds. w_getDaemonSet w tr \<lparr>NnNamespace = CsiNamespace s, NnName = CSI_DAEMONSET_NAME\<rparr> = Inr ds \<and>
      NumberUnavailable ds \<le> 0) \<and>
    (\<exists>tr pods. w_listPods w tr (CsiNamespace s) CSI_DAEMON_POD_KEY = Inr pods \<and>
      list_all (\<lambda>p. PodPhaseOf p = PodRunning) pods) \<and>
    (\<exists>tr drivers. w_listCSIDrivers w tr = Inr drivers \<and> drivers \<noteq> [])"
  using assms
  by (auto simp: reconcileCSIDeploymentStatus_def runs fetchDaemonSet_Ok verifyCSIDriver_Ok)

text \<open>
  C3. A run for CSI that succeeds ends with the CSI phase Deployed, and then the configuration of the
  storage vCenter is verified, the daemon set in the CSI namespace has no unavailable pod, every
  pod with the label of the driver is running, and a CSI driver is registered.
\<close>

theorem CSI_run_deployed:
  assumes "reconcileCSIConfiguration w req s = (Ok (), t)" and "status_echo w"
  shows "csi_phase (cfg t) = Deployed \<and>
    (\<exists>tr vcc. w_getVCC w tr \<lparr>NnNamespace = NnNamespace req, NnName = storage_config (cfg s)\<rparr> = Inr vcc \<and>
       ConfigState (VccStatus vcc) = VsphereConfigVerified) \<and>
    (\<exists>tr ds. w_getDaemonSet w tr \<lparr>NnNamespace = CsiNamespace s, NnName = CSI_DAEMONSET_NAME\<rparr> = Inr ds \<and>
       NumberUnavailable ds \<le> 0) \<and>
    (\<exists>tr pods. w_listPods w tr (CsiNamespace s) CSI_DAEMON_POD_KEY = Inr pods \<and>
       list_all (\<lambda>p. PodPhaseOf p = PodRunning) pods) \<and>
    (\<exists>tr drivers. w_listCSIDrivers w tr = Inr drivers \<and> drivers \<noteq> [])"
  using assms(1)
proof (rule CSI_run_Ok)
  fix vcc u v
  assume "\<exists>tr. w_getVCC w tr \<lparr>NnNamespace = NnNamespace req, NnName = storage_config (cfg s)\<rparr> = Inr vcc"
    "verifyVsphereCloudConfig vcc = None" "CsiNamespace u = CsiNamespace s"
    "reconcileCSIDeploymentStatus w u = (Ok (), v)" "markCSIDeployed w v = (Ok (), t)"
  then show ?thesis
    using CSI_status_Ok [of w u v] markCSIDeployed_Ok [OF _ assms(2)] by (auto simp: verify_None_iff)
qed

text \<open>A cluster in which the driver is up.\<close>

definition ready_world :: "nat list world" where
  "ready_world = store_world\<lparr>w_getDaemonSet := \<lambda>t k. Inr lab_ds,
     w_listPods := \<lambda>t ns l. Inr [\<lparr>PodName = ''csi'', PodPhaseOf = PodRunning\<rparr>],
     w_listNodes := \<lambda>t. Inr [lab_node], w_listCSINodes := \<lambda>t. Inr [NodeName lab_node],
     w_listCSIDrivers := \<lambda>t. Inr [''csi.vsphere.vmware.com'']\<rparr>"

definition ready_St :: St where
  "ready_St = lab_St\<lparr>CurrentCSIDeployedVersion := ''2.4.0''\<rparr>"

lemma ready_sel [simp]:
  "w_getDaemonSet ready_world = (\<lambda>t k. Inr lab_ds)" "w_listPods ready_world = (\<lambda>t ns l. Inr [\<lparr>PodName = ''csi'', PodPhaseOf = PodRunning\<rparr>])"
  "w_listNodes ready_world = (\<lambda>t. Inr [lab_node])" "w_listCSINodes ready_world = (\<lambda>t. Inr [NodeName lab_node])"
  "w_listCSIDrivers ready_world = (\<lambda>t. Inr [''csi.vsphere.vmware.com''])"
  "w_getSecret ready_world = w_getSecret store_world" "w_createSecret ready_world = (\<lambda>t x. Inr ())"
  "w_statusVDO ready_world = (\<lambda>t c. Inr c)" "w_openFile ready_world = (\<lambda>t f. Inr ())"
  "w_truncateFile ready_world = (\<lambda>t f. Inr ())" "w_writeFile ready_world = (\<lambda>t f x. Inr ())"
  "w_readFile ready_world = (\<lambda>t f. Inr ''conf'')" "w_removeFile ready_world = (\<lambda>t f. Inr ())"
  "p_iniLoad ready_world = (\<lambda>x. Inr ())" "w_getVCC ready_world = (\<lambda>t k. Inr lab_vcc)"
  "p_newVersion ready_world = sample_newVersion" "p_versionCompare ready_world = sample_compare"
  by (simp_all add: ready_world_def store_world_def lab_world_def login_world_def)

lemma ready_St_sel [simp]:
  "CurrentCSIDeployedVersion ready_St = ''2.4.0''" "cfg ready_St = lab_cfg" "trace ready_St = []"
  "CsiDeploymentYamls ready_St = []" "NumberUnavailable lab_ds = 0"
  "CustomKubeletPath (StorageProvider (VdoSpec lab_cfg)) = []"
  by (simp_all add: ready_St_def lab_St_def lab_ds_def lab_cfg_def empty_cfg_def)

lemma ready_echo: "status_echo ready_world"
  by (simp add: status_echo_def)

lemma ready_compare: "compareVersions ready_world ''2.5.0'' ''2.4.0'' ''100.0.0'' = Inr False"
  by (simp add: compareVersions_def sample_newVersion_def sample_field_def)

lemma setCSIPhase_sel [simp]:
  "csi_phase (setCSIPhase p m c) = p" "VdoSpec (setCSIPhase p m c) = VdoSpec c"
  "StCPI (VdoStatus (setCSIPhase p m c)) = StCPI (VdoStatus c)"
  by (simp_all add: setCSIPhase_def)

lemma ready_run: "\<exists>t. reconcileCSIConfiguration ready_world lab_req ready_St = (Ok (), t)"
  by (simp add: reconcileCSIConfiguration_def fetchVSphereCloudConfig_def requireVerified_def reconcileCSISecret_def
      fetchVcCredentials_def CreateCSISecretConfig_def createCSISecretObj_def updateCSIPhase_def statusUpdateVDO_def
      csi_parts reconcileCSIDeployment_def applyAll_def ready_compare rollout_defs monad_defs)

theorem CSI_run_deployed_witness:
  "\<exists>t. reconcileCSIConfiguration ready_world lab_req ready_St = (Ok (), t) \<and> csi_phase (cfg t) = Deployed"
  using CSI_run_deployed [OF _ ready_echo] ready_run by blast

text \<open>
  C37. When the cloud configuration of the storage driver cannot be fetched or is not verified, the
  run fails and reports it on the wrong half of the status: the phase of the cloud provider
  becomes Failed, and phase and message of the storage driver stay as they were.
\<close>

theorem CSI_failure_marks_CPI:
  assumes "reconcileCSIConfiguration w req s = (r, t)" and "status_echo w"
    and "\<And>vcc. w_getVCC w (trace s) \<lparr>NnNamespace = NnNamespace req, NnName = storage_config (cfg s)\<rparr> = Inr vcc \<Longrightarrow>
      ConfigState (VccStatus vcc) \<noteq> VsphereConfigVerified"
  shows "(\<exists>e. r = Err e) \<and> cpi_phase (cfg t) = Failed \<and> StCSI (VdoStatus (cfg t)) = StCSI (VdoStatus (cfg s))"
proof -
  let ?key = "\<lparr>NnNamespace = NnNamespace req, NnName = storage_config (cfg s)\<rparr>"
  let ?s1 = "s\<lparr>trace := trace s @ [GetVCC ?key]\<rparr>"
  have report: "cpi_phase (cfg v) = Failed \<and> StCSI (VdoStatus (cfg v)) = StCSI (VdoStatus (cfg u))"
    if "updateCPIStatusForError w e m u = (q, v)" for e m u q v
    using cpi.report_written [OF assms(2) that] by simp
  have "\<exists>e m e'. updateCPIStatusForError w e m ?s1 = (Ok (), t) \<and> r = Err e'"
  proof (cases "w_getVCC w (trace s) ?key")
    case (Inl e)
    with assms(1) show ?thesis
      by (auto simp: reconcileCSIConfiguration_def fetchVSphereCloudConfig_def Let_def bindM_def onErr_def
        tryM_def wrapM_def ask_def thenM_def cpi.report_run)
  next
    case (Inr vcc)
    with assms(3) obtain m e where v: "verifyVsphereCloudConfig vcc = Some (m, e)"
      using verify_None_iff by (metis not_None_eq surj_pair)
    with Inr assms(1) show ?thesis
      by (auto simp: reconcileCSIConfiguration_def fetchVSphereCloudConfig_def Let_def bindM_def onErr_def
        tryM_def wrapM_def ask_def thenM_def cpi.report_run requireVerified_def)
  qed
  then show ?thesis using report by fastforce
qed

theorem CSI_failure_marks_CPI_witness:
  "cpi_phase (cfg (snd (reconcileCSIConfiguration (ready_world\<lparr>w_getVCC := \<lambda>t k. Inl sample_refusal\<rparr>) lab_req ready_St))) = Failed"
  using CSI_failure_marks_CPI [of "ready_world\<lparr>w_getVCC := \<lambda>t k. Inl sample_refusal\<rparr>" lab_req ready_St, OF prod.collapse [symmetric]]
  by (simp add: status_echo_def)

end
