(* ===== verification/Vdo_Phases.thy ===== *)
theory Vdo_Phases
  imports Vdo_Reconcile
begin

text \<open>
  The phases of the \<^verbatim>\<open>VDOConfig\<close> over whole runs of its reconciler: which phases a run can
  write, what a run that succeeds or fails leaves in the status, and when a run panics.
\<close>

section \<open>The phase Deploying\<close>

definition calm :: "VDOConfig \<Rightarrow> bool" where
  "calm c \<longleftrightarrow> cpi_phase c \<noteq> Deploying \<and> csi_phase c \<noteq> Deploying"

definition calm_call :: "call \<Rightarrow> bool" where
  "calm_call c = (case c of StatusUpdateVDO v \<Rightarrow> calm v | _ \<Rightarrow> True)"

definition stays_calm :: "St \<Rightarrow> St \<Rightarrow> bool" where
  "stays_calm s t \<longleftrightarrow> (calm (cfg s) \<longrightarrow> calm (cfg t) \<and> emits calm_call s t)"

interpretation calm: step_relation stays_calm
  by unfold_locales (auto simp: stays_calm_def emits.R_refl intro: emits.R_trans)

text \<open>An operation that leaves the configuration and its status alone.\<close>

lemma calm_other:
  assumes "keeps (emits calm_call) m" and "keeps (fixes_field cfg) m"
  shows "keeps stays_calm m"
  using assms by (auto simp: keeps_def stays_calm_def fixes_field_def)

lemma calm_ask: "calm_call c \<Longrightarrow> keeps stays_calm (ask c f)"
  by (rule calm_other) (auto intro!: keeps_intro)

lemma calm_upd:
  assumes "status_echo w" and "p \<noteq> Deploying"
  shows "keeps stays_calm (updateCPIPhase w p m)" "keeps stays_calm (updateCSIPhase w p m)"
proof -
  show "keeps stays_calm (updateCPIPhase w p m)"
  proof (rule keepsI)
    fix s r t assume run: "updateCPIPhase w p m s = (r, t)"
    have "calm (cfg s) \<Longrightarrow> calm (cfg t)" "calm (cfg s) \<Longrightarrow> calm (setCPIPhase p m (cfg s))"
      using cpi.upd_written [OF run assms(1)] assms(2) by (auto simp: calm_def setCPIPhase_def)
    with cpi.upd_run [OF run] show "stays_calm s t"
      by (auto simp: stays_calm_def calm_call_def intro!: emitsI)
  qed
  show "keeps stays_calm (updateCSIPhase w p m)"
  proof (rule keepsI)
    fix s r t assume run: "updateCSIPhase w p m s = (r, t)"
    have "calm (cfg s) \<Longrightarrow> calm (cfg t)" "calm (cfg s) \<Longrightarrow> calm (setCSIPhase p m (cfg s))"
      using csi.upd_written [OF run assms(1)] assms(2) by (auto simp: calm_def setCSIPhase_def)
    with csi.upd_run [OF run] show "stays_calm s t"
      by (auto simp: stays_calm_def calm_call_def intro!: emitsI)
  qed
qed

lemma calm_report:
  assumes "status_echo w"
  shows "keeps stays_calm (updateCPIStatusForError w e m)" "keeps stays_calm (updateCSIStatusForError w e m)"
  unfolding updateCPIStatusForError_def updateCSIStatusForError_def
  by (intro keeps_intro calm_upd assms; simp)+

lemma reading_calm: "reading_call c \<Longrightarrow> calm_call c"
  by (cases c) (auto simp: reading_call_def session_call_def readonly_call_def calm_call_def)

lemma file_calm: "conf_file_call c \<Longrightarrow> calm_call c" "tmp_call f c \<Longrightarrow> calm_call c" "spec_call a c \<Longrightarrow> calm_call c"
  "rollout_call c \<Longrightarrow> calm_call c" "check_call c \<Longrightarrow> calm_call c"
  by (cases c; force simp: conf_file_call_def tmp_call_def spec_call_def object_call_def readonly_call_def
    rollout_call_def check_call_def reading_call_def session_call_def calm_call_def)+

lemma calm_nodes_status:
  assumes "status_echo w"
  shows "keeps stays_calm (bindM (getS cfg) (\<lambda>vdo. updateVdoConfigWithNodeStatus w (cpi_phase vdo) (node_status vdo)))"
proof (rule keepsI)
  fix s r t
  assume run: "bindM (getS cfg) (\<lambda>vdo. updateVdoConfigWithNodeStatus w (cpi_phase vdo) (node_status vdo)) s = (r, t)"
  let ?c = "upd_cpi (\<lambda>st. st\<lparr>CpiPhase := cpi_phase (cfg s), CpiNodeStatus := node_status (cfg s)\<rparr>) (cfg s)"
  have c: "calm ?c" if "calm (cfg s)" using that by (simp add: calm_def)
  have t: "trace t = trace s @ [StatusUpdateVDO ?c]" "cfg t = ?c \<or> w_statusVDO w (trace s) ?c = Inr (cfg t)"
    using run by (auto simp: bindM_def thenM_def updateVdoConfigWithNodeStatus_def statusUpdateVDO_def split: sum.splits)
  have "VdoStatus (cfg t) = VdoStatus ?c" using t(2) status_echoD [OF assms, of "trace s" ?c "cfg t"] by auto
  then have "calm (cfg t) = calm ?c" unfolding calm_def by simp
  moreover have "emits calm_call s t" if "calm (cfg s)"
    by (rule emitsI [OF t(1)]) (simp add: calm_call_def c [OF that])
  ultimately show "stays_calm s t" using c by (simp add: stays_calm_def)
qed

lemma calm_reads:
  "keeps stays_calm (fetchVSphereCloudConfig w n ns)" "keeps stays_calm (fetchVcCredentials w vcc)"
  "keeps stays_calm (checkNodeExistence w cs node)" "keeps stays_calm (CreateVsphereConfig w cs key)"
  "keeps stays_calm (CreateCSISecretConfig w vcc u p f)" "keeps stays_calm (reconcileCPIDeployment w)"
  "keeps stays_calm (reconcileCSIDeployment w)" "keeps stays_calm (reconcileCPIDeploymentStatus w)"
  "keeps stays_calm (reconcileCSIDeploymentStatus w)" "keeps stays_calm (updateCSIDaemonSet w kubPath)"
  "keeps stays_calm (updateCSIConfigmap w)" "keeps stays_calm (CheckCompatAndRetrieveSpec w req m)"
  by (intro calm_other keeps_intro keeps_emits_mono [OF CreateVsphereConfig_emits]
    keeps_emits_mono [OF CreateCSISecretConfig_emits]; (erule reading_calm file_calm | simp))+

lemmas calm_intro = calm.keeps_pure calm.keeps_bindM calm.keeps_thenM calm.keeps_tryM calm.keeps_wrapM calm.keeps_onErr
  calm.keeps_mapM calm.keeps_forM calm.keeps_foldM keeps_if keeps_case_option keeps_case_sum keeps_case_prod
  calm_ask calm_upd calm_report calm_reads calm_nodes_status

lemma calm_calls [simp]:
  "calm_call (GetSecret k)" "calm_call (CreateSecretReq x)" "calm_call (UpdateSecretReq x)"
  "calm_call (GetConfigMap k)" "calm_call (CreateConfigMapReq y)" "calm_call (UpdateConfigMapReq y)"
  "calm_call ListNodes" "calm_call (UpdateNode n)" "calm_call NewClientset"
  by (simp_all add: calm_call_def)

lemma calm_stored:
  assumes "status_echo w"
  shows "keeps stays_calm (reconcileCPISecret w cs key)" "keeps stays_calm (reconcileConfigMap w cs key)"
    "keeps stays_calm (reconcileCSISecret w vcc)" "keeps stays_calm (fetchVsphereCloudConfigItems w req l)"
    "keeps stays_calm (requireVerified w vcc)"
  unfolding stored_defs requireVerified_def by (intro calm_intro assms; simp)+

lemma calm_nodes:
  assumes "status_echo w"
  shows "keeps stays_calm (reconcileNodeProviderID w cs)" "keeps stays_calm (reconcileNodeLabel w req)"
proof -
  have loop: "LoopPhase st \<noteq> Deploying"
    if "foldM (nodeStep w cs) nodes \<lparr>LoopStatus = make_map, LoopPhase = PhaseUnset, AllNodesReady = True\<rparr> s = (Ok st, t)" for nodes st s t
    using nodeLoop_Ok [OF that] by (simp add: fold_pure_phase)
  have set': "p \<noteq> Deploying \<Longrightarrow> keeps stays_calm (modCfg (upd_cpi (\<lambda>c. c\<lparr>CpiNodeStatus := m, CpiPhase := p\<rparr>)))" for p m
    by (rule calm.keeps_modCfg) (auto simp: stays_calm_def calm_def intro: emitsI [where cs = "[]"])
  have step: "keeps stays_calm (nodeStep w cs node st)" for node st
    unfolding nodeStep_def by (intro calm_intro assms)
  show "keeps stays_calm (reconcileNodeProviderID w cs)"
    unfolding reconcileNodeProviderID_def Let_def by (intro calm_intro step set'; simp add: loop)
  show "keeps stays_calm (reconcileNodeLabel w req)"
    unfolding reconcileNodeLabel_def labelStep_def by (intro calm_intro; simp)
qed

lemma calm_deploy:
  assumes "status_echo w"
  shows "keeps stays_calm (deployCPI w)" "keeps stays_calm (deployCSI w)"
  unfolding deployCPI_def deployCSI_def
  by (intro calm_intro assms;
    auto simp: onErr_Ok_iff dest: cpi_driver.deploy_reports_False csi_driver.deploy_reports_False)+

lemma calm_drivers: "status_echo w \<Longrightarrow> keeps stays_calm (reconcileDrivers w req)"
  unfolding reconcileDrivers_def reconcileCPIConfiguration_def reconcileCSIConfiguration_def
    markCPIDeployed_def syncNodes_def switchCSINodeId_def moveKubeletPath_def markCSIDeployed_def Let_def
  by (intro calm_intro calm_stored calm_nodes calm_deploy; simp)

text \<open>A cluster in which a whole run succeeds.\<close>

definition full_world :: "nat list world" where
  "full_world = ready_world\<lparr>w_listVDO := \<lambda>t. Inr [lab_cfg], w_newClientset := \<lambda>t. Inr (),
     w_updateNode := \<lambda>t n. Inr (), w_createObject := \<lambda>t x. Inr (),
     w_httpGet := \<lambda>t u. Inr \<lparr>StatusCode = 200, Body = Inr ''conf''\<rparr>\<rparr>"

lemma full_world_sel [simp]:
  "w_listVDO full_world = (\<lambda>t. Inr [lab_cfg])" "w_newClientset full_world = (\<lambda>t. Inr ())"
  "w_updateNode full_world = (\<lambda>t n. Inr ())"
  "w_getDaemonSet full_world = (\<lambda>t k. Inr lab_ds)" "w_listPods full_world = (\<lambda>t ns l. Inr [\<lparr>PodName = ''csi'', PodPhaseOf = PodRunning\<rparr>])"
  "w_listNodes full_world = (\<lambda>t. Inr [lab_node])" "w_listCSINodes full_world = (\<lambda>t. Inr [NodeName lab_node])"
  "w_listCSIDrivers full_world = (\<lambda>t. Inr [''csi.vsphere.vmware.com''])"
  "w_getSecret full_world = w_getSecret store_world" "w_createSecret full_world = (\<lambda>t x. Inr ())"
  "w_getConfigMap full_world = (\<lambda>t k. Inl (ApiErr NotFound ''none''))" "w_createConfigMap full_world = (\<lambda>t x. Inr ())"
  "w_statusVDO full_world = (\<lambda>t c. Inr c)" "w_openFile full_world = (\<lambda>t f. Inr ())"
  "w_truncateFile full_world = (\<lambda>t f. Inr ())" "w_writeFile full_world = (\<lambda>t f x. Inr ())"
  "w_readFile full_world = (\<lambda>t f. Inr ''conf'')" "w_removeFile full_world = (\<lambda>t f. Inr ())"
  "p_iniLoad full_world = (\<lambda>x. Inr ())" "w_getVCC full_world = (\<lambda>t k. Inr lab_vcc)"
  "w_newVimClient full_world = (\<lambda>_ _ _ _. Inr lab_client)" "w_login full_world = (\<lambda>_ _ _. Inr ())"
  "w_findDatacenter full_world = (\<lambda>_ _ n. Inr (Some \<lparr>DcId = 1, InventoryPath = n\<rparr>))"
  "w_newDiscovery full_world = (\<lambda>_. Inr ())" "w_serverVersion full_world = (\<lambda>_. Inr (''1'', ''21+''))"
  "p_jsonMatrix full_world = (\<lambda>_. Inr sample_matrix)" "w_createNamespace full_world = (\<lambda>_ _. Inr ())"
  "p_newVersion full_world = sample_newVersion" "p_versionCompare full_world = sample_compare"
  "p_parseURL full_world = p_parseURL down_world" "w_createObject full_world = (\<lambda>t x. Inr ())"
  "w_httpGet full_world = (\<lambda>t u. Inr \<lparr>StatusCode = 200, Body = Inr ''conf''\<rparr>)"
  "p_yamlDocuments full_world = p_yamlDocuments down_world" "p_yamlKind full_world = p_yamlKind down_world"
  "p_yamlObject full_world = p_yamlObject down_world" "p_yamlCpiConfig full_world = p_yamlCpiConfig down_world"
  by (simp_all add: full_world_def ready_world_def store_world_def lab_world_def login_world_def)

lemma full_check:
  assumes "environ s COMPAT_MATRIX_CONFIG_URL = []" "cfg s = lab_cfg" "sessionCache s = []"
    "CurrentCSIDeployedVersion s = []" "CurrentCPIDeployedVersion s = []"
  shows "\<exists>t. CheckCompatAndRetrieveSpec full_world lab_req ''{}'' s = (Ok (), t) \<and> cfg t = lab_cfg \<and>
    CurrentCSIDeployedVersion t = ''2.4.0''"
  using assms
  by (simp add: CheckCompatAndRetrieveSpec_def Fetchk8sVersions_def FetchVsphereVersions_def
      fetchVSphereCloudConfig_def getVcSession_def fetchVcCredentials_def GetOrCreate_def cachedSession_def
      createSession_def newClient_def findDatacenters_def readMatrix_def monad_defs
      cpi_driver.fetch_run csi_driver.fetch_run cpi_driver.removed_def csi_driver.removed_def lab_select
      placeCSINamespace_run lab_csi_namespace createCSINamespace_def)

lemma full_applyYaml: "\<exists>cs. applyYaml full_world y b CREATE s = (Ok True, s\<lparr>trace := trace s @ cs\<rparr>)"
  by (cases "Contains y ''file://''"; simp add: applyYaml_def readSpec_def GenerateYamlFromFilePath_def
    GenerateYamlFromUrl_def ParseAndProcessK8sObjects_def processDoc_def processObj_def applyYamlSpec_def
    monad_defs; rule exI; rule refl)

lemma full_applyAll: "\<exists>cs. applyAll full_world ys s = (Ok False, s\<lparr>trace := trace s @ cs\<rparr>)"
proof -
  have "\<exists>cs. forM (\<lambda>y. thenM (applyYaml full_world y False CREATE) (ret ())) ys s = (Ok (), s\<lparr>trace := trace s @ cs\<rparr>)"
  proof (induction ys arbitrary: s)
    case Nil
    show ?case by (rule exI [of _ "[]"]) simp
  next
    case (Cons y ys)
    obtain cs where y: "applyYaml full_world y False CREATE s = (Ok True, s\<lparr>trace := trace s @ cs\<rparr>)"
      using full_applyYaml by blast
    let ?u = "s\<lparr>trace := trace s @ cs\<rparr>"
    from Cons.IH [of ?u] obtain ds where ds: "forM (\<lambda>y. thenM (applyYaml full_world y False CREATE) (ret ())) ys ?u =
      (Ok (), ?u\<lparr>trace := trace ?u @ ds\<rparr>)" by blast
    have "thenM (applyYaml full_world y False CREATE) (ret ()) s = (Ok (), ?u)"
      using y by (simp add: thenM_def bindM_def)
    with ds have "forM (\<lambda>y. thenM (applyYaml full_world y False CREATE) (ret ())) (y # ys) s = (Ok (), ?u\<lparr>trace := trace ?u @ ds\<rparr>)"
      by (simp only: forM.simps thenM_Ok_iff) blast
    moreover have "?u\<lparr>trace := trace ?u @ ds\<rparr> = s\<lparr>trace := trace s @ (cs @ ds)\<rparr>" by simp
    ultimately show ?case by metis
  qed
  then show ?thesis by (auto simp: applyAll_def thenM_def bindM_def)
qed

lemma full_items:
  "cfg s = lab_cfg \<Longrightarrow>
   \<exists>t. fetchVsphereCloudConfigItems full_world lab_req [''vc1''] s = (Ok [lab_vcc], t) \<and> cfg t = lab_cfg"
  by (simp add: fetchVsphereCloudConfigItems_def fetchItem_def fetchVSphereCloudConfig_def monad_defs)

lemma full_secret:
  "NnName key \<noteq> ''creds'' \<Longrightarrow> \<exists>t. reconcileCPISecret full_world [lab_vcc] key s = (Ok (), t) \<and>
     cfg t = setCPIPhase Configuring [] (cfg s)"
  by (simp add: reconcileCPISecret_def cpiSecretDataMap_def addCPISection_def fetchVcCredentials_def createCPISecret_def
    updateCPIPhase_def statusUpdateVDO_def monad_defs)

lemma full_config_map:
  "\<exists>t. reconcileConfigMap full_world [lab_vcc] key s = (Ok (), t) \<and> cfg t = setCPIPhase Configuring [] (cfg s)"
  by (simp add: reconcileConfigMap_def CreateVsphereConfig_def createCPIConfigMap_def
    updateCPIPhase_def statusUpdateVDO_def monad_defs)

lemma full_deploy:
  "cpi_phase (cfg s) = Configuring \<Longrightarrow> \<exists>t. deployCPI full_world s = (Ok (), t) \<and> cfg t = cfg s"
  "csi_phase (cfg s) = Configuring \<Longrightarrow> \<exists>t. deployCSI full_world s = (Ok (), t) \<and> cfg t = cfg s"
proof -
  obtain cs ds where run: "applyAll full_world (CpiDeploymentYamls s) s = (Ok False, s\<lparr>trace := trace s @ cs\<rparr>)"
    "applyAll full_world (CsiDeploymentYamls s) s = (Ok False, s\<lparr>trace := trace s @ ds\<rparr>)"
    using full_applyAll by meson
  show "\<exists>t. deployCPI full_world s = (Ok (), t) \<and> cfg t = cfg s" if "cpi_phase (cfg s) = Configuring"
    using that run(1) by (simp add: deployCPI_def reconcileCPIDeployment_def monad_defs)
  show "\<exists>t. deployCSI full_world s = (Ok (), t) \<and> cfg t = cfg s" if "csi_phase (cfg s) = Configuring"
    using that run(2) by (simp add: deployCSI_def reconcileCSIDeployment_def monad_defs)
qed

lemma full_status:
  "\<exists>t. reconcileCPIDeploymentStatus full_world s = (Ok (), t) \<and> cfg t = cfg s"
  "\<exists>t. reconcileCSIDeploymentStatus full_world s = (Ok (), t) \<and> cfg t = cfg s"
  by (simp_all add: rollout_defs monad_defs)

lemma lab_node_sel [simp]:
  "ProviderID lab_node = ''vsphere://1''" "NodeName lab_node = ''node1''"
  "mlookup (NodeLabels lab_node) VDO_NODE_LABEL_KEY = Some ''vdo''"
  by (simp_all add: lab_node_def mlookup_def)

lemma full_sync:
  "node_status (cfg s) = None \<Longrightarrow> \<exists>t. syncNodes full_world [lab_vcc] s = (Ok (), t) \<and> VdoSpec (cfg t) = VdoSpec (cfg s) \<and>
     csi_phase (cfg t) = csi_phase (cfg s) \<and> cpi_phase (cfg t) = Configured"
  by (simp add: gr_implies_not0 [OF mput_nonempty] syncNodes_def reconcileNodeProviderID_def nodeStep_def markReady_def monad_defs
    updateVdoConfigWithNodeStatus_def statusUpdateVDO_def DeepEqual_map_def)

lemma full_label: "\<exists>t. reconcileNodeLabel full_world lab_req s = (Ok (), t) \<and> cfg t = cfg s"
  by (simp add: reconcileNodeLabel_def labelStep_def monad_defs)

lemma full_cpi:
  assumes "cfg s = lab_cfg"
  shows "\<exists>t. reconcileCPIConfiguration full_world lab_req s = (Ok (), t) \<and> VdoSpec (cfg t) = VdoSpec lab_cfg \<and>
    csi_phase (cfg t) = PhaseUnset \<and> cpi_phase (cfg t) = Configured"
proof -
  let ?key = "\<lparr>NnNamespace = VC_CREDS_SECRET_NS, NnName = SECRET_NAME\<rparr>"
  obtain s1 where 1: "fetchVsphereCloudConfigItems full_world lab_req [''vc1''] s = (Ok [lab_vcc], s1)" "cfg s1 = lab_cfg"
    using full_items [OF assms] by blast
  have 2: "forM (requireVerified full_world) [lab_vcc] s1 = (Ok (), s1)"
    by (simp add: requireVerified_def thenM_def bindM_def)
  obtain s2 where 3: "reconcileCPISecret full_world [lab_vcc] ?key s1 = (Ok (), s2)" "cfg s2 = setCPIPhase Configuring [] lab_cfg"
    using full_secret [of ?key s1] 1(2) by auto
  obtain s3 where 4: "reconcileConfigMap full_world [lab_vcc] ?key s2 = (Ok (), s3)"
    "cfg s3 = setCPIPhase Configuring [] (setCPIPhase Configuring [] lab_cfg)"
    using full_config_map [of ?key s2] 3(2) by auto
  have p: "cpi_phase (cfg s3) = Configuring" "VdoSpec (cfg s3) = VdoSpec lab_cfg" "csi_phase (cfg s3) = PhaseUnset"
    "node_status (cfg s3) = None"
    by (simp_all add: 4(2) setCPIPhase_def lab_cfg_def empty_cfg_def)
  obtain s4 where 5: "deployCPI full_world s3 = (Ok (), s4)" "cfg s4 = cfg s3"
    using full_deploy(1) [OF p(1)] by blast
  obtain s5 where 6: "reconcileCPIDeploymentStatus full_world s4 = (Ok (), s5)" "cfg s5 = cfg s3"
    using full_status(1) [of s4] 5(2) by auto
  have 7: "markCPIDeployed full_world s5 = (Ok (), s5)"
    using p(1) 6(2) by (simp add: markCPIDeployed_def bindM_def)
  obtain s6 where 8: "syncNodes full_world [lab_vcc] s5 = (Ok (), s6)" "VdoSpec (cfg s6) = VdoSpec lab_cfg"
    "csi_phase (cfg s6) = PhaseUnset" "cpi_phase (cfg s6) = Configured"
    using full_sync [of s5] p 6(2) by auto
  obtain s7 where 9: "reconcileNodeLabel full_world lab_req s6 = (Ok (), s7)" "cfg s7 = cfg s6"
    using full_label by blast
  have "reconcileCPIConfiguration full_world lab_req s = (Ok (), s7)"
    unfolding reconcileCPIConfiguration_def Let_def
    using 1 2 3 4 5 6 7 8 9 assms by (simp add: runs)
  then show ?thesis using 8 9(2) by auto
qed

lemma full_csi:
  assumes "VdoSpec (cfg s) = VdoSpec lab_cfg" "csi_phase (cfg s) = PhaseUnset" "CurrentCSIDeployedVersion s = ''2.4.0''"
  shows "\<exists>t. reconcileCSIConfiguration full_world lab_req s = (Ok (), t)"
proof -
  obtain s1 where 1: "fetchVSphereCloudConfig full_world ''vc1'' (NnNamespace lab_req) s = (Ok lab_vcc, s1)"
    "cfg s1 = cfg s" "CurrentCSIDeployedVersion s1 = ''2.4.0''"
    using assms by (simp add: fetchVSphereCloudConfig_def monad_defs)
  have 2: "requireVerified full_world lab_vcc s1 = (Ok (), s1)" by (simp add: requireVerified_def)
  obtain s2 where 3: "reconcileCSISecret full_world lab_vcc s1 = (Ok (), s2)" "cfg s2 = setCSIPhase Configuring [] (cfg s)"
    using 1 by (simp add: reconcileCSISecret_def fetchVcCredentials_def CreateCSISecretConfig_def createCSISecretObj_def
      updateCSIPhase_def statusUpdateVDO_def monad_defs)
  obtain s3 where 4: "deployCSI full_world s2 = (Ok (), s3)" "cfg s3 = cfg s2"
    using full_deploy(2) [of s2] 3(2) by auto
  have "fixes_field CurrentCSIDeployedVersion s1 s2" by (rule keepsD [OF stored_fixed(3) 3(1)]) simp_all
  moreover have "fixes_field CurrentCSIDeployedVersion s2 s3" by (rule keepsD [OF csi_parts_fixed(1) 4(1)]) simp_all
  ultimately have "CurrentCSIDeployedVersion s3 = ''2.4.0''" using 1(3) by (simp add: fixes_field_def)
  then have 5: "switchCSINodeId full_world s3 = (Ok (), s3)"
    by (simp add: switchCSINodeId_def bindM_def compareVersions_def sample_newVersion_def sample_field_def)
  have 6: "moveKubeletPath full_world s3 = (Ok (), s3)"
    using assms(1) 4(2) 3(2) by (simp add: moveKubeletPath_def bindM_def)
  obtain s4 where 7: "reconcileCSIDeploymentStatus full_world s3 = (Ok (), s4)"
    using full_status(2) by blast
  obtain s5 where 8: "markCSIDeployed full_world s4 = (Ok (), s5)"
    by (cases "csi_phase (cfg s4) = Deployed")
      (simp_all add: markCSIDeployed_def updateCSIPhase_def statusUpdateVDO_def monad_defs)
  show ?thesis
    unfolding reconcileCSIConfiguration_def using 1 2 3 4 5 6 7 8 assms by (simp add: runs)
qed

lemma full_run_from:
  assumes "environ s = environ run_St" "sessionCache s = []" "CurrentCSIDeployedVersion s = []" "CurrentCPIDeployedVersion s = []"
  shows "\<exists>t. Reconcile full_world lab_req s = (Ok (), t) \<and> CurrentCSIDeployedVersion t = ''2.4.0''"
proof -
  let ?u = "s\<lparr>VDO_NAMESPACE := ''vmware-system-vdo'', cfg := lab_cfg, trace := trace s @ [ListVDOConfigs, NewClientset]\<rparr>"
  obtain s1 where 1: "CheckCompatAndRetrieveSpec full_world lab_req ''{}'' ?u = (Ok (), s1)" "cfg s1 = lab_cfg"
    "CurrentCSIDeployedVersion s1 = ''2.4.0''"
    using full_check [of ?u] assms by auto
  obtain s2 where 2: "reconcileCPIConfiguration full_world lab_req s1 = (Ok (), s2)" "VdoSpec (cfg s2) = VdoSpec lab_cfg"
    "csi_phase (cfg s2) = PhaseUnset"
    using full_cpi [OF 1(2)] by blast
  have "fixes_field CurrentCSIDeployedVersion s1 s2" by (rule keepsD [OF drivers_fixed(1) 2(1)]) simp_all
  with 1(3) have v: "CurrentCSIDeployedVersion s2 = ''2.4.0''" by (simp add: fixes_field_def)
  obtain s3 where 3: "reconcileCSIConfiguration full_world lab_req s2 = (Ok (), s3)"
    using full_csi [OF 2(2,3) v] by blast
  have "fixes_field CurrentCSIDeployedVersion s2 s3" by (rule keepsD [OF drivers_fixed(2) 3]) simp_all
  with v have "CurrentCSIDeployedVersion s3 = ''2.4.0''" by (simp add: fixes_field_def)
  moreover have "Reconcile full_world lab_req s = (Ok (), s3)"
    using 1(1) 2(1) 3 assms(1)
    by (simp add: Reconcile_def updateMatrixInfo_def reconcileDrivers_def skipNode_def getMatrixConfig_def monad_defs)
  ultimately show ?thesis by blast
qed

lemma full_run: "\<exists>t. Reconcile full_world lab_req run_St = (Ok (), t)"
  using full_run_from [of run_St] by auto

lemma full_echo: "status_echo full_world"
  by (simp add: status_echo_def)

lemma calm_lab: "calm lab_cfg"
  by (simp add: calm_def lab_cfg_def empty_cfg_def)

text \<open>
  C36. No run ever announces that a driver is being deployed: if the status subresource stores what
  it is sent and no configuration has the phase Deploying to begin with, no status update of
  any run of \<open>Reconcile\<close> carries it, for CPI or CSI.
\<close>

theorem Reconcile_never_deploying:
  assumes "status_echo w" and "\<And>tr vdo. w_listVDO w tr = Inr [vdo] \<Longrightarrow> calm vdo"
    and "Reconcile w req s = (r, t)"
  shows "\<forall>vdo. StatusUpdateVDO vdo \<in> set (new_calls s t) \<longrightarrow> cpi_phase vdo \<noteq> Deploying \<and> csi_phase vdo \<noteq> Deploying"
proof -
  have "emits calm_call s t"
  proof (cases "emits reading_call s t")
    case True
    then show ?thesis by (rule emits_mono) (rule reading_calm)
  next
    case False
    with assms(3) obtain u vdo where run: "emits reading_call s u" "cfg u = vdo" "\<exists>tr. w_listVDO w tr = Inr [vdo]"
      "reconcileDrivers w (snd (splitRequest req)) u = (r, t)"
      by (elim Reconcile_quiet_or_driven) blast
    with assms(2) keepsD [OF calm_drivers [OF assms(1)] run(4)] have "emits calm_call u t"
      by (auto simp: stays_calm_def)
    moreover have "emits calm_call s u" by (rule emits_mono [OF run(1)]) (rule reading_calm)
    ultimately show ?thesis by (metis emits.R_trans)
  qed
  then show ?thesis by (auto simp: emits_def list_all_iff calm_call_def calm_def)
qed

theorem Reconcile_never_deploying_witness:
  "\<exists>t. Reconcile full_world lab_req run_St = (Ok (), t) \<and>
     (\<forall>vdo. StatusUpdateVDO vdo \<in> set (new_calls run_St t) \<longrightarrow> csi_phase vdo \<noteq> Deploying)"
  using Reconcile_never_deploying [OF full_echo _, of lab_req run_St] full_run calm_lab by fastforce

section \<open>A run for CPI that succeeds\<close>

lemma CPI_run_Ok:
  assumes "reconcileCPIConfiguration w req s = (Ok (), t)" and "cloud_configs (cfg s) \<noteq> []"
  obtains items u v where "syncNodes w items u = (Ok (), v)" "reconcileNodeLabel w req v = (Ok (), t)"
  using assms by (auto simp: reconcileCPIConfiguration_def Let_def runs)

lemma reconcileNodeLabel_cfg: "keeps (fixes_field cfg) (reconcileNodeLabel w req)"
  unfolding reconcileNodeLabel_def labelStep_def by (intro keeps_intro; simp)

lemma syncNodes_Ok:
  assumes "syncNodes w items u = (Ok (), v)" and "status_echo w"
  obtains b y where "reconcileNodeProviderID w items u = (Ok b, y)" "VdoStatus (cfg v) = VdoStatus (cfg y)"
proof -
  from assms(1) obtain b y where run: "reconcileNodeProviderID w items u = (Ok b, y)"
    and rest: "(if b then bindM (getS cfg) (\<lambda>vdo. updateVdoConfigWithNodeStatus w (cpi_phase vdo) (node_status vdo))
        else ret ()) y = (Ok (), v)"
    by (auto simp: syncNodes_def runs)
  have same: "upd_cpi (\<lambda>st. st\<lparr>CpiPhase := cpi_phase c, CpiNodeStatus := node_status c\<rparr>) c = c" for c :: VDOConfig
    by simp
  with rest have "VdoStatus (cfg v) = VdoStatus (cfg y)"
    using status_echoD [OF assms(2), of "trace y" "cfg y" "cfg v"]
    by (auto simp: bindM_def thenM_def updateVdoConfigWithNodeStatus_def statusUpdateVDO_def same split: if_splits sum.splits)
  with run that show ?thesis by blast
qed

text \<open>
  C15. A run for CPI that succeeds leaves the state of the nodes in the status: with the nodes of its
  listing (of different names, at least one of which has a state), the phase is Configuring if
  one of them waits for the cloud provider and Configured if none does - never Deployed -, and
  the node status is that of the listing.
\<close>

theorem CPI_run_records_nodes:
  assumes "reconcileCPIConfiguration w req s = (Ok (), t)" and "cloud_configs (cfg s) \<noteq> []" and "status_echo w"
    and "\<And>tr nodes. w_listNodes w tr = Inr nodes \<Longrightarrow>
      distinct (map NodeName nodes) \<and> (\<exists>n \<in> set nodes. statusOf n \<noteq> None)"
  shows "\<exists>tr nodes. w_listNodes w tr = Inr nodes \<and>
    cpi_phase (cfg t) = (if \<exists>n \<in> set nodes. pending n then Configuring else Configured) \<and>
    (\<forall>n \<in> set nodes. mlookup (node_status (cfg t)) (NodeName n) = statusOf n) \<and>
    (\<forall>k. k \<notin> NodeName ` set nodes \<longrightarrow> mlookup (node_status (cfg t)) k = None)"
proof -
  from assms(1,2) obtain items u v where sync: "syncNodes w items u = (Ok (), v)"
    and label: "reconcileNodeLabel w req v = (Ok (), t)" by (rule CPI_run_Ok)
  from sync assms(3) obtain b y where nodes: "reconcileNodeProviderID w items u = (Ok b, y)"
    and st: "VdoStatus (cfg v) = VdoStatus (cfg y)" by (rule syncNodes_Ok)
  from nodes obtain ns where ns: "w_listNodes w (trace u) = Inr ns"
    by (auto simp: reconcileNodeProviderID_def runs)
  from assms(4) [OF ns] have "distinct (map NodeName ns)" by blast
  from nodeProviderID_run [OF nodes ns this] obtain m where m: "\<forall>n \<in> set ns. mlookup m (NodeName n) = statusOf n"
      "\<forall>k. k \<notin> NodeName ` set ns \<longrightarrow> mlookup m k = None"
    and b: "b = ((\<exists>n \<in> set ns. statusOf n \<noteq> None) \<and>
           (cpi_phase (cfg u) \<noteq> (if \<exists>n \<in> set ns. pending n then Configuring else Configured) \<or>
            \<not> DeepEqual_map (node_status (cfg u)) m))"
    and y: "cfg y = (if b then upd_cpi (\<lambda>c. c\<lparr>CpiNodeStatus := m,
          CpiPhase := (if \<exists>n \<in> set ns. pending n then Configuring else Configured)\<rparr>) (cfg u) else cfg u)"
    by blast
  have "cpi_phase (cfg y) = (if \<exists>n \<in> set ns. pending n then Configuring else Configured) \<and>
    (\<forall>k. mlookup (node_status (cfg y)) k = mlookup m k)"
    using b y assms(4) [OF ns] by (cases b) (auto simp: DeepEqual_map_iff)
  moreover have "fixes_field cfg v t" by (rule keepsD [OF reconcileNodeLabel_cfg label])
  ultimately show ?thesis using ns m st by (intro exI [of _ "trace u"] exI [of _ ns]) (auto simp: fixes_field_def)
qed

theorem CPI_run_records_nodes_witness:
  "\<exists>t. reconcileCPIConfiguration full_world lab_req lab_St = (Ok (), t) \<and> cpi_phase (cfg t) = Configured \<and>
     mlookup (node_status (cfg t)) ''node1'' = Some NodeStatusReady"
proof -
  obtain t where run: "reconcileCPIConfiguration full_world lab_req lab_St = (Ok (), t)"
    using full_cpi [of lab_St] by auto
  have st: "statusOf lab_node = Some NodeStatusReady" "\<not> pending lab_node"
    by (simp_all add: statusOf_def pending_def)
  from CPI_run_records_nodes [OF run _ full_echo] st run show ?thesis
    by fastforce
qed

section \<open>Errors of a run for CPI\<close>

text \<open>\<open>errs_to P m\<close>: every run of \<open>m\<close> that fails ends in a state that satisfies \<open>P\<close>.\<close>

definition errs_to :: "(St \<Rightarrow> bool) \<Rightarrow> 'a M \<Rightarrow> bool" where
  "errs_to P m \<longleftrightarrow> (\<forall>s e t. m s = (Err e, t) \<longrightarrow> P t)"

lemma errs_to_pure: "errs_to P (ret x)" "errs_to P (getS f)" "errs_to P (modCfg g)" "errs_to P (tryM m)" "errs_to P (panic p)"
  by (auto simp: errs_to_def)

lemma errs_to_bindM: "errs_to P m \<Longrightarrow> (\<And>x. errs_to P (k x)) \<Longrightarrow> errs_to P (bindM m k)"
  by (auto simp: errs_to_def bindM_Err_iff)

lemma errs_to_thenM: "errs_to P m \<Longrightarrow> errs_to P k \<Longrightarrow> errs_to P (thenM m k)"
  unfolding thenM_def by (rule errs_to_bindM)

lemma errs_to_if: "errs_to P m \<Longrightarrow> errs_to P k \<Longrightarrow> errs_to P (if b then m else k)"
  by simp

lemma errs_to_forM: "(\<And>x. errs_to P (f x)) \<Longrightarrow> errs_to P (forM f xs)"
  by (induction xs) (auto intro: errs_to_pure errs_to_thenM)

lemma errs_to_mapM: "(\<And>x. errs_to P (f x)) \<Longrightarrow> errs_to P (mapM f xs)"
  by (induction xs) (auto intro: errs_to_pure errs_to_bindM)

definition cpi_failed :: "St \<Rightarrow> bool" where
  "cpi_failed s \<longleftrightarrow> cpi_phase (cfg s) = Failed"

text \<open>An error that is reported is reported as the phase Failed.\<close>

lemma errs_to_reported:
  assumes "status_echo w"
  shows "errs_to cpi_failed (onErr m (\<lambda>e. updateCPIStatusForError w e (msg e)))"
  using cpi.report_written [OF assms] by (auto simp: errs_to_def cpi.onErr_report_Err cpi_failed_def)

lemma errs_to_refused:
  assumes "status_echo w"
  shows "errs_to cpi_failed (thenM (updateCPIStatusForError w e msg) (throw e'))"
  using cpi.report_written [OF assms]
  by (auto simp: errs_to_def thenM_def bindM_Err_iff cpi.report_run cpi_failed_def dest: cpi.report_never_fails)

definition status_accepts :: "'v world \<Rightarrow> bool" where
  "status_accepts w \<longleftrightarrow> (\<forall>t c. \<exists>c'. w_statusVDO w t c = Inr c')"

lemma errs_to_update:
  assumes "status_accepts w"
  shows "errs_to P (updateCPIPhase w p m)" "errs_to P (updateVdoConfigWithNodeStatus w p n)"
proof -
  have "statusUpdateVDO w s \<noteq> (Err e, t)" for s e t
    using assms [unfolded status_accepts_def, rule_format, of "trace s" "cfg s"] by (auto simp: statusUpdateVDO_def)
  then show "errs_to P (updateCPIPhase w p m)" "errs_to P (updateVdoConfigWithNodeStatus w p n)"
    by (auto simp: errs_to_def updateCPIPhase_def updateVdoConfigWithNodeStatus_def thenM_def bindM_Err_iff)
qed

text \<open>
  C14. If the status can always be written and is stored as it is sent, a run for CPI that fails, at
  whatever step, leaves the CPI phase Failed.
\<close>

theorem CPI_failure_recorded:
  assumes "status_echo w" and "status_accepts w" and "reconcileCPIConfiguration w req s = (Err e, t)"
  shows "cpi_phase (cfg t) = Failed"
proof -
  have item: "errs_to cpi_failed (fetchItem w req i)" for i
    unfolding fetchItem_def by (intro errs_to_bindM errs_to_if errs_to_pure errs_to_reported [OF assms(1)])
  have verified: "errs_to cpi_failed (requireVerified w c)" for c
    unfolding requireVerified_def
    by (auto split: option.split intro: errs_to_pure errs_to_refused [OF assms(1)])
  note errs = errs_to_pure errs_to_bindM errs_to_thenM errs_to_if errs_to_forM errs_to_mapM
    errs_to_reported [OF assms(1)] errs_to_update [OF assms(2)]
  have "errs_to cpi_failed (reconcileCPIConfiguration w req)"
    unfolding reconcileCPIConfiguration_def cpi_parts fetchVsphereCloudConfigItems_def Let_def
    by (intro errs item verified)
  with assms(3) show ?thesis by (auto simp: errs_to_def cpi_failed_def)
qed

definition lost_world :: "nat list world" where
  "lost_world = full_world\<lparr>w_getVCC := \<lambda>t k. Inl sample_refusal\<rparr>"

lemma lost_world_sel [simp]:
  "w_getVCC lost_world = (\<lambda>t k. Inl sample_refusal)" "w_statusVDO lost_world = (\<lambda>t c. Inr c)"
  by (simp_all add: lost_world_def)

lemma lost_run: "\<exists>e t. reconcileCPIConfiguration lost_world lab_req lab_St = (Err e, t)"
  by (simp add: reconcileCPIConfiguration_def fetchVsphereCloudConfigItems_def fetchItem_def
    fetchVSphereCloudConfig_def updateCPIStatusForError_def updateCPIPhase_def statusUpdateVDO_def monad_defs)

theorem CPI_failure_recorded_witness:
  "\<exists>e t. reconcileCPIConfiguration lost_world lab_req lab_St = (Err e, t) \<and> cpi_phase (cfg t) = Failed"
proof -
  obtain e t where run: "reconcileCPIConfiguration lost_world lab_req lab_St = (Err e, t)" using lost_run by blast
  have "status_echo lost_world" "status_accepts lost_world" by (simp_all add: status_echo_def status_accepts_def)
  from CPI_failure_recorded [OF this run] run show ?thesis by blast
qed

section \<open>Panics\<close>

lemma relocateVolumes_Panic:
  "relocateVolumes k vols = Panic p \<Longrightarrow>
   \<exists>v \<in> set vols. VolumeName v \<in> {podVolName, pluginDir, registrationDir} \<and> HostPath v = None"
proof (induction vols)
  case (Cons v vols)
  then show ?case
    by (cases "relocateVolumes k vols") (auto split: if_splits option.splits)
qed simp

lemma relocateDaemonSet_Panic:
  "relocateDaemonSet k ds = Panic p \<Longrightarrow>
   \<exists>v \<in> set (Volumes ds). VolumeName v \<in> {podVolName, pluginDir, registrationDir} \<and> HostPath v = None"
  by (cases "relocateVolumes k (Volumes ds)")
    (auto simp: relocateDaemonSet_def split: prod.splits dest: relocateVolumes_Panic)

text \<open>What the code takes for granted: a discovery client, and host paths for three volumes of the daemon set.\<close>

definition host_paths :: "DaemonSet \<Rightarrow> bool" where
  "host_paths ds \<longleftrightarrow>
     (\<forall>v \<in> set (Volumes ds). VolumeName v \<in> {podVolName, pluginDir, registrationDir} \<longrightarrow> HostPath v \<noteq> None)"

lemma daemon_set_no_panic:
  assumes "\<And>tr key ds. w_getDaemonSet w tr key = Inr ds \<Longrightarrow> host_paths ds"
  shows "no_panic (updateCSIDaemonSet w kubPath)"
  unfolding no_panic_def
proof (intro allI notI)
  fix s :: St and p
  let ?key = "\<lparr>NnNamespace = CsiNamespace s, NnName = CSI_DAEMONSET_NAME\<rparr>"
  assume run: "fst (updateCSIDaemonSet w kubPath s) = Panic p"
  obtain ds where ds: "w_getDaemonSet w (trace s) ?key = Inr ds"
    using run by (cases "w_getDaemonSet w (trace s) ?key") (auto simp: updateCSIDaemonSet_def bindM_def ask_def)
  with run have "relocateDaemonSet kubPath ds = Panic p"
    by (cases "relocateDaemonSet kubPath ds")
      (auto simp: updateCSIDaemonSet_def bindM_def ask_def split: if_splits sum.splits)
  from relocateDaemonSet_Panic [OF this] assms [OF ds] show False by (auto simp: host_paths_def)
qed

lemma requireVerified_no_panic [no_panic_intro]: "no_panic (requireVerified w c)"
  unfolding requireVerified_def by (intro no_panic_intro)

lemma nodeStatus_no_panic [no_panic_intro]: "no_panic (updateVdoConfigWithNodeStatus w p m)"
  by (auto simp: no_panic_def updateVdoConfigWithNodeStatus_def thenM_def bindM_def statusUpdateVDO_def split: sum.splits)

lemma no_panic_run: "m s = (r, t) \<Longrightarrow> no_panic m \<Longrightarrow> \<forall>p. r \<noteq> Panic p"
  by (metis no_panicD)

lemma cpi_no_panic: "no_panic (reconcileCPIConfiguration w req)"
  unfolding no_panic_def
proof (intro allI)
  fix s :: St and p
  let ?names = "cloud_configs (cfg s)"
  obtain q u where f: "fetchVsphereCloudConfigItems w req ?names s = (q, u)" by force
  have "\<forall>i \<in> set [0 ..< length ?names]. i < length ?names" by simp
  from mapM_fetchItem [OF this refl f [unfolded fetchVsphereCloudConfigItems_def]]
  have q: "q \<noteq> Panic p" for p by (cases q) auto
  show "fst (reconcileCPIConfiguration w req s) \<noteq> Panic p"
  proof (cases q)
    case (Ok items)
    have "no_panic (thenM (forM (requireVerified w) items)
              (let cpiSecretKey = \<lparr>NnNamespace = VC_CREDS_SECRET_NS, NnName = SECRET_NAME\<rparr> in
               thenM (onErr (reconcileCPISecret w items cpiSecretKey)
                       (\<lambda>e. updateCPIStatusForError w e ''Error in reconcile of secret for CPI configuration''))
              (thenM (onErr (reconcileConfigMap w items cpiSecretKey)
                       (\<lambda>e. updateCPIStatusForError w e ''Error in reconcile of configmap for CPI configuration''))
              (thenM (deployCPI w)
              (thenM (onErr (reconcileCPIDeploymentStatus w)
                       (\<lambda>e. updateCPIStatusForError w e ''Error in reconcile of deployment status for CPI''))
              (thenM (markCPIDeployed w)
              (thenM (syncNodes w items)
                (onErr (reconcileNodeLabel w req) (\<lambda>e. updateCPIStatusForError w e (Error e))))))))))"
      unfolding cpi_parts Let_def by (intro no_panic_intro)
    with f Ok show ?thesis by (simp add: reconcileCPIConfiguration_def bindM_def no_panic_def)
  qed (use f q in \<open>simp_all add: reconcileCPIConfiguration_def bindM_def\<close>)
qed

text \<open>
  C11. \<open>Reconcile\<close> returns, with or without an error, and does not panic, whatever the cluster, the
  vCenters and the files answer, as long as the discovery client can be created and the volumes
  of the daemon set that the code rewrites are host paths.
\<close>

theorem Reconcile_no_panic:
  assumes "\<And>tr. \<exists>u. w_newDiscovery w tr = Inr u"
    and "\<And>tr key ds. w_getDaemonSet w tr key = Inr ds \<Longrightarrow> host_paths ds"
  shows "\<exists>r t. Reconcile w req s = (r, t) \<and> (r = Ok () \<or> (\<exists>e. r = Err e))"
proof -
  have check: "no_panic (CheckCompatAndRetrieveSpec w rq m)" for rq m
    using CheckCompat_panics [of w rq m] assms(1) by (simp add: no_panic_def) (metis Inl_Inr_False prod.collapse)
  have "no_panic (reconcileCSIConfiguration w rq)" for rq
    unfolding reconcileCSIConfiguration_def csi_parts
    by (intro no_panic_intro daemon_set_no_panic; simp add: assms(2))
  with check cpi_no_panic have drivers: "no_panic (reconcileDrivers w rq)" for rq
    unfolding reconcileDrivers_def by (intro no_panic_intro)
  obtain r t where run: "Reconcile w req s = (r, t)" by force
  have "r \<noteq> Panic p" for p using Reconcile_split [OF run] no_panicD [OF drivers] by blast
  then show ?thesis using run by (cases r) auto
qed

theorem Reconcile_no_panic_witness:
  "\<exists>r t. Reconcile full_world lab_req run_St = (r, t) \<and> (r = Ok () \<or> (\<exists>e. r = Err e))"
  by (rule Reconcile_no_panic) (auto simp: host_paths_def lab_ds_def)

end
