(* ===== verification/Cloud_Config.thy ===== *)
theory Cloud_Config
  imports Vdo_Phases
begin

text \<open>
  The reconcilers of the other two resources:
  \<^verbatim>\<open>VsphereCloudConfig\<close> (\<^verbatim>\<open>controllers/vspherecloudconfig_controller.go\<close>), which checks the
  credentials of a vCenter and records the result, and \<^verbatim>\<open>CompatibilityConfig\<close>
  (\<^verbatim>\<open>controllers/compatibilityconfig_controller.go\<close>), which is meant to copy the location of the matrix
  into the ConfigMap.
\<close>

section \<open>The cloud configuration of a vCenter\<close>

definition setVccStatus :: "ConfigStatus \<Rightarrow> string \<Rightarrow> VsphereCloudConfig \<Rightarrow> VsphereCloudConfig" where
  "setVccStatus st msg config = config\<lparr>VccStatus := \<lparr>ConfigState = st, Message = msg\<rparr>\<rparr>"

text \<open>
  The function returns the configuration with its new status and an error or nil. The answer of
  \<^verbatim>\<open>SessionIsActive\<close> is logged, not looked at. \<^verbatim>\<open>GetOrCreate\<close> never returns a nil session
  without an error.
\<close>

definition vccCredentials :: "'v world \<Rightarrow> VsphereCloudConfig \<Rightarrow> (err + string \<times> string) M" where
  "vccCredentials w config =
     (if Credentials (VccSpec config) \<noteq> [] then
        (let key = \<lparr>NnNamespace = VC_CREDS_SECRET_NS, NnName = Credentials (VccSpec config)\<rparr> in
         tryM (bindM (ask (GetSecret key) (\<lambda>t. w_getSecret w t key))
           (\<lambda>vcCredsSecret. ret (mindex (SecretData vcCredsSecret) ''username'',
                                 mindex (SecretData vcCredsSecret) ''password''))))
      else ret (Inr ([], [])))"

definition checkSession :: "'v world \<Rightarrow> VsphereCloudConfig \<Rightarrow> Session \<Rightarrow> (VsphereCloudConfig \<times> err option) M" where
  "checkSession w config sess =
     (let vcIp = VcIP (VccSpec config); msg = ''unable to verify session for vc '' @ vcIp in
      bindM (tryM (ask (SessionIsActive (SessClient sess)) (\<lambda>t. w_sessionIsActive w t (SessClient sess))))
        (\<lambda>r. case r of
           Inl e \<Rightarrow> ret (setVccStatus VsphereConfigFailed msg config, Some (Wrapped msg e))
         | Inr state \<Rightarrow> ret (setVccStatus VsphereConfigVerified [] config, None)))"

definition reconcileVCCredentials :: "'v world \<Rightarrow> VsphereCloudConfig \<Rightarrow> (VsphereCloudConfig \<times> err option) M" where
  "reconcileVCCredentials w config =
     bindM (vccCredentials w config)
       (\<lambda>creds. case creds of
          Inl e \<Rightarrow> (let msg = ''could not fetch vc credentials secret '' @ Credentials (VccSpec config) in
                    ret (setVccStatus VsphereConfigFailed msg config, Some (Wrapped msg e)))
        | Inr (vcUser, vcUserPwd) \<Rightarrow>
            (let vcIp = VcIP (VccSpec config);
                 msg = ''Error establishing session with vcenter '' @ vcIp @ '' for user '' @ vcUser in
             bindM (tryM (GetOrCreate w vcIp (DataCenters (VccSpec config)) vcUser vcUserPwd (Thumbprint (VccSpec config))))
               (\<lambda>r. case r of
                  Inl e \<Rightarrow> ret (setVccStatus VsphereConfigFailed msg config, Some (Wrapped msg e))
                | Inr sess \<Rightarrow> checkSession w config sess)))"

definition ReconcileVcc :: "'v world \<Rightarrow> NamespacedName \<Rightarrow> unit M" where
  "ReconcileVcc w req =
     bindM (wrapM (''could not fetch vSphereCLoudConfig resource '' @ nnString req)
              (ask (GetVCC req) (\<lambda>t. w_getVCC w t req)))
       (\<lambda>config0. bindM (reconcileVCCredentials w config0)
         (\<lambda>(config, failure). case failure of
            Some e \<Rightarrow> thenM (tryM (ask (StatusUpdateVCC config) (\<lambda>t. w_statusVCC w t config))) (throw e)
          | None \<Rightarrow> thenM (ask (StatusUpdateVCC config) (\<lambda>t. w_statusVCC w t config)) (ret ())))"

section \<open>The compatibility configuration\<close>

text \<open>The guard lets only a request without a name and without a namespace through.\<close>

definition ReconcileCompat :: "'v world \<Rightarrow> NamespacedName \<Rightarrow> unit M" where
  "ReconcileCompat w req =
     (if NnName req \<noteq> [] \<or> NnNamespace req \<noteq> [] then ret ()
      else bindM (wrapM (''could not fetch CompatibilityConfig resource '' @ nnString req)
                    (ask (GetCompatConfig req) (\<lambda>t. w_getCompat w t req)))
        (\<lambda>compatibilityConfig. if MatrixURL compatibilityConfig \<noteq> [] then
             bindM (ask (GetConfigMap req) (\<lambda>t. w_getConfigMap w t req))
               (\<lambda>configMap. bindM (liftO (mstore (CmData configMap) CM_URL_KEY (MatrixURL compatibilityConfig)))
                 (\<lambda>d. let configMap1 = configMap\<lparr>CmData := d\<rparr> in
                    ask (UpdateConfigMapReq configMap1) (\<lambda>t. w_updateConfigMap w t configMap1)))
           else ret ()))"

definition compatRequests :: "string \<Rightarrow> CompatibilityConfig \<Rightarrow> NamespacedName list" where
  "compatRequests vdoNamespace compatibilityConfig =
     (if CcNamespace compatibilityConfig = vdoNamespace
      then [\<lparr>NnNamespace = vdoNamespace, NnName = CcName compatibilityConfig\<rparr>] else [])"

section \<open>Properties\<close>

text \<open>What a check of the credentials finds: the session it would use, or nothing.\<close>

lemma vccCredentials_run:
  "vccCredentials w c s = (r, t) \<Longrightarrow> (\<exists>x. r = Ok x) \<and> emits reading_call s t"
  by (auto simp: vccCredentials_def Let_def tryM_def bindM_def ask_def outcome_of_def
    intro!: emitsI split: if_splits sum.splits)

lemma GetOrCreate_reads: "keeps (emits reading_call) (GetOrCreate w server dcs user pwd thumb)"
  by (rule keeps_emits_mono [OF GetOrCreate_emits]) simp

lemma checkSession_run:
  "checkSession w c sess s = (r, t) \<Longrightarrow>
   t = s\<lparr>trace := trace s @ [SessionIsActive (SessClient sess)]\<rparr> \<and>
   r = Ok (case w_sessionIsActive w (trace s) (SessClient sess) of
       Inl e \<Rightarrow> (let msg = ''unable to verify session for vc '' @ VcIP (VccSpec c) in
                 (setVccStatus VsphereConfigFailed msg c, Some (Wrapped msg e)))
     | Inr b \<Rightarrow> (setVccStatus VsphereConfigVerified [] c, None))"
  by (auto simp: checkSession_def Let_def tryM_def bindM_def ask_def outcome_of_def split: sum.splits)

text \<open>The credentials of a configuration: those of its secret, or empty ones if it names none.\<close>

definition vcc_login :: "'v world \<Rightarrow> VsphereCloudConfig \<Rightarrow> string \<Rightarrow> string \<Rightarrow> bool" where
  "vcc_login w c user pwd \<longleftrightarrow>
     (if Credentials (VccSpec c) = [] then user = [] \<and> pwd = [] else login_of w c (user, pwd))"

text \<open>Failed with an error, or Verified with an answer of the session, whatever it is.\<close>

definition verdict :: "'v world \<Rightarrow> VsphereCloudConfig \<Rightarrow> VsphereCloudConfig \<Rightarrow> err option \<Rightarrow> bool" where
  "verdict w config config' failure \<longleftrightarrow>
     (\<exists>msg e. failure = Some e \<and> msg \<noteq> [] \<and> config' = setVccStatus VsphereConfigFailed msg config) \<or>
     (failure = None \<and> config' = setVccStatus VsphereConfigVerified [] config \<and>
      (\<exists>user pwd s1 sess s2 b. GetOrCreate w (VcIP (VccSpec config)) (DataCenters (VccSpec config)) user pwd
           (Thumbprint (VccSpec config)) s1 = (Ok sess, s2) \<and>
         w_sessionIsActive w (trace s2) (SessClient sess) = Inr b \<and>
         vcc_login w config user pwd))"

lemma vccCredentials_Inr: "vccCredentials w c s = (Ok (Inr (user, pwd)), t) \<Longrightarrow> vcc_login w c user pwd"
  by (auto simp: vccCredentials_def vcc_login_def login_of_def Let_def runs split: if_splits)

lemma reconcileVCCredentials_run:
  assumes "reconcileVCCredentials w c s = (r, t)"
  shows "emits reading_call s t \<and> (\<exists>c' failure. r = Ok (c', failure) \<and> verdict w c c' failure)"
proof -
  obtain q u where v: "vccCredentials w c s = (q, u)" by force
  from vccCredentials_run [OF v] obtain x where q: "q = Ok x" and su: "emits reading_call s u" by blast
  show ?thesis
  proof (cases x)
    case (Inl e)
    with assms v q su show ?thesis
      by (auto simp: reconcileVCCredentials_def bindM_def Let_def verdict_def)
  next
    case (Inr creds)
    obtain user pwd where creds: "creds = (user, pwd)" by force
    let ?sess = "GetOrCreate w (VcIP (VccSpec c)) (DataCenters (VccSpec c)) user pwd (Thumbprint (VccSpec c))"
    obtain q2 v2 where g: "?sess u = (q2, v2)" by force
    have uv: "emits reading_call u v2" by (rule keepsD [OF GetOrCreate_reads g])
    have np: "q2 \<noteq> Panic p" for p using g no_panicD [OF GetOrCreate_no_panic] by blast
    show ?thesis
    proof (cases q2)
      case (Ok sess)
      obtain q3 v3 where ch: "checkSession w c sess v2 = (q3, v3)" by force
      note run = checkSession_run [OF ch]
      have "emits reading_call v2 v3" using run by (intro emitsI) auto
      with su uv emits.R_trans have st: "emits reading_call s v3" by blast
      have "r = q3" "t = v3"
        using assms v q Inr creds g Ok ch
        by (auto simp: reconcileVCCredentials_def bindM_def Let_def tryM_def)
      moreover have "\<exists>c' failure. q3 = Ok (c', failure) \<and> verdict w c c' failure"
        using run g Ok vccCredentials_Inr [of w c s user pwd u] v q Inr creds
        by (cases "w_sessionIsActive w (trace v2) (SessClient sess)") (auto simp: verdict_def Let_def; blast)+
      ultimately show ?thesis using st by blast
    next
      case (Err e)
      with assms v q Inr creds g su uv emits.R_trans show ?thesis
        by (auto simp: reconcileVCCredentials_def bindM_def Let_def tryM_def verdict_def)
    qed (use np in simp)
  qed
qed

text \<open>A session that answers that it is not active is taken as verified too.\<close>

lemma inactive_session_verified:
  assumes "vccCredentials w c s = (Ok (Inr (user, pwd)), u)"
    and "GetOrCreate w (VcIP (VccSpec c)) (DataCenters (VccSpec c)) user pwd (Thumbprint (VccSpec c)) u = (Ok sess, v)"
    and "w_sessionIsActive w (trace v) (SessClient sess) = Inr False"
  shows "fst (reconcileVCCredentials w c s) = Ok (setVccStatus VsphereConfigVerified [] c, None)"
  using assms by (simp add: reconcileVCCredentials_def checkSession_def bindM_def Let_def tryM_def ask_def)

lemma ReconcileVcc_run:
  assumes "ReconcileVcc w req s = (r, t)" and "w_getVCC w (trace s) req = Inr config"
  shows "\<exists>cs config' failure. trace t = trace s @ GetVCC req # cs @ [StatusUpdateVCC config'] \<and>
    list_all reading_call cs \<and> verdict w config config' failure \<and> VccSpec config' = VccSpec config \<and>
    (case failure of None \<Rightarrow> r = Ok () \<longleftrightarrow> (\<exists>x. w_statusVCC w (trace s @ GetVCC req # cs) config' = Inr x)
     | Some e \<Rightarrow> r = Err e)"
proof -
  let ?s1 = "s\<lparr>trace := trace s @ [GetVCC req]\<rparr>"
  obtain q u where run: "reconcileVCCredentials w config ?s1 = (q, u)" by force
  from reconcileVCCredentials_run [OF run] obtain config' failure cs where q: "q = Ok (config', failure)"
    and v: "verdict w config config' failure" and u: "trace u = trace ?s1 @ cs" "list_all reading_call cs"
    by (auto elim!: emitsE)
  have spec: "VccSpec config' = VccSpec config" using v by (auto simp: verdict_def setVccStatus_def)
  have "trace t = trace u @ [StatusUpdateVCC config'] \<and>
    (case failure of None \<Rightarrow> r = Ok () \<longleftrightarrow> (\<exists>x. w_statusVCC w (trace u) config' = Inr x) | Some e \<Rightarrow> r = Err e)"
    using assms run q
    by (cases "w_statusVCC w (trace u) config'"; cases failure)
      (auto simp: ReconcileVcc_def bindM_def wrapM_def ask_def thenM_def tryM_def)
  then show ?thesis using u v spec by (intro exI [of _ cs] exI [of _ config'] exI [of _ failure]) (cases failure; simp)
qed


definition vcc_world :: "nat list world" where
  "vcc_world = full_world\<lparr>w_sessionIsActive := \<lambda>t c. Inr False, w_statusVCC := \<lambda>t c. Inr c\<rparr>"

lemma vcc_world_sel [simp]:
  "w_sessionIsActive vcc_world = (\<lambda>t c. Inr False)" "w_statusVCC vcc_world = (\<lambda>t c. Inr c)"
  "w_getVCC vcc_world = (\<lambda>t k. Inr lab_vcc)" "w_getSecret vcc_world = w_getSecret store_world"
  "w_newVimClient vcc_world = (\<lambda>_ _ _ _. Inr lab_client)" "w_login vcc_world = (\<lambda>_ _ _. Inr ())"
  "w_findDatacenter vcc_world = (\<lambda>_ _ n. Inr (Some \<lparr>DcId = 1, InventoryPath = n\<rparr>))"
  "p_parseURL vcc_world = p_parseURL down_world"
  by (simp_all add: vcc_world_def full_world_def ready_world_def store_world_def lab_world_def login_world_def)


text \<open>
  The reconciler of \<^verbatim>\<open>CompatibilityConfig\<close> does nothing: whatever event arrives, the request made
  for a resource has its name and namespace, and a run for it makes no request and succeeds, so
  a changed matrix URL never reaches the ConfigMap.
\<close>

theorem ReconcileCompat_inert:
  assumes "CcName compatibilityConfig \<noteq> []" and "req \<in> set (compatRequests vdoNamespace compatibilityConfig)"
  shows "ReconcileCompat w req s = (Ok (), s)"
  using assms by (auto simp: compatRequests_def ReconcileCompat_def split: if_splits)

theorem ReconcileCompat_inert_witness:
  "ReconcileCompat full_world \<lparr>NnNamespace = ''vdo'', NnName = ''matrix''\<rparr> lab_St = (Ok (), lab_St)"
  by (rule ReconcileCompat_inert [of "\<lparr>CcName = ''matrix'', CcNamespace = ''vdo'', MatrixURL = ''https://m''\<rparr>" _ "''vdo''"])
    (simp_all add: compatRequests_def)

end
