(* ===== verification/Operator.thy ===== *)
theory Operator
  imports Cloud_Config
begin

text \<open>
  The operator process: the three reconcilers over one state, as a sequence of runs, each for any
  request and against any answers of the cluster. The facts on the state that every run keeps are
  proved here for each operation; the theory \<open>Spec2Isabelle\<close> states them for all reachable states.
  The runs are taken one after the other: each reconciler has a single worker, and two reconcilers
  share the session cache only, whose operation is atomic under its mutex.
\<close>

section \<open>The state\<close>

text \<open>A driver's files are those of the recorded version in some matrix, or there are none.\<close>

definition drivers_wf :: "St \<Rightarrow> bool" where
  "drivers_wf s \<longleftrightarrow>
     (CsiDeploymentYamls s = [] \<or> CurrentCSIDeployedVersion s \<noteq> [] \<and>
        (\<exists>m. CsiDeploymentYamls s = CsiDeploymentPaths (csiInfo m (CurrentCSIDeployedVersion s)))) \<and>
     (CpiDeploymentYamls s = [] \<or> CurrentCPIDeployedVersion s \<noteq> [] \<and>
        (\<exists>m. CpiDeploymentYamls s = CpiDeploymentPaths (cpiInfo m (CurrentCPIDeployedVersion s))))"

definition namespace_wf :: "St \<Rightarrow> bool" where
  "namespace_wf s \<longleftrightarrow> CsiNamespace s = ''vmware-system-csi'' \<or> CsiNamespace s = ''kube-system''"

text \<open>One entry per key; every session carries the user agent and the version of its own client.\<close>

definition session_wf :: "Session \<Rightarrow> bool" where
  "session_wf c \<longleftrightarrow> UserAgent (SessClient c) = groupVersion \<and> VsphereVersion c = AboutVersion (SessClient c)"

definition cache_wf :: "St \<Rightarrow> bool" where
  "cache_wf s \<longleftrightarrow> distinct (map fst (sessionCache s)) \<and> list_all (\<lambda>(k, c). session_wf c) (sessionCache s)"

definition process_wf :: "St \<Rightarrow> bool" where
  "process_wf s \<longleftrightarrow> drivers_wf s \<and> namespace_wf s \<and> cache_wf s"

lemma process_wf_init: "process_wf init_St"
  by (simp add: process_wf_def drivers_wf_def namespace_wf_def cache_wf_def)

section \<open>What every run keeps\<close>

text \<open>The fields that the operations of the process change, besides the trace, the configuration and the environment.\<close>

definition wf_fields :: "St \<Rightarrow> string list \<times> string \<times> string list \<times> string \<times> string \<times> (string \<times> Session) list" where
  "wf_fields s = (CsiDeploymentYamls s, CurrentCSIDeployedVersion s, CpiDeploymentYamls s,
     CurrentCPIDeployedVersion s, CsiNamespace s, sessionCache s)"

lemma wf_fields_upd [simp]:
  "wf_fields (s\<lparr>trace := l\<rparr>) = wf_fields s" "wf_fields (s\<lparr>cfg := c\<rparr>) = wf_fields s"
  "wf_fields (s\<lparr>cfg := c, trace := l\<rparr>) = wf_fields s" "wf_fields (s\<lparr>environ := e\<rparr>) = wf_fields s"
  "wf_fields (s\<lparr>VDO_NAMESPACE := n\<rparr>) = wf_fields s"
  by (simp_all add: wf_fields_def)

text \<open>
  A relation that is closed under what the code does to those fields - taking a session from the cache or opening one,
  recording the files of a driver, moving the namespace - relates the ends of every run.
\<close>

locale process_relation = step_relation R for R :: "St \<Rightarrow> St \<Rightarrow> bool" +
  fixes w :: "'v world"
  assumes quiet: "wf_fields t = wf_fields s \<Longrightarrow> R s t"
    and session: "keeps R (GetOrCreate w server dcs user pwd thumb)"
    and fetch_csi: "keeps R (FetchCsiDeploymentYamls w m vs k)"
    and fetch_cpi: "keeps R (FetchCpiDeploymentYamls w m vs k)"
    and namespace: "ns = ''vmware-system-csi'' \<or> ns = ''kube-system'' \<Longrightarrow> keeps R (setCsiNamespace ns)"
begin

lemma run_other: "keeps (fixes_field wf_fields) m \<Longrightarrow> keeps R m"
  by (simp add: keeps_def fixes_field_def quiet)

lemma run_ask: "keeps R (ask c f)"
  by (rule run_other) (auto intro!: keeps_intro)

lemma run_modCfg: "keeps R (modCfg g)"
  by (rule run_other) (auto intro!: keeps_intro)

lemmas run_intro = keeps_pure keeps_bindM keeps_thenM keeps_tryM keeps_wrapM keeps_onErr
  keeps_mapM keeps_forM keeps_foldM keeps_if keeps_case_option keeps_case_sum keeps_case_prod
  run_ask run_modCfg session fetch_csi fetch_cpi namespace

lemma run_place: "keeps R (placeCSINamespace w)"
  unfolding placeCSINamespace_def createCSINamespace_def deleteCSINamespace_def Let_def
  by (intro run_intro; simp)

lemma run_vcenter: "keeps R (getVcSession w c)" "keeps R (FetchVsphereVersions w req)"
  "keeps R (checkNodeExistence w cs node)"
proof -
  have creds: "keeps R (fetchVcCredentials w c)" "keeps R (fetchVSphereCloudConfig w n ns)" for c n ns
    unfolding fetchVcCredentials_def fetchVSphereCloudConfig_def Let_def by (intro run_intro)+
  have session: "keeps R (getVcSession w c)" for c
    unfolding getVcSession_def Let_def by (intro run_intro creds)
  have vm: "keeps R (GetVMByIP w ip dcs)" for ip dcs
    by (induction dcs arbitrary: ip) (auto simp: Let_def intro!: run_intro)
  show "keeps R (getVcSession w c)" "keeps R (FetchVsphereVersions w req)"
    unfolding FetchVsphereVersions_def Let_def by (intro run_intro session creds)+
  show "keeps R (checkNodeExistence w cs node)"
    by (induction cs) (auto intro!: run_intro session vm)
qed

lemma run_check: "keeps R (CheckCompatAndRetrieveSpec w req m)"
proof -
  have "keeps R (Fetchk8sVersions w)" "keeps R (readMatrix w m)"
    by (intro run_other keeps_intro; simp)+
  then show ?thesis
    unfolding CheckCompatAndRetrieveSpec_def by (intro run_intro run_vcenter run_place)
qed

lemma run_status: "keeps R (updateCPIPhase w p m)" "keeps R (updateCSIPhase w p m)"
  "keeps R (updateCPIStatusForError w e m)" "keeps R (updateCSIStatusForError w e m)"
  "keeps R (updateVdoConfigWithNodeStatus w p n)"
  by (intro run_other keeps_intro; simp)+

lemma run_parts: "keeps R (fetchVsphereCloudConfigItems w req l)" "keeps R (requireVerified w c)"
  "keeps R (reconcileCPISecret w cs key)" "keeps R (reconcileConfigMap w cs key)"
  "keeps R (reconcileCSISecret w c)" "keeps R (reconcileCPIDeployment w)"
  "keeps R (reconcileCPIDeploymentStatus w)"
  by (intro run_other keeps_intro; simp)+

lemma run_nodes: "keeps R (reconcileNodeProviderID w cs)" "keeps R (reconcileNodeLabel w req)"
  unfolding reconcileNodeProviderID_def nodeStep_def reconcileNodeLabel_def labelStep_def Let_def
  by (intro run_intro run_vcenter run_status)+

lemma run_cpi: "keeps R (reconcileCPIConfiguration w req)"
  unfolding reconcileCPIConfiguration_def cpi_parts Let_def by (intro run_intro run_parts run_nodes run_status)

lemma run_csi: "keeps R (reconcileCSIConfiguration w req)"
  unfolding reconcileCSIConfiguration_def csi_parts by (intro run_other keeps_intro; simp)

lemma run_vdo: "keeps R (Reconcile w req)"
proof -
  have ns: "keeps R (modS (\<lambda>s. s\<lparr>VDO_NAMESPACE := environ s ''VDO_NAMESPACE''\<rparr>))"
    by (intro run_other keeps_intro) simp
  have info: "keeps R (updateMatrixInfo w req)"
    unfolding updateMatrixInfo_def setEnvVariables_def by (intro run_other keeps_intro; simp)
  have "keeps R (reconcileDrivers w req)" for req
    unfolding reconcileDrivers_def by (intro run_intro run_check run_cpi run_csi)
  then show ?thesis
    unfolding Reconcile_def by (intro run_intro ns info) (auto split: list.split intro!: run_intro)
qed

lemma run_vcc: "keeps R (ReconcileVcc w req)"
  unfolding ReconcileVcc_def reconcileVCCredentials_def vccCredentials_def checkSession_def Let_def
  by (intro run_intro)

lemma run_compat: "keeps R (ReconcileCompat w req)"
  unfolding ReconcileCompat_def Let_def by (intro run_intro)

end

section \<open>The invariant is kept\<close>

definition keeps_wf :: "St \<Rightarrow> St \<Rightarrow> bool" where
  "keeps_wf s t \<longleftrightarrow> (process_wf s \<longrightarrow> process_wf t)"

interpretation wf_step: step_relation keeps_wf
  by unfold_locales (auto simp: keeps_wf_def)

lemma wf_fields_eq: "wf_fields t = wf_fields s \<Longrightarrow> process_wf t = process_wf s"
  by (simp add: wf_fields_def process_wf_def drivers_wf_def namespace_wf_def cache_wf_def)

lemma wf_other: "keeps (fixes_field wf_fields) m \<Longrightarrow> keeps keeps_wf m"
  using wf_fields_eq unfolding keeps_def fixes_field_def keeps_wf_def by blast

lemma createSession_wf: "createSession w server dcs user pwd thumb s = (Ok sess, t) \<Longrightarrow> session_wf sess"
  by (cases "p_parseURL w server")
    (auto simp: createSession_def bindM_Ok_iff Let_def session_wf_def split: option.splits)

lemma wf_store_session:
  assumes "session_wf c"
  shows "keeps keeps_wf (modS (\<lambda>s. s\<lparr>sessionCache := AList.update k c (sessionCache s)\<rparr>))"
proof -
  have "list_all (\<lambda>(k, c). session_wf c) (AList.update k c xs)" if "list_all (\<lambda>(k, c). session_wf c) xs" for xs
    using that assms by (induction xs) auto
  moreover have "distinct (map fst (AList.update k c xs))" if "distinct (map fst xs)" for xs
    using that by (rule distinct_update)
  ultimately show ?thesis
    by (intro wf_step.keeps_modS) (simp add: keeps_wf_def process_wf_def drivers_wf_def namespace_wf_def cache_wf_def)
qed

lemma wf_session: "keeps keeps_wf (GetOrCreate w server dcs user pwd thumb)"
  unfolding GetOrCreate_def Let_def
proof (rule wf_step.keeps_bindM)
  show "keeps keeps_wf (cachedSession w (server @ user) dcs)"
    unfolding cachedSession_def sessionActive_def by (intro wf_other keeps_intro; simp)
next
  fix hit s t
  have "keeps keeps_wf (createSession w server dcs user pwd thumb)"
    unfolding createSession_def newClient_def findDatacenters_def Let_def by (intro wf_other keeps_intro; simp)
  then show "keeps keeps_wf (case hit of None \<Rightarrow> bindM (createSession w server dcs user pwd thumb)
      (\<lambda>sess. thenM (modS (\<lambda>s. s\<lparr>sessionCache := AList.update (server @ user) sess (sessionCache s)\<rparr>)) (ret sess))
    | Some c \<Rightarrow> ret c)"
    by (intro keeps_intro wf_store_session createSession_wf)
qed

lemma drivers_wf_iff: "drivers_wf s \<longleftrightarrow> csi_driver.coherent s \<and> cpi_driver.coherent s"
  by (simp add: drivers_wf_def csi_driver.coherent_def cpi_driver.coherent_def)

lemma wf_fetch_csi: "keeps keeps_wf (FetchCsiDeploymentYamls w m vs k)"
proof (rule keepsI)
  fix s r t assume run: "FetchCsiDeploymentYamls w m vs k s = (r, t)"
  have "fixes_field (\<lambda>s. (CpiDeploymentYamls s, CurrentCPIDeployedVersion s, CsiNamespace s, sessionCache s)) s t"
    by (rule keepsD [OF csi_driver.fetch_fixed run]) simp_all
  with csi_driver.coherent_fetch [OF _ run] show "keeps_wf s t"
    by (auto simp: keeps_wf_def process_wf_def drivers_wf_iff cpi_driver.coherent_def namespace_wf_def cache_wf_def
      fixes_field_def)
qed

lemma wf_fetch_cpi: "keeps keeps_wf (FetchCpiDeploymentYamls w m vs k)"
proof (rule keepsI)
  fix s r t assume run: "FetchCpiDeploymentYamls w m vs k s = (r, t)"
  have "fixes_field (\<lambda>s. (CsiDeploymentYamls s, CurrentCSIDeployedVersion s, CsiNamespace s, sessionCache s)) s t"
    by (rule keepsD [OF cpi_driver.fetch_fixed run]) simp_all
  with cpi_driver.coherent_fetch [OF _ run] show "keeps_wf s t"
    by (auto simp: keeps_wf_def process_wf_def drivers_wf_iff csi_driver.coherent_def namespace_wf_def cache_wf_def
      fixes_field_def)
qed

lemma wf_namespace: "ns = ''vmware-system-csi'' \<or> ns = ''kube-system'' \<Longrightarrow> keeps keeps_wf (setCsiNamespace ns)"
  unfolding setCsiNamespace_def
  by (rule wf_step.keeps_modS) (auto simp: keeps_wf_def process_wf_def drivers_wf_def namespace_wf_def cache_wf_def)

interpretation wf: process_relation keeps_wf w for w
proof unfold_locales
  show "keeps_wf s t" if "wf_fields t = wf_fields s" for s t
    using wf_fields_eq [OF that] by (simp add: keeps_wf_def)
qed (rule wf_session wf_fetch_csi wf_fetch_cpi wf_namespace, assumption?)+

section \<open>Runs of the operator\<close>

datatype event = VdoEvent NamespacedName | VccEvent NamespacedName | CompatEvent NamespacedName

fun handle :: "'v world \<Rightarrow> event \<Rightarrow> St \<Rightarrow> unit outcome \<times> St" where
  "handle w (VdoEvent req) = Reconcile w req"
| "handle w (VccEvent req) = ReconcileVcc w req"
| "handle w (CompatEvent req) = ReconcileCompat w req"

text \<open>
  \<open>operator W s\<close>: some sequence of events, each against a world of \<open>W\<close>, leads from the start of
  the process to \<open>s\<close>. The environment of the process is any.
\<close>

inductive operator :: "'v world set \<Rightarrow> St \<Rightarrow> bool" for W where
  start: "operator W (init_St\<lparr>environ := env\<rparr>)"
| event: "operator W s \<Longrightarrow> w \<in> W \<Longrightarrow> handle w e s = (r, t) \<Longrightarrow> operator W t"

inductive_cases operatorE: "operator W s"

context process_relation begin

lemma handle_keeps: "keeps R (handle w e)"
  by (cases e) (simp_all add: run_vdo run_vcc run_compat)

end

lemma handle_wf: "handle w e s = (r, t) \<Longrightarrow> process_wf s \<Longrightarrow> process_wf t"
  using keepsD [OF wf.handle_keeps, of w e s r t] by (simp add: keeps_wf_def)

lemma operator_wf: "operator W s \<Longrightarrow> process_wf s"
proof (induction rule: operator.induct)
  case (start env)
  show ?case using process_wf_init wf_fields_eq [of "init_St\<lparr>environ := env\<rparr>" init_St] by simp
next
  case (event s w e r t)
  then show ?case using handle_wf by blast
qed

end
