(* ===== verification/Ctl_Prompt.thy ===== *)
theory Ctl_Prompt
  imports Sample_World
begin

text \<open>
  The terminal of \<^verbatim>\<open>vdoctl\<close> (\<^verbatim>\<open>vdoctl/pkg/utils/promptutil.go\<close>) and the check that the
  operator runs (\<^verbatim>\<open>vdoctl/cmd/root.go\<close>).

  In the theories of the command line tool an \<open>Err\<close> that leaves a command is the end of the
  process with code 1, by \<^verbatim>\<open>cobra.CheckErr\<close> or by \<^verbatim>\<open>os.Exit(1)\<close>. A loop that the user can
  keep going has fuel; out of fuel it ends in \<open>Panic outOfFuel\<close>, which no panic of the code shares.
\<close>

definition say :: "string \<Rightarrow> unit M" where
  "say s = ask (Print s) (\<lambda>_. Inr ())"

definition newline :: string where
  "newline = [CHR 10]"

definition tab :: string where
  "tab = [CHR 9]"

definition outOfFuel :: string where
  "outOfFuel = ''out of fuel''"

section \<open>Input\<close>

definition PromptGetInput :: "'v world \<Rightarrow> string \<Rightarrow> ValidationFlags \<Rightarrow> string M" where
  "PromptGetInput w label flag =
     onErr (ask (PromptInput label flag) (\<lambda>t. w_input w t label flag))
       (\<lambda>e. say (''Prompt failed '' @ Error e @ newline))"

text \<open>The loop of \<^verbatim>\<open>PromptGetSelect\<close>: an added item has a negative index.\<close>

fun selectLoop :: "nat \<Rightarrow> 'v world \<Rightarrow> string list \<Rightarrow> string \<Rightarrow> (string \<times> err option) M" where
  "selectLoop 0 w items label = panic outOfFuel"
| "selectLoop (Suc n) w items label =
     bindM (ask (PromptSelect items label) (\<lambda>t. Inr (w_select w t items label)))
       (\<lambda>(index, result, e).
          if index < 0 then selectLoop n w (if index = -1 then items @ [result] else items) label
          else ret (result, e))"

definition PromptGetSelect :: "nat \<Rightarrow> 'v world \<Rightarrow> string list \<Rightarrow> string \<Rightarrow> string M" where
  "PromptGetSelect n w items label =
     bindM (selectLoop n w items label)
       (\<lambda>(result, e). case e of
          None \<Rightarrow> ret result
        | Some e \<Rightarrow> thenM (say (''Prompt failed '' @ Error e @ newline)) (throw e))"

section \<open>Validation\<close>

definition CheckIfUrl :: "'v world \<Rightarrow> string \<Rightarrow> bool" where
  "CheckIfUrl w str =
     (case p_requestHost w str of
        Inl e \<Rightarrow> False
      | Inr host \<Rightarrow> if \<not> p_isIP w host then Contains host ''.'' else True)"

definition checkIPAddress :: "'v world \<Rightarrow> string \<Rightarrow> bool" where
  "checkIPAddress w ip = p_isIP w ip"

text \<open>
  The expression of \<^verbatim>\<open>checkIfFQDN\<close>: two or more labels separated by dots, an optional dot or
  underscore, and one more character that is not a dot. A character is a rune of UTF-8; a byte
  that begins none counts as one.
\<close>

definition labelStart :: "char \<Rightarrow> bool" where
  "labelStart c = (let n = (of_char c :: nat) in
     97 \<le> n \<and> n \<le> 122 \<or> 65 \<le> n \<and> n \<le> 90 \<or> 48 \<le> n \<and> n \<le> 57 \<or> c = CHR ''_'')"

definition labelOk :: "string \<Rightarrow> bool" where
  "labelOk l = (case l of [] \<Rightarrow> False
     | c # cs \<Rightarrow> labelStart c \<and> length cs \<le> 62 \<and> list_all (\<lambda>d. labelStart d \<or> d = CHR ''-'') cs)"

definition labelsOk :: "string \<Rightarrow> bool" where
  "labelsOk p = (let fs = Split p (CHR ''.'') in 2 \<le> length fs \<and> list_all labelOk fs)"

definition domainOk :: "string \<Rightarrow> bool" where
  "domainOk p = (labelsOk p \<or> p \<noteq> [] \<and> (last p = CHR ''.'' \<or> last p = CHR ''_'') \<and> labelsOk (butlast p))"

definition within :: "nat \<Rightarrow> nat \<Rightarrow> char \<Rightarrow> bool" where
  "within a b c = (a \<le> (of_char c :: nat) \<and> (of_char c :: nat) \<le> b)"

fun oneRune :: "string \<Rightarrow> bool" where
  "oneRune [a] = True"
| "oneRune [a, b] = (within 0xC2 0xDF a \<and> within 0x80 0xBF b)"
| "oneRune [a, b, c] =
     (within 0x80 0xBF c \<and>
      (a = CHR 0xE0 \<and> within 0xA0 0xBF b \<or> a = CHR 0xED \<and> within 0x80 0x9F b \<or>
       (within 0xE1 0xEC a \<or> within 0xEE 0xEF a) \<and> within 0x80 0xBF b))"
| "oneRune [a, b, c, d] =
     (within 0x80 0xBF c \<and> within 0x80 0xBF d \<and>
      (a = CHR 0xF0 \<and> within 0x90 0xBF b \<or> a = CHR 0xF4 \<and> within 0x80 0x8F b \<or>
       within 0xF1 0xF3 a \<and> within 0x80 0xBF b))"
| "oneRune _ = False"

definition checkIfFQDN :: "string \<Rightarrow> bool" where
  "checkIfFQDN s =
     list_ex (\<lambda>k. k \<le> length s \<and> oneRune (drop (length s - k) s) \<and> drop (length s - k) s \<noteq> ''.'' \<and>
                   domainOk (take (length s - k) s)) [1, 2, 3, 4]"

text \<open>What the prompt checks at every key: only a text without an error is returned.\<close>

definition validate :: "'v world \<Rightarrow> err \<Rightarrow> ValidationFlags \<Rightarrow> string \<Rightarrow> err option" where
  "validate w e flag input =
     (if input = [] then Some e
      else if flag = IsURL \<and> \<not> CheckIfUrl w input then Some (Msg ''Please provide a valid URL'')
      else if flag = IsIPorFQDN \<and> \<not> (checkIPAddress w input \<or> checkIfFQDN input)
      then Some (Msg ''Please provide a valid IP address/ FQDN'')
      else None)"

definition validates :: "'v world \<Rightarrow> bool" where
  "validates w \<longleftrightarrow> (\<forall>t label flag input e. w_input w t label flag = Inr input \<longrightarrow> validate w e flag input = None)"

section \<open>Is the operator running?\<close>

definition VdoDeploymentName :: string where
  "VdoDeploymentName = ''vdo-controller-manager''"

definition noDeployment :: Deployment where
  "noDeployment = \<lparr>DepName = [], DepNamespace = [], DepContainers = [], Replicas = 0, AvailableReplicas = 0\<rparr>"

definition IsVDODeployed :: "'v world \<Rightarrow> Deployment M" where
  "IsVDODeployed w =
     bindM (ask ListDeployments (w_listDeployments w))
       (\<lambda>ds. let found = find (\<lambda>d. DepName d = VdoDeploymentName) ds in
          thenM (case found of None \<Rightarrow> ret () | Some d \<Rightarrow> modS (\<lambda>s. s\<lparr>VdoCurrentNamespace := DepNamespace d\<rparr>))
            (bindM (getS VdoCurrentNamespace)
              (\<lambda>ns. let vdoDeployment = (case found of None \<Rightarrow> noDeployment | Some d \<Rightarrow> d) in
                 if ns = [] then throw (Msg ''VDO is currently not deployed, please deploy using `vdo deploy` command'')
                 else if Replicas vdoDeployment \<noteq> AvailableReplicas vdoDeployment
                 then throw (Msg ''not enough replicas of VDO'')
                 else ret vdoDeployment)))"

section \<open>The addresses that are accepted\<close>

lemma Split_fields: "x \<in> set (Split s c) \<Longrightarrow> c \<notin> set x"
  by (induction s arbitrary: x) (auto split: list.splits if_splits)

lemma Split_glue: "hd (Split s c) @ concat (map ((#) c) (tl (Split s c))) = s"
  by (induction s) (auto split: list.split simp: neq_Nil_conv)

lemma Split_glued: "c \<notin> set l \<Longrightarrow> \<forall>x \<in> set ls. c \<notin> set x \<Longrightarrow> Split (l @ concat (map ((#) c) ls)) c = l # ls"
proof (induction ls arbitrary: l)
  case Nil
  then show ?case by (simp add: Split_no_sep)
next
  case (Cons x ls)
  then show ?case using Split_append [of c l "x @ concat (map ((#) c) ls)"] by simp
qed

lemma labelOk_dot: "labelOk l \<Longrightarrow> CHR ''.'' \<notin> set l"
  by (auto simp: labelOk_def labelStart_def Let_def list_all_iff split: list.splits)

lemma labelsOk_iff:
  "labelsOk p \<longleftrightarrow> (\<exists>l ls. labelOk l \<and> ls \<noteq> [] \<and> list_all labelOk ls \<and> p = l @ concat (map ((#) CHR ''.'') ls))"
proof
  assume ok: "labelsOk p"
  obtain l ls where split: "Split p CHR ''.'' = l # ls" by (cases "Split p CHR ''.''") auto
  have "p = l @ concat (map ((#) CHR ''.'') ls)" using Split_glue [of p "CHR ''.''"] split by simp
  moreover have "labelOk l" "ls \<noteq> []" "list_all labelOk ls"
    using ok split by (auto simp: labelsOk_def)
  ultimately show "\<exists>l ls. labelOk l \<and> ls \<noteq> [] \<and> list_all labelOk ls \<and> p = l @ concat (map ((#) CHR ''.'') ls)"
    by blast
next
  assume "\<exists>l ls. labelOk l \<and> ls \<noteq> [] \<and> list_all labelOk ls \<and> p = l @ concat (map ((#) CHR ''.'') ls)"
  then obtain l ls where p: "labelOk l" "ls \<noteq> []" "list_all labelOk ls" "p = l @ concat (map ((#) CHR ''.'') ls)"
    by blast
  then have "Split p CHR ''.'' = l # ls"
    using Split_glued [of "CHR ''.''" l ls] labelOk_dot by (auto simp: list_all_iff)
  with p show "labelsOk p" by (cases ls) (auto simp: labelsOk_def)
qed

lemma domainOk_iff:
  "domainOk p \<longleftrightarrow> (\<exists>q opt. labelsOk q \<and> opt \<in> {[], ''.'', ''_''} \<and> p = q @ opt)"
proof
  assume "domainOk p"
  then consider "labelsOk p" | "p \<noteq> []" "last p = CHR ''.'' \<or> last p = CHR ''_''" "labelsOk (butlast p)"
    by (auto simp: domainOk_def)
  then show "\<exists>q opt. labelsOk q \<and> opt \<in> {[], ''.'', ''_''} \<and> p = q @ opt"
  proof cases
    case 2
    then show ?thesis
      by (intro exI [of _ "butlast p"] exI [of _ "[last p]"]) auto
  qed auto
qed (auto simp: domainOk_def)

lemma oneRune_length: "oneRune r \<Longrightarrow> length r \<in> {1, 2, 3, 4}"
  by (cases r rule: oneRune.cases) auto

lemma checkIfFQDN_split: "checkIfFQDN s \<longleftrightarrow> (\<exists>p r. domainOk p \<and> oneRune r \<and> r \<noteq> ''.'' \<and> s = p @ r)"
proof
  assume "checkIfFQDN s"
  then obtain k where "k \<le> length s" "oneRune (drop (length s - k) s)" "drop (length s - k) s \<noteq> ''.''"
    "domainOk (take (length s - k) s)"
    by (auto simp: checkIfFQDN_def)
  then show "\<exists>p r. domainOk p \<and> oneRune r \<and> r \<noteq> ''.'' \<and> s = p @ r"
    by (intro exI [of _ "take (length s - k) s"] exI [of _ "drop (length s - k) s"]) simp
next
  assume "\<exists>p r. domainOk p \<and> oneRune r \<and> r \<noteq> ''.'' \<and> s = p @ r"
  then obtain p r where s: "domainOk p" "oneRune r" "r \<noteq> ''.''" "s = p @ r" by blast
  then have "length r \<le> length s" "drop (length s - length r) s = r" "take (length s - length r) s = p" by simp_all
  moreover have "length r \<in> set [1, 2, 3, 4]" using oneRune_length [OF s(2)] by simp
  ultimately show "checkIfFQDN s"
    using s unfolding checkIfFQDN_def list_ex_iff by (intro bexI [of _ "length r"]) auto
qed


end
