(* ===== verification/Ctl_Matrix.thy ===== *)
theory Ctl_Matrix
  imports Ctl_Prompt Compat_Check
begin

text \<open>
  The compatibility matrix on the command line: \<^verbatim>\<open>vdoctl/cmd/configure_matrix.go\<close> and
  \<^verbatim>\<open>vdoctl/cmd/update_matrix.go\<close>. Both write the ConfigMap that the operator watches.
\<close>

definition CompatMatrixConfigMap :: string where
  "CompatMatrixConfigMap = ''compat-matrix-config''"

definition LocalFilepath :: string where
  "LocalFilepath = ''Local filepath''"

definition WebURL :: string where
  "WebURL = ''Web URL''"

definition UserConfig :: string where
  "UserConfig = ''user''"

definition DefaultNs :: string where
  "DefaultNs = ''vmware-system-vdo''"

definition matrixKey :: "St \<Rightarrow> NamespacedName" where
  "matrixKey s = \<lparr>NnNamespace = VdoCurrentNamespace s, NnName = CompatMatrixConfigMap\<rparr>"

section \<open>Configuring the matrix\<close>

definition CreateNamespaceOf :: "'v world \<Rightarrow> unit M" where
  "CreateNamespaceOf w =
     bindM (getS VdoCurrentNamespace)
       (\<lambda>ns. bindM (tryM (ask (CreateNamespace ns) (\<lambda>t. w_createNamespace w t ns)))
         (\<lambda>r. case r of Inl e \<Rightarrow> if IsAlreadyExists e then ret () else throw e | Inr _ \<Rightarrow> ret ()))"

text \<open>A file that cannot be read ends the process with a message of its own.\<close>

definition readMatrixFile :: "'v world \<Rightarrow> string \<Rightarrow> string \<Rightarrow> string M" where
  "readMatrixFile w msg filepath =
     bindM (tryM (GenerateYamlFromFilePath w filepath))
       (\<lambda>r. case r of Inl e \<Rightarrow> throw (Msg (msg @ filepath)) | Inr fileBytes \<Rightarrow> ret fileBytes)"

definition CreateMatrixConfigMap :: "'v world \<Rightarrow> string \<Rightarrow> ValidationFlags \<Rightarrow> string \<Rightarrow> unit M" where
  "CreateMatrixConfigMap w filepath flag configFlag =
     bindM (getS matrixKey)
       (\<lambda>configMapKey. bindM
         (if flag = IsURL
          then ret (Some [(''versionConfigURL'', filepath), (''auto-upgrade'', ''disabled''), (''configured-by'', configFlag)])
          else bindM (readMatrixFile w ''unable to read the matrix from '' filepath)
            (\<lambda>fileBytes. ret (Some [(''versionConfigContent'', fileBytes), (''auto-upgrade'', ''disabled''),
                                   (''configured-by'', configFlag)])))
         (\<lambda>cmData. let cm = \<lparr>CmKey = configMapKey, CmData = cmData\<rparr> in
            ask (CreateConfigMapReq cm) (\<lambda>t. w_createConfigMap w t cm)))"

definition matrixTip :: string where
  "matrixTip = ''Tip: Compatibility matrix has been configured, you might want to try '' @
     [CHR 39] @ ''vdoctl configure drivers'' @ [CHR 39] @ '' to configure vsphere drivers.'' @ newline"

definition alreadyConfigured :: string where
  "alreadyConfigured = ''Compatibility matrix is already configured. You can use `vdoctl update matrix` '' @
     ''to update compatibility matrix'' @ newline"

definition enterMatrix :: "nat \<Rightarrow> 'v world \<Rightarrow> unit M" where
  "enterMatrix n w =
     bindM (PromptGetSelect n w [LocalFilepath, WebURL] ''Please select the mode for providing compat-matrix'')
       (\<lambda>item. let flag = (if item = WebURL then IsURL else IsString) in
          bindM (PromptGetInput w item flag)
            (\<lambda>filePath. thenM (CreateNamespaceOf w)
              (thenM (CreateMatrixConfigMap w filePath flag UserConfig)
                (say matrixTip))))"

definition configureMatrix :: "nat \<Rightarrow> 'v world \<Rightarrow> unit M" where
  "configureMatrix n w =
     bindM (tryM (IsVDODeployed w))
       (\<lambda>r. thenM (case r of Inl e \<Rightarrow> modS (\<lambda>s. s\<lparr>VdoCurrentNamespace := DefaultNs\<rparr>) | Inr _ \<Rightarrow> ret ())
         (bindM (getS matrixKey)
           (\<lambda>configKey. bindM (tryM (ask (GetConfigMap configKey) (\<lambda>t. w_getConfigMap w t configKey)))
             (\<lambda>cm. let cmData = (case cm of Inl e \<Rightarrow> None | Inr cm \<Rightarrow> CmData cm) in
                if 0 < mlen cmData
                then say alreadyConfigured
                else enterMatrix n w))))"

section \<open>Updating the matrix\<close>

text \<open>
  The volumes that are mounted by several nodes. \<^verbatim>\<open>InlineVolumeSpec\<close> and
  \<^verbatim>\<open>PersistentVolumeName\<close> are pointers that the code dereferences.
\<close>

definition isShared :: "string \<Rightarrow> bool" where
  "isShared mode \<longleftrightarrow> mode = ''ReadOnlyMany'' \<or> mode = ''ReadWriteMany''"

fun sharedVolumes :: "VolumeAttachment list \<Rightarrow> string list outcome" where
  "sharedVolumes [] = Ok []"
| "sharedVolumes (a # as) =
     (case InlineAccessModes a of
        None \<Rightarrow> Panic ''nil pointer dereference''
      | Some modes \<Rightarrow>
          if list_ex isShared modes
          then (case PersistentVolumeName a of
                  None \<Rightarrow> Panic ''nil pointer dereference''
                | Some pv \<Rightarrow> bindO (sharedVolumes as) (\<lambda>pvs. Ok (pv # pvs)))
          else sharedVolumes as)"

definition sharedMsg :: "string list \<Rightarrow> string" where
  "sharedMsg pvs = ''There are exisiting PV'' @ [CHR 39] @ ''s attached with RWX | ROX mode ['' @ Join pvs '' '' @
     '']please follow CSI documentation to update the CSI '' @
     ''https://vsphere-csi-driver.sigs.k8s.io/driver-deployment/upgrade.html ''"

text \<open>
  Every error of \<^verbatim>\<open>updateConfigMap\<close> ends the process inside it: it returns no error, and the
  message of its caller is never printed.
\<close>

definition updateMatrixConfigMap :: "'v world \<Rightarrow> string \<Rightarrow> unit M" where
  "updateMatrixConfigMap w filepath =
     bindM (getS matrixKey)
       (\<lambda>configMapKey. bindM
         (if HasPrefix filepath ''https://'' \<or> HasPrefix filepath ''http://''
          then ret (Some [(''versionConfigURL'', filepath), (''auto-upgrade'', ''disabled'')])
          else bindM (readMatrixFile w ''unable to read the updated matrix from '' filepath)
            (\<lambda>fileBytes. ret (Some [(''versionConfigContent'', fileBytes), (''auto-upgrade'', ''disabled'')])))
         (\<lambda>cmData. let cm = \<lparr>CmKey = configMapKey, CmData = cmData\<rparr> in
            bindM (tryM (ask (UpdateConfigMapReq cm) (\<lambda>t. w_updateConfigMap w t cm)))
              (\<lambda>r. case r of Inl e \<Rightarrow> throw (Msg (''Error received in updating config Map  '' @ Error e))
                 | Inr _ \<Rightarrow> ret ())))"

definition updatedMsg :: string where
  "updatedMsg = ''Compatibility matrix has been updated successfully.'' @ newline"

definition updateMatrix :: "'v world \<Rightarrow> string list \<Rightarrow> unit M" where
  "updateMatrix w args =
     (case args of
        [] \<Rightarrow> throw (Msg ''At-least one argument should be provided'')
      | updatedMatrix # _ \<Rightarrow>
          thenM (IsVDODeployed w)
            (bindM (tryM (ask ListVolumeAttachments (w_listVolumeAttachments w)))
              (\<lambda>r. case r of
                 Inl e \<Rightarrow> throw (Msg ''unable to read the  volume list to do pre-check for upgrade'')
               | Inr items \<Rightarrow> bindM (liftO (sharedVolumes items))
                   (\<lambda>pvs. if pvs \<noteq> []
                      then throw (Msg (sharedMsg pvs))
                      else thenM (updateMatrixConfigMap w updatedMatrix)
                             (say updatedMsg)))))"

section \<open>What the operator makes of the ConfigMap\<close>

definition otherVariable :: "string \<Rightarrow> string" where
  "otherVariable k = (if k = CM_URL_KEY then COMPAT_MATRIX_CONFIG_CONTENT else COMPAT_MATRIX_CONFIG_URL)"

definition ownVariable :: "string \<Rightarrow> string" where
  "ownVariable k = (if k = CM_URL_KEY then COMPAT_MATRIX_CONFIG_URL else COMPAT_MATRIX_CONFIG_CONTENT)"

definition matrixIn :: "St \<Rightarrow> err + string" where
  "matrixIn u = getMatrixConfig (environ u COMPAT_MATRIX_CONFIG_URL) (environ u COMPAT_MATRIX_CONFIG_CONTENT)"

text \<open>\<open>carries cm k m\<close>: the ConfigMap has the matrix \<open>m\<close> under \<open>k\<close>, one of the two keys, and not under the other.\<close>

definition carries :: "ConfigMap \<Rightarrow> string \<Rightarrow> string \<Rightarrow> bool" where
  "carries cm k m \<longleftrightarrow> NnName (CmKey cm) = CM_NAME \<and>
     (k = CM_URL_KEY \<and> mlookup (CmData cm) CM_CONTENT_KEY = None \<or>
      k = CM_CONTENT_KEY \<and> mlookup (CmData cm) CM_URL_KEY = None) \<and> mlookup (CmData cm) k = Some m"

lemma keys_differ [simp]: "CM_URL_KEY \<noteq> CM_CONTENT_KEY" "CM_CONTENT_KEY \<noteq> CM_URL_KEY"
  by (simp_all add: CM_URL_KEY_def CM_CONTENT_KEY_def)

lemma operator_reads:
  assumes "carries cm k m" "NnNamespace (CmKey cm) = VDO_NAMESPACE u"
    and "w_getConfigMap w (trace u) (CmKey cm) = Inr cm" "m \<noteq> []" "CHR 0x00 \<notin> set m"
  shows "\<exists>v. updateMatrixInfo w (CmKey cm) u = (Ok (), v) \<and> environ v (ownVariable k) = m \<and>
    matrixIn v = (if environ u (otherVariable k) = [] then Inr m
                  else Inl (Msg ''Matrix Config URL/Content not provided in proper format''))"
proof -
  from assms(1) consider "k = CM_URL_KEY" "mlookup (CmData cm) CM_CONTENT_KEY = None" "mlookup (CmData cm) CM_URL_KEY = Some m"
    | "k = CM_CONTENT_KEY" "mlookup (CmData cm) CM_URL_KEY = None" "mlookup (CmData cm) CM_CONTENT_KEY = Some m"
    by (auto simp: carries_def)
  then show ?thesis
  proof cases
    case 1
    then show ?thesis
      using assms by (simp add: carries_def updateMatrixInfo_def setEnvVariables_def monad_defs getMatrixConfig_def
        matrixIn_def otherVariable_def ownVariable_def)
  next
    case 2
    then show ?thesis
      using assms by (simp add: carries_def updateMatrixInfo_def setEnvVariables_def monad_defs getMatrixConfig_def
        matrixIn_def otherVariable_def ownVariable_def)
  qed
qed

section \<open>What the commands write\<close>

definition makes_map :: "call \<Rightarrow> bool" where
  "makes_map c \<longleftrightarrow> (case c of CreateConfigMapReq _ \<Rightarrow> True | UpdateConfigMapReq _ \<Rightarrow> True | _ \<Rightarrow> False)"

lemma makes_map_simps [simp]:
  "makes_map (CreateConfigMapReq cm)" "makes_map (UpdateConfigMapReq cm)" "\<not> makes_map (Print x)"
  "\<not> makes_map (PromptInput l f)" "\<not> makes_map (PromptSelect xs l)" "\<not> makes_map ListDeployments"
  "\<not> makes_map (GetConfigMap k)" "\<not> makes_map (CreateNamespace x)" "\<not> makes_map (ReadFile g)"
  "\<not> makes_map ListVolumeAttachments"
  by (simp_all add: makes_map_def)

lemma say_emits [keeps_intro]: "Q (Print x) \<Longrightarrow> keeps (emits Q) (say x)"
  unfolding say_def by (intro keeps_intro)

lemma input_emits [keeps_intro]:
  "Q (PromptInput label flag) \<Longrightarrow> (\<And>x. Q (Print x)) \<Longrightarrow> keeps (emits Q) (PromptGetInput w label flag)"
  unfolding PromptGetInput_def by (intro keeps_intro)

lemma selectLoop_emits:
  "(\<And>xs. Q (PromptSelect xs label)) \<Longrightarrow> keeps (emits Q) (selectLoop n w items label)"
  by (induction n arbitrary: items) (auto intro!: keeps_intro)

lemma select_emits [keeps_intro]:
  "(\<And>xs. Q (PromptSelect xs label)) \<Longrightarrow> (\<And>x. Q (Print x)) \<Longrightarrow> keeps (emits Q) (PromptGetSelect n w items label)"
  unfolding PromptGetSelect_def by (intro keeps_intro selectLoop_emits)

lemma IsVDODeployed_emits [keeps_intro]: "Q ListDeployments \<Longrightarrow> keeps (emits Q) (IsVDODeployed w)"
  unfolding IsVDODeployed_def Let_def by (intro keeps_intro) simp_all

lemma CreateNamespaceOf_emits [keeps_intro]:
  "(\<And>x. Q (CreateNamespace x)) \<Longrightarrow> keeps (emits Q) (CreateNamespaceOf w)"
  unfolding CreateNamespaceOf_def by (intro keeps_intro)

lemma matrixKey_name: "NnName (matrixKey s) = CM_NAME" "NnNamespace (matrixKey s) = VdoCurrentNamespace s"
  by (simp_all add: matrixKey_def CompatMatrixConfigMap_def CM_NAME_def)

lemma carries_url: "carries \<lparr>CmKey = matrixKey s, CmData = Some ((''versionConfigURL'', m) # rest)\<rparr> CM_URL_KEY m"
  if "map_of rest CM_CONTENT_KEY = None"
  using that by (simp add: carries_def matrixKey_name mlookup_def CM_URL_KEY_def CM_CONTENT_KEY_def)

lemma carries_content: "carries \<lparr>CmKey = matrixKey s, CmData = Some ((''versionConfigContent'', m) # rest)\<rparr> CM_CONTENT_KEY m"
  if "map_of rest CM_URL_KEY = None"
  using that by (simp add: carries_def matrixKey_name mlookup_def CM_URL_KEY_def CM_CONTENT_KEY_def)

lemma readMatrixFile_Ok:
  "readMatrixFile w msg f s = (Ok m, t) \<longleftrightarrow>
     w_readFile w (trace s) (Replace1 f ''file:/'' []) = Inr m \<and>
     t = s\<lparr>trace := trace s @ [ReadFile (Replace1 f ''file:/'' [])]\<rparr>"
  by (cases "w_readFile w (trace s) (Replace1 f ''file:/'' [])")
    (auto simp: readMatrixFile_def GenerateYamlFromFilePath_def monad_defs)

lemma CreateMatrixConfigMap_Ok:
  assumes "CreateMatrixConfigMap w f flag u s = (Ok (), t)"
  obtains cm m cs where "trace t = trace s @ cs @ [CreateConfigMapReq cm]" "list_all (\<lambda>c. \<not> makes_map c) cs"
    "CmKey cm = matrixKey s" "carries cm (if flag = IsURL then CM_URL_KEY else CM_CONTENT_KEY) m"
    "if flag = IsURL then m = f else (\<exists>r. w_readFile w r (Replace1 f ''file:/'' []) = Inr m)"
proof (cases "flag = IsURL")
  case True
  show ?thesis
  proof (rule that [of "[]"])
    show "trace t = trace s @ [] @ [CreateConfigMapReq \<lparr>CmKey = matrixKey s, CmData =
        Some [(''versionConfigURL'', f), (''auto-upgrade'', ''disabled''), (''configured-by'', u)]\<rparr>]"
      using assms True by (simp add: CreateMatrixConfigMap_def runs Let_def)
  qed (use True in \<open>simp_all add: carries_url CM_CONTENT_KEY_def\<close>)
next
  case False
  with assms obtain m where m: "w_readFile w (trace s) (Replace1 f ''file:/'' []) = Inr m"
    "trace t = trace s @ [ReadFile (Replace1 f ''file:/'' [])] @ [CreateConfigMapReq \<lparr>CmKey = matrixKey s, CmData =
        Some [(''versionConfigContent'', m), (''auto-upgrade'', ''disabled''), (''configured-by'', u)]\<rparr>]"
    by (auto simp: CreateMatrixConfigMap_def runs readMatrixFile_Ok Let_def)
  then show ?thesis
    using False by (intro that [OF m(2)]) (auto simp: carries_content CM_URL_KEY_def)
qed

lemma tryM_ask_iff: "tryM (ask c f) s = (Ok r, t) \<longleftrightarrow> r = f (trace s) \<and> t = s\<lparr>trace := trace s @ [c]\<rparr>"
  by (cases "f (trace s)") (auto simp: tryM_def ask_def)

lemma case_throw_Ok:
  "(case r of Inl e \<Rightarrow> throw (g e) | Inr x \<Rightarrow> k x) s = (Ok y, t) \<longleftrightarrow> (\<exists>x. r = Inr x \<and> k x s = (Ok y, t))"
  by (cases r) auto

lemma matrixKey_trace [simp]: "matrixKey (s\<lparr>trace := l\<rparr>) = matrixKey s"
  by (simp add: matrixKey_def)

abbreviation silent :: "St \<Rightarrow> St \<Rightarrow> bool" where
  "silent \<equiv> emits (\<lambda>c. \<not> makes_map c)"

lemma silent_then:
  assumes "silent s u" "trace v = trace u @ cs @ [c]" "list_all (\<lambda>c. \<not> makes_map c) cs" "makes_map c" "silent v t"
  shows "filter makes_map (new_calls s t) = [c]"
proof -
  from assms(1) obtain as where "trace u = trace s @ as" "list_all (\<lambda>c. \<not> makes_map c) as" by (auto elim!: emitsE)
  moreover from assms(5) obtain bs where "trace t = trace v @ bs" "list_all (\<lambda>c. \<not> makes_map c) bs" by (auto elim!: emitsE)
  ultimately show ?thesis
    using assms(2-4) by (simp add: new_calls_def list_all_iff filter_empty_conv)
qed

lemma CreateNamespaceOf_fixed [keeps_intro]:
  "(\<And>s l. f (s\<lparr>trace := l\<rparr>) = f s) \<Longrightarrow> keeps (fixes_field f) (CreateNamespaceOf w)"
  unfolding CreateNamespaceOf_def by (intro keeps_intro)

lemma prompt_fixed [keeps_intro]:
  assumes "\<And>s l. f (s\<lparr>trace := l\<rparr>) = f s"
  shows "keeps (fixes_field f) (say x)" "keeps (fixes_field f) (PromptGetInput w label flag)"
    "keeps (fixes_field f) (selectLoop n w items label)" "keeps (fixes_field f) (PromptGetSelect n w items label)"
proof -
  show say: "keeps (fixes_field f) (say x)" for x unfolding say_def by (intro keeps_intro; rule assms)
  show "keeps (fixes_field f) (PromptGetInput w label flag)"
    unfolding PromptGetInput_def by (intro keeps_intro say; rule assms)
  show sel: "keeps (fixes_field f) (selectLoop n w items label)" for n items
    by (induction n arbitrary: items) (auto intro!: keeps_intro simp: assms)
  show "keeps (fixes_field f) (PromptGetSelect n w items label)"
    unfolding PromptGetSelect_def by (intro keeps_intro sel say; simp add: assms)
qed

lemma CreateMatrixConfigMap_fixed [keeps_intro]:
  "(\<And>s l. f (s\<lparr>trace := l\<rparr>) = f s) \<Longrightarrow> keeps (fixes_field f) (CreateMatrixConfigMap w x flag u)"
  unfolding CreateMatrixConfigMap_def readMatrixFile_def GenerateYamlFromFilePath_def Let_def by (intro keeps_intro)

lemma enterMatrix_Ok:
  assumes "enterMatrix n w s = (Ok (), t)" and "silent s0 s"
  obtains cm m item r x where "filter makes_map (new_calls s0 t) = [CreateConfigMapReq cm]"
    "carries cm (if item = WebURL then CM_URL_KEY else CM_CONTENT_KEY) m"
    "w_input w r item (if item = WebURL then IsURL else IsString) = Inr x"
    "if item = WebURL then m = x else (\<exists>r. w_readFile w r (Replace1 x ''file:/'' []) = Inr m)"
    "CmKey cm = matrixKey t"
proof -
  let ?flag = "\<lambda>item. if item = WebURL then IsURL else IsString"
  from assms(1) obtain item x s1 s2 s3 s4 where run:
    "PromptGetSelect n w [LocalFilepath, WebURL] ''Please select the mode for providing compat-matrix'' s = (Ok item, s1)"
    "PromptGetInput w item (?flag item) s1 = (Ok x, s2)" "CreateNamespaceOf w s2 = (Ok (), s3)"
    "CreateMatrixConfigMap w x (?flag item) UserConfig s3 = (Ok (), s4)" "say matrixTip s4 = (Ok (), t)"
    by (auto simp: enterMatrix_def Let_def bindM_Ok_iff thenM_Ok_iff)
  have "silent s s1" "silent s1 s2" "silent s2 s3"
    by (rule keepsD [OF select_emits run(1)] keepsD [OF input_emits run(2)] keepsD [OF CreateNamespaceOf_emits run(3)]; simp)+
  then have q: "silent s0 s3" using assms(2) by (blast intro: emits.R_trans)
  have e: "silent s4 t" by (rule keepsD [OF say_emits run(5)]) simp
  from run(2) obtain r where i: "w_input w r item (?flag item) = Inr x"
    by (auto simp: PromptGetInput_def runs)
  from run(4) obtain cm m cs where c: "trace s4 = trace s3 @ cs @ [CreateConfigMapReq cm]" "list_all (\<lambda>c. \<not> makes_map c) cs"
    "CmKey cm = matrixKey s3" "carries cm (if ?flag item = IsURL then CM_URL_KEY else CM_CONTENT_KEY) m"
    "if ?flag item = IsURL then m = x else (\<exists>r. w_readFile w r (Replace1 x ''file:/'' []) = Inr m)"
    by (rule CreateMatrixConfigMap_Ok)
  have eq: "?flag item = IsURL \<longleftrightarrow> item = WebURL" by simp
  have "fixes_field VdoCurrentNamespace s3 s4" by (rule keepsD [OF CreateMatrixConfigMap_fixed run(4)]) simp
  moreover have "fixes_field VdoCurrentNamespace s4 t" by (rule keepsD [OF prompt_fixed(1) run(5)]) simp
  ultimately have "matrixKey s3 = matrixKey t" by (simp add: fixes_field_def matrixKey_def)
  with c(3) show ?thesis
    by (intro that [OF silent_then [OF q c(1,2) _ e] c(4) [unfolded eq] i c(5) [unfolded eq]]) simp_all
qed

text \<open>
  C20. The matrix that \<^verbatim>\<open>vdoctl configure compatibility-matrix\<close> stores is the one the operator uses.
  A run that succeeds and writes a ConfigMap writes no other; it is the one of the operator's
  namespace that the operator watches, and what is in it is the URL that was entered or the content
  of the file that was named. When an operator of that namespace that has no matrix yet
  receives the event of this ConfigMap, its matrix is exactly that, a URL to be read for a URL
  and the content itself for a file.
\<close>

theorem configured_matrix_reaches_operator:
  assumes "configureMatrix n w s = (Ok (), t)" and "c \<in> set (new_calls s t)" "makes_map c"
  shows "\<exists>cm m r label x. filter makes_map (new_calls s t) = [CreateConfigMapReq cm] \<and>
    NnNamespace (CmKey cm) = VdoCurrentNamespace t \<and>
    w_input w r label (if label = WebURL then IsURL else IsString) = Inr x \<and>
    (if label = WebURL then m = x else \<exists>q. w_readFile w q (Replace1 x ''file:/'' []) = Inr m) \<and>
    (\<forall>(v :: 'v world) u. NnNamespace (CmKey cm) = VDO_NAMESPACE u \<and> w_getConfigMap v (trace u) (CmKey cm) = Inr cm \<and>
       environ u COMPAT_MATRIX_CONFIG_URL = [] \<and> environ u COMPAT_MATRIX_CONFIG_CONTENT = [] \<and> m \<noteq> [] \<and> CHR 0x00 \<notin> set m \<longrightarrow>
       (\<exists>u'. updateMatrixInfo v (CmKey cm) u = (Ok (), u') \<and> matrixIn u' = Inr m \<and>
          environ u' (if label = WebURL then COMPAT_MATRIX_CONFIG_URL else COMPAT_MATRIX_CONFIG_CONTENT) = m))"
proof -
  from assms(1) obtain r s1 s2 s3 where run: "tryM (IsVDODeployed w) s = (Ok r, s1)"
    "(case r of Inl e \<Rightarrow> modS (\<lambda>s. s\<lparr>VdoCurrentNamespace := DefaultNs\<rparr>) | Inr _ \<Rightarrow> ret ()) s1 = (Ok (), s2)"
    "s3 = s2\<lparr>trace := trace s2 @ [GetConfigMap (matrixKey s2)]\<rparr>"
    "enterMatrix n w s3 = (Ok (), t) \<or> say alreadyConfigured s3 = (Ok (), t)"
    by (auto simp: configureMatrix_def Let_def bindM_Ok_iff thenM_Ok_iff tryM_def ask_def split: if_splits outcome.splits)
  have k: "keeps silent (tryM (IsVDODeployed w))"
    "keeps silent (case r of Inl e \<Rightarrow> modS (\<lambda>s. s\<lparr>VdoCurrentNamespace := DefaultNs\<rparr>) | Inr _ \<Rightarrow> ret ())"
    by (intro keeps_intro; simp)+
  have "silent s s1" "silent s1 s2" by (rule keepsD [OF k(1) run(1)] keepsD [OF k(2) run(2)])+
  moreover have "silent s2 s3" using run(3) by (auto intro: emitsI)
  ultimately have q: "silent s s3" by (blast intro: emits.R_trans)
  have enter: "enterMatrix n w s3 = (Ok (), t)"
  proof (rule ccontr)
    assume "enterMatrix n w s3 \<noteq> (Ok (), t)"
    with run(4) have "say alreadyConfigured s3 = (Ok (), t)" by blast
    then have "silent s3 t" by (rule keepsD [OF say_emits, rotated]) simp
    with q have "silent s t" by (blast intro: emits.R_trans)
    with assms(2,3) show False by (auto simp: emits_def list_all_iff)
  qed
  from enter q obtain cm m item r x where e: "filter makes_map (new_calls s t) = [CreateConfigMapReq cm]"
    "carries cm (if item = WebURL then CM_URL_KEY else CM_CONTENT_KEY) m"
    "w_input w r item (if item = WebURL then IsURL else IsString) = Inr x"
    "if item = WebURL then m = x else (\<exists>r. w_readFile w r (Replace1 x ''file:/'' []) = Inr m)" "CmKey cm = matrixKey t"
    by (rule enterMatrix_Ok)
  have "\<exists>u'. updateMatrixInfo v (CmKey cm) u = (Ok (), u') \<and> matrixIn u' = Inr m \<and>
      environ u' (if item = WebURL then COMPAT_MATRIX_CONFIG_URL else COMPAT_MATRIX_CONFIG_CONTENT) = m"
    if "NnNamespace (CmKey cm) = VDO_NAMESPACE u \<and> w_getConfigMap v (trace u) (CmKey cm) = Inr cm \<and>
       environ u COMPAT_MATRIX_CONFIG_URL = [] \<and> environ u COMPAT_MATRIX_CONFIG_CONTENT = [] \<and> m \<noteq> [] \<and> CHR 0x00 \<notin> set m"
    for v :: "'v world" and u
    using operator_reads [OF e(2), of u v] that by (cases "item = WebURL") (auto simp: otherVariable_def ownVariable_def)
  then show ?thesis
    using e(1,3-5) by (intro exI [of _ cm] exI [of _ m] exI [of _ r] exI [of _ item] exI [of _ x]) (simp add: matrixKey_name)
qed

definition url_world :: "nat list world" where
  "url_world = down_world\<lparr>w_select := \<lambda>_ _ _. (1, WebURL, None), w_input := \<lambda>_ _ _. Inr ''http://m.org'',
     w_createNamespace := \<lambda>_ _. Inr (), w_createConfigMap := \<lambda>_ _. Inr ()\<rparr>"

lemma url_world_sel [simp]:
  "w_select url_world = (\<lambda>_ _ _. (1, WebURL, None))" "w_input url_world = (\<lambda>_ _ _. Inr ''http://m.org'')"
  "w_createNamespace url_world = (\<lambda>_ _. Inr ())" "w_createConfigMap url_world = (\<lambda>_ _. Inr ())"
  "w_listDeployments url_world = (\<lambda>_. Inl sample_refusal)" "w_getConfigMap url_world = (\<lambda>_ _. Inl sample_refusal)"
  by (simp_all add: url_world_def)

lemma url_run:
  "\<exists>t cm. configureMatrix 1 url_world init_St = (Ok (), t) \<and> CreateConfigMapReq cm \<in> set (new_calls init_St t) \<and>
    VdoCurrentNamespace t = DefaultNs"
  by (simp add: configureMatrix_def IsVDODeployed_def enterMatrix_def PromptGetSelect_def PromptGetInput_def
      CreateNamespaceOf_def CreateMatrixConfigMap_def say_def monad_defs new_calls_def mlen_def)

theorem configured_matrix_reaches_operator_witness:
  "\<exists>t cm. configureMatrix 1 url_world init_St = (Ok (), t) \<and> NnNamespace (CmKey cm) = DefaultNs \<and>
    filter makes_map (new_calls init_St t) = [CreateConfigMapReq cm]"
proof -
  obtain t c where run: "configureMatrix 1 url_world init_St = (Ok (), t)" "CreateConfigMapReq c \<in> set (new_calls init_St t)"
    "VdoCurrentNamespace t = DefaultNs"
    using url_run by blast
  then show ?thesis using configured_matrix_reaches_operator [OF run(1,2)] by auto
qed

section \<open>Updating\<close>

definition urlArg :: "string \<Rightarrow> bool" where
  "urlArg x \<longleftrightarrow> HasPrefix x ''https://'' \<or> HasPrefix x ''http://''"

lemma updateMatrixConfigMap_Ok:
  assumes "updateMatrixConfigMap w x s = (Ok (), t)"
  obtains cm m cs where "trace t = trace s @ cs @ [UpdateConfigMapReq cm]" "list_all (\<lambda>c. \<not> makes_map c) cs"
    "CmKey cm = matrixKey t" "carries cm (if urlArg x then CM_URL_KEY else CM_CONTENT_KEY) m"
    "if urlArg x then m = x else (\<exists>q. w_readFile w q (Replace1 x ''file:/'' []) = Inr m)"
    "mlookup (CmData cm) ''configured-by'' = None"
proof (cases "urlArg x")
  case True
  let ?cm = "\<lparr>CmKey = matrixKey s, CmData = Some [(''versionConfigURL'', x), (''auto-upgrade'', ''disabled'')]\<rparr>"
  have run: "t = s\<lparr>trace := trace s @ [UpdateConfigMapReq ?cm]\<rparr>"
    using assms True by (auto simp: updateMatrixConfigMap_def urlArg_def [symmetric] runs(1,2) tryM_ask_iff case_throw_Ok Let_def)
  show ?thesis
    by (rule that [of "[]" ?cm x]) (simp_all add: run True carries_url CM_CONTENT_KEY_def mlookup_def)
next
  case False
  let ?cm = "\<lambda>m. \<lparr>CmKey = matrixKey s, CmData = Some [(''versionConfigContent'', m), (''auto-upgrade'', ''disabled'')]\<rparr>"
  obtain m where run: "w_readFile w (trace s) (Replace1 x ''file:/'' []) = Inr m"
    "t = s\<lparr>trace := trace s @ [ReadFile (Replace1 x ''file:/'' [])] @ [UpdateConfigMapReq (?cm m)]\<rparr>"
    using assms False by (auto simp: updateMatrixConfigMap_def urlArg_def [symmetric] runs(1,2) tryM_ask_iff case_throw_Ok Let_def
        readMatrixFile_Ok)
  show ?thesis
    by (rule that [of "[ReadFile (Replace1 x ''file:/'' [])]" "?cm m" m])
      (use run False in \<open>auto simp: carries_content CM_URL_KEY_def mlookup_def\<close>)
qed

lemma updateMatrix_Ok:
  assumes "updateMatrix w (x # xs) s = (Ok (), t)"
  obtains items s2 s3 where "silent s s2" "sharedVolumes items = Ok []"
    "updateMatrixConfigMap w x s2 = (Ok (), s3)" "say updatedMsg s3 = (Ok (), t)"
proof -
  from assms obtain d items s1 s2 s3 where run: "IsVDODeployed w s = (Ok d, s1)"
    "s2 = s1\<lparr>trace := trace s1 @ [ListVolumeAttachments]\<rparr>" "sharedVolumes items = Ok []"
    "updateMatrixConfigMap w x s2 = (Ok (), s3)" "say updatedMsg s3 = (Ok (), t)"
    by (auto simp: updateMatrix_def bindM_Ok_iff thenM_Ok_iff tryM_ask_iff case_throw_Ok split: if_splits)
  have "silent s s1" by (rule keepsD [OF IsVDODeployed_emits run(1)]) simp
  moreover have "silent s1 s2" using run(2) by (auto intro: emitsI)
  ultimately show ?thesis using that run(3-5) by (blast intro: emits.R_trans)
qed

text \<open>
  C25. \<^verbatim>\<open>vdoctl update compatibility-matrix\<close> replaces the whole ConfigMap: a run that succeeds writes
  exactly one, with the URL or the content of the file and without the key that says who
  configured it. An operator that takes its matrix from the other kind of source rejects the new
  one, because the variable of the old source stays set; one that does not uses exactly
  the new matrix.
\<close>

theorem updated_matrix_may_be_rejected:
  assumes "updateMatrix w (x # xs) s = (Ok (), t)"
  defines "url \<equiv> HasPrefix x ''https://'' \<or> HasPrefix x ''http://''"
  shows "\<exists>cm m. filter makes_map (new_calls s t) = [UpdateConfigMapReq cm] \<and>
    NnNamespace (CmKey cm) = VdoCurrentNamespace t \<and> mlookup (CmData cm) ''configured-by'' = None \<and>
    (if url then m = x else \<exists>q. w_readFile w q (Replace1 x ''file:/'' []) = Inr m) \<and>
    (\<forall>(v :: 'v world) u. NnNamespace (CmKey cm) = VDO_NAMESPACE u \<and> w_getConfigMap v (trace u) (CmKey cm) = Inr cm \<and>
       m \<noteq> [] \<and> CHR 0x00 \<notin> set m \<longrightarrow>
       (\<exists>u'. updateMatrixInfo v (CmKey cm) u = (Ok (), u') \<and>
          matrixIn u' = (if environ u (if url then COMPAT_MATRIX_CONFIG_CONTENT else COMPAT_MATRIX_CONFIG_URL) = [] then Inr m
             else Inl (Msg ''Matrix Config URL/Content not provided in proper format''))))"
proof -
  from assms(1) obtain s2 s3 where q: "silent s s2" and run: "updateMatrixConfigMap w x s2 = (Ok (), s3)"
    "say updatedMsg s3 = (Ok (), t)"
    by (rule updateMatrix_Ok)
  from run(1) obtain cm m cs where c: "trace s3 = trace s2 @ cs @ [UpdateConfigMapReq cm]" "list_all (\<lambda>c. \<not> makes_map c) cs"
    "CmKey cm = matrixKey s3" "carries cm (if urlArg x then CM_URL_KEY else CM_CONTENT_KEY) m"
    "if urlArg x then m = x else (\<exists>q. w_readFile w q (Replace1 x ''file:/'' []) = Inr m)"
    "mlookup (CmData cm) ''configured-by'' = None"
    by (rule updateMatrixConfigMap_Ok)
  have "silent s3 t" by (rule keepsD [OF say_emits run(2)]) simp
  with q c(1,2) have w: "filter makes_map (new_calls s t) = [UpdateConfigMapReq cm]"
    by (intro silent_then) simp_all
  have "fixes_field VdoCurrentNamespace s3 t" by (rule keepsD [OF prompt_fixed(1) run(2)]) simp
  then have ns: "NnNamespace (CmKey cm) = VdoCurrentNamespace t" using c(3) by (simp add: fixes_field_def matrixKey_name)
  have "\<exists>u'. updateMatrixInfo v (CmKey cm) u = (Ok (), u') \<and>
          matrixIn u' = (if environ u (if url then COMPAT_MATRIX_CONFIG_CONTENT else COMPAT_MATRIX_CONFIG_URL) = [] then Inr m
             else Inl (Msg ''Matrix Config URL/Content not provided in proper format''))"
    if "NnNamespace (CmKey cm) = VDO_NAMESPACE u \<and> w_getConfigMap v (trace u) (CmKey cm) = Inr cm \<and> m \<noteq> [] \<and> CHR 0x00 \<notin> set m"
    for v :: "'v world" and u
    using operator_reads [OF c(4), of u v] that by (cases "urlArg x") (auto simp: otherVariable_def url_def urlArg_def [symmetric])
  then show ?thesis
    using w ns c(5,6) unfolding url_def urlArg_def [symmetric] by blast
qed

definition attached_world :: "VolumeAttachment list \<Rightarrow> nat list world" where
  "attached_world items = down_world\<lparr>w_listDeployments := \<lambda>_. Inr [\<lparr>DepName = VdoDeploymentName, DepNamespace = DefaultNs,
       DepContainers = [(''manager'', ''vdo:1.0'')], Replicas = 1, AvailableReplicas = 1\<rparr>],
     w_listVolumeAttachments := \<lambda>_. Inr items, w_updateConfigMap := \<lambda>_ _. Inr ()\<rparr>"

lemma attached_sel [simp]:
  "w_listDeployments (attached_world items) = (\<lambda>_. Inr [\<lparr>DepName = VdoDeploymentName, DepNamespace = DefaultNs,
       DepContainers = [(''manager'', ''vdo:1.0'')], Replicas = 1, AvailableReplicas = 1\<rparr>])"
  "w_listVolumeAttachments (attached_world items) = (\<lambda>_. Inr items)"
  "w_updateConfigMap (attached_world items) = (\<lambda>_ _. Inr ())" "DefaultNs \<noteq> []"
  by (simp_all add: attached_world_def DefaultNs_def)

lemma attached_deployed:
  "\<exists>d u. IsVDODeployed (attached_world items) init_St = (Ok d, u) \<and> VdoCurrentNamespace u = DefaultNs"
  by (simp add: IsVDODeployed_def monad_defs)

theorem updated_matrix_may_be_rejected_witness:
  "\<exists>t cm. updateMatrix (attached_world []) [''http://m.org''] init_St = (Ok (), t) \<and>
     filter makes_map (new_calls init_St t) = [UpdateConfigMapReq cm] \<and> mlookup (CmData cm) ''configured-by'' = None"
proof -
  have "\<exists>t. updateMatrix (attached_world []) [''http://m.org''] init_St = (Ok (), t)"
    by (simp add: updateMatrix_def IsVDODeployed_def updateMatrixConfigMap_def say_def monad_defs)
  then show ?thesis using updated_matrix_may_be_rejected [of "attached_world []" "''http://m.org''" "[]" init_St] by blast
qed

lemma sharedVolumes_exclusive:
  assumes "\<forall>a \<in> set items. (InlineAccessModes a = None) \<noteq> (PersistentVolumeName a = None)"
  shows "sharedVolumes items =
    (if \<exists>a \<in> set items. PersistentVolumeName a \<noteq> None \<or> (\<exists>modes. InlineAccessModes a = Some modes \<and> list_ex isShared modes)
     then Panic ''nil pointer dereference'' else Ok [])"
  using assms by (induction items) (auto split: option.splits)

text \<open>
  C28. Before it updates the matrix, the command looks for volumes that several nodes mount. If
  every attachment has one source, as Kubernetes requires, either an inline volume or a
  persistent volume, the check never refuses an update: it crashes as soon as any
  persistent volume is attached, and also for an inline volume with a shared access mode, and
  passes otherwise. A crash writes nothing.
\<close>

theorem updateMatrix_check_crashes:
  assumes "IsVDODeployed w s = (Ok d, u)" and "w_listVolumeAttachments w (trace u) = Inr items"
    and "\<forall>a \<in> set items. (InlineAccessModes a = None) \<noteq> (PersistentVolumeName a = None)"
  shows "updateMatrix w (x # xs) s =
    (let v = u\<lparr>trace := trace u @ [ListVolumeAttachments]\<rparr> in
     if \<exists>a \<in> set items. PersistentVolumeName a \<noteq> None \<or> (\<exists>modes. InlineAccessModes a = Some modes \<and> list_ex isShared modes)
     then (Panic ''nil pointer dereference'', v)
     else thenM (updateMatrixConfigMap w x) (say updatedMsg) v)"
proof -
  define hit where "hit \<longleftrightarrow> (\<exists>a \<in> set items. PersistentVolumeName a \<noteq> None \<or>
    (\<exists>modes. InlineAccessModes a = Some modes \<and> list_ex isShared modes))"
  have "sharedVolumes items = (if hit then Panic ''nil pointer dereference'' else Ok [])"
    unfolding hit_def by (rule sharedVolumes_exclusive [OF assms(3)])
  then show ?thesis
    using assms(1,2) unfolding hit_def [symmetric]
    by (cases hit) (simp_all add: updateMatrix_def thenM_def bindM_def tryM_def ask_def Let_def)
qed

theorem updateMatrix_check_crashes_witness:
  "fst (updateMatrix (attached_world [\<lparr>InlineAccessModes = None, PersistentVolumeName = Some ''pv1''\<rparr>]) [''http://m.org''] init_St)
     = Panic ''nil pointer dereference''"
proof -
  let ?items = "[\<lparr>InlineAccessModes = None, PersistentVolumeName = Some ''pv1''\<rparr>]"
  obtain d u where "IsVDODeployed (attached_world ?items) init_St = (Ok d, u)" using attached_deployed by blast
  from updateMatrix_check_crashes [OF this, of ?items "''http://m.org''" "[]"] show ?thesis by (simp add: Let_def)
qed

end
