(* ===== verification/Ctl_Lifecycle.thy ===== *)
theory Ctl_Lifecycle
  imports Ctl_Matrix
begin

text \<open>
  Deploying, deleting and inspecting the operator: \<^verbatim>\<open>vdoctl/cmd/deploy.go\<close>,
  \<^verbatim>\<open>delete_vdo.go\<close>, \<^verbatim>\<open>status.go\<close> and \<^verbatim>\<open>version.go\<close>.
\<close>

section \<open>vdoctl deploy\<close>

definition deployTip :: string where
  "deployTip = ''Tip: now that you have deployed VDO, you might want to try '' @ [CHR 39] @
     ''vdoctl configure compatibility-matrix'' @ [CHR 39] @ '' to configure compatibility matrix'' @ newline"

text \<open>The platform is the empty string, so the branch for OpenShift is never taken.\<close>

definition deploy :: "'v world \<Rightarrow> string \<Rightarrow> unit M" where
  "deploy w specfile =
     bindM (tryM (readSpec w specfile))
       (\<lambda>r. case r of
          Inl e \<Rightarrow> throw (Msg (''unable to read deployment spec from '' @ specfile))
        | Inr fileBytes \<Rightarrow> thenM (ParseAndProcessK8sObjects w fileBytes [] CREATE) (say deployTip))"

section \<open>vdoctl delete vdo\<close>

text \<open>\<^verbatim>\<open>if err != nil && !apierrors.IsNotFound(err) { cobra.CheckErr(fmt.Errorf(...)) }\<close>\<close>

definition unlessMissing :: "string \<Rightarrow> unit M \<Rightarrow> unit M" where
  "unlessMissing msg m =
     bindM (tryM m)
       (\<lambda>r. case r of Inl e \<Rightarrow> if \<not> IsNotFound e then throw (Msg (msg @ Error e)) else ret () | Inr _ \<Rightarrow> ret ())"

definition managedByVdo :: string where
  "managedByVdo = ''managedby=vdo''"

definition listOrExit :: "string \<Rightarrow> 'a list M \<Rightarrow> 'a list M" where
  "listOrExit msg m =
     bindM (tryM m) (\<lambda>r. case r of Inl e \<Rightarrow> throw (Msg (msg @ Error e)) | Inr xs \<Rightarrow> ret xs)"

definition deletedMsg :: string where
  "deletedMsg = ''This command deletes the VDO operator deployment eventually the operator pods will be deleted'' @ newline"

definition deleteVdo :: "'v world \<Rightarrow> unit M" where
  "deleteVdo w =
     thenM (IsVDODeployed w) (bindM (getS VdoCurrentNamespace)
       (\<lambda>ns. thenM (unlessMissing ''Error occurred deleting VDO,  '' (ask (DeleteNamespace ns) (\<lambda>t. w_deleteNamespace w t ns)))
         (bindM (listOrExit ''Error occurred deleting VDO ''
                  (ask (ListClusterRoleBindings managedByVdo) (\<lambda>t. w_listClusterRoleBindings w t managedByVdo)))
           (\<lambda>clusterRBList. thenM
             (forM (\<lambda>crb. unlessMissing ''Error occurred when deleting VDO,  ''
                (ask (DeleteClusterRoleBinding crb) (\<lambda>t. w_deleteClusterRoleBinding w t crb))) clusterRBList)
             (bindM (listOrExit ''Error occurred deleting VDO ''
                      (ask (ListClusterRoles managedByVdo) (\<lambda>t. w_listClusterRoles w t managedByVdo)))
               (\<lambda>clusterRoleList. thenM
                 (forM (\<lambda>role. unlessMissing ''Error occurred when deleting VDO,  ''
                    (ask (DeleteClusterRole role) (\<lambda>t. w_deleteClusterRole w t role))) clusterRoleList)
                 (say deletedMsg)))))))"

section \<open>vdoctl status\<close>

fun phaseText :: "VDOConfigPhase \<Rightarrow> string" where
  "phaseText PhaseUnset = []"
| "phaseText Deploying = ''Deploying''"
| "phaseText Deployed = ''Deployed''"
| "phaseText Configuring = ''Configuring''"
| "phaseText Configured = ''Configured''"
| "phaseText Failed = ''Failed''"

fun nodeStatusText :: "NodeStatus \<Rightarrow> string" where
  "nodeStatusText NodeStatusPending = ''pending''"
| "nodeStatusText NodeStatusFailed = ''failed''"
| "nodeStatusText NodeStatusReady = ''ready''"

definition fetchVcenterIp :: "VsphereCloudConfig list \<Rightarrow> string \<Rightarrow> unit M" where
  "fetchVcenterIp vccs configName =
     (case find (\<lambda>c. configName = VccName c) vccs of
        None \<Rightarrow> ret ()
      | Some c \<Rightarrow>
          thenM (say (newline @ tab @ '' vCenter : ''))
            (if ConfigState (VccStatus c) = VsphereConfigVerified
             then say (newline @ tab @ tab @ VcIP (VccSpec c) @ ''  (Credentials Verified)'' @ newline)
             else say (newline @ tab @ tab @ VcIP (VccSpec c) @ ''  ('' @ Message (VccStatus c) @ '')'' @ newline)))"

definition notDeployedMsg :: string where
  "notDeployedMsg = ''VDO is not deployed. you can run `vdoctl deploy` command to deploy VDO''"

definition notConfiguredMsg :: string where
  "notConfiguredMsg = ''VDO is not configured. you can use `vdoctl configure drivers` to configure VDO'' @ newline"

text \<open>The nodes are printed in the order in which Go iterates over the map, here that of the entries.\<close>

definition showStatus :: "VsphereCloudConfig list \<Rightarrow> VDOConfig \<Rightarrow> unit M" where
  "showStatus vccs vdo =
     thenM (forM (\<lambda>name. thenM (say (''CloudProvider   : '' @ phaseText (cpi_phase vdo))) (fetchVcenterIp vccs name))
              (cloud_configs vdo))
       (thenM (if 0 < mlen (node_status vdo) then say (tab @ '' Nodes : '') else ret ())
         (thenM (forM (\<lambda>(nodeName, st). say (newline @ tab @ tab @ '' '' @ nodeName @ '' : '' @ nodeStatusText st @ '' ''))
                   (entries (node_status vdo)))
           (thenM (say (newline @ ''StorageProvider : '' @ phaseText (csi_phase vdo)))
             (fetchVcenterIp vccs (storage_config vdo)))))"

definition status :: "'v world \<Rightarrow> unit M" where
  "status w =
     bindM (tryM (IsVDODeployed w))
       (\<lambda>r. case r of
          Inl e \<Rightarrow> if IsNotFound e then say (notDeployedMsg @ newline) else throw e
        | Inr _ \<Rightarrow>
            bindM (ask ListVCCs (w_listVCC w))
              (\<lambda>vccs. bindM (ask ListVDOConfigs (w_listVDO w))
                (\<lambda>vdos. case vdos of [] \<Rightarrow> say notConfiguredMsg | vdo # _ \<Rightarrow> showStatus vccs vdo)))"

section \<open>vdoctl version\<close>

text \<open>The package variables of \<^verbatim>\<open>version.go\<close>, in the order in which they are shown.\<close>

record VersionInfo =
  k8sVersion :: string
  vdoVersion :: string
  vsphereVersion :: "string list"
  csiVersion :: string
  cpiVersion :: string

definition notConfigured :: string where
  "notConfigured = ''Not Configured''"

definition noVersions :: VersionInfo where
  "noVersions = \<lparr>k8sVersion = notConfigured, vdoVersion = notConfigured, vsphereVersion = [],
     csiVersion = notConfigured, cpiVersion = notConfigured\<rparr>"

definition showVersionInfo :: "VersionInfo \<Rightarrow> unit M" where
  "showVersionInfo v =
     thenM (say (''kubernetes Version : '' @ k8sVersion v))
       (thenM (say (newline @ ''VDO Version        : '' @ vdoVersion v))
         (thenM (say (newline @ ''vSphere Versions   : ['' @ Join (vsphereVersion v) '' '' @ '']''))
           (thenM (say (newline @ ''CSI Version        : '' @ csiVersion v))
             (say (newline @ ''CPI Version        : '' @ cpiVersion v @ newline)))))"

definition getK8sVersion :: "'v world \<Rightarrow> string M" where
  "getK8sVersion w =
     thenM (ask NewDiscoveryClient (w_newDiscovery w))
       (bindM (ask ServerVersion (w_serverVersion w)) (\<lambda>(major, minor). ret (major @ ''.'' @ minor)))"

definition getVdoVersion :: "Deployment \<Rightarrow> string M" where
  "getVdoVersion dep =
     (let containerImage = (case find (\<lambda>(name, img). Contains name ''manager'') (DepContainers dep) of
                              None \<Rightarrow> [] | Some (name, img) \<Rightarrow> img)
      in if containerImage = [] then throw (Msg ''Unable to find the VDO manager container'')
         else ret (last (Split containerImage CHR '':'')))"

text \<open>A reconciler of its own, with the zero values, and the configuration it is given.\<close>

definition newReconciler :: "VDOConfig \<Rightarrow> unit M" where
  "newReconciler vdo =
     modS (\<lambda>s. s\<lparr>cfg := vdo, CsiDeploymentYamls := [], CpiDeploymentYamls := [],
                CurrentCSIDeployedVersion := [], CurrentCPIDeployedVersion := []\<rparr>)"

definition matrixOf :: "'v world \<Rightarrow> ConfigMap \<Rightarrow> CompatMatrix M" where
  "matrixOf w configMap =
     (case mlookup (CmData configMap) ''versionConfigURL'' of
        Some matrixConfigUrl \<Rightarrow> ParseMatrixYaml w matrixConfigUrl
      | None \<Rightarrow> liftO (outcome_of (p_jsonMatrix w (mindex (CmData configMap) ''versionConfigContent''))))"

definition driverVersions :: "'v world \<Rightarrow> CompatMatrix \<Rightarrow> VersionInfo \<Rightarrow> unit M" where
  "driverVersions w matrix v =
     thenM (FetchCsiDeploymentYamls w matrix (vsphereVersion v) (k8sVersion v))
       (bindM (getS CurrentCSIDeployedVersion)
         (\<lambda>csi. bindM (getS (\<lambda>s. cloud_configs (cfg s)))
           (\<lambda>configs. if configs = [] then showVersionInfo (v\<lparr>csiVersion := csi\<rparr>)
              else thenM (FetchCpiDeploymentYamls w matrix (vsphereVersion v) (k8sVersion v))
                (bindM (getS CurrentCPIDeployedVersion)
                  (\<lambda>cpi. showVersionInfo (v\<lparr>csiVersion := csi, cpiVersion := cpi\<rparr>))))))"

definition configuredVersions :: "'v world \<Rightarrow> VersionInfo \<Rightarrow> VDOConfig \<Rightarrow> unit M" where
  "configuredVersions w v vdo =
     thenM (newReconciler vdo) (bindM (getS matrixKey)
       (\<lambda>req. bindM (ask (GetConfigMap req) (\<lambda>t. w_getConfigMap w t req))
         (\<lambda>configMap. bindM (matrixOf w configMap)
           (\<lambda>matrix. bindM (tryM (FetchVsphereVersions w req))
             (\<lambda>r. driverVersions w matrix
                (v\<lparr>vsphereVersion := (case r of Inl e \<Rightarrow> [] | Inr vs \<Rightarrow> vs)\<rparr>))))))"

definition version :: "'v world \<Rightarrow> unit M" where
  "version w =
     thenM (IsVDODeployed w) (bindM (getK8sVersion w)
       (\<lambda>k8s. let v = noVersions\<lparr>k8sVersion := k8s\<rparr> in
          bindM (tryM (IsVDODeployed w))
            (\<lambda>r. case r of
               Inl e \<Rightarrow> if IsNotFound e then showVersionInfo v else throw e
             | Inr vdoDeployment \<Rightarrow>
                 bindM (getVdoVersion vdoDeployment)
                   (\<lambda>ver. let v = v\<lparr>vdoVersion := ver\<rparr> in
                      bindM (ask ListVDOConfigs (w_listVDO w))
                        (\<lambda>vdos. case vdos of [] \<Rightarrow> showVersionInfo v | vdo # _ \<Rightarrow> configuredVersions w v vdo)))))"

section \<open>What the commands request\<close>

definition ctl_read :: "call \<Rightarrow> bool" where
  "ctl_read c \<longleftrightarrow> reading_call c \<or> (case c of ListDeployments \<Rightarrow> True | ListVCCs \<Rightarrow> True | Print _ \<Rightarrow> True | _ \<Rightarrow> False)"

lemma ctl_read_simps [simp]:
  "ctl_read ListDeployments" "ctl_read ListVCCs" "ctl_read (Print x)" "reading_call c \<Longrightarrow> ctl_read c"
  by (simp_all add: ctl_read_def)

lemma fetchVcenterIp_read [keeps_intro]: "keeps (emits ctl_read) (fetchVcenterIp vccs name)"
  unfolding fetchVcenterIp_def by (intro keeps_intro) simp_all

lemma status_read: "keeps (emits ctl_read) (status w)"
  unfolding status_def showStatus_def by (intro keeps_intro) simp_all

lemma showVersionInfo_read [keeps_intro]: "keeps (emits ctl_read) (showVersionInfo v)"
  unfolding showVersionInfo_def by (intro keeps_intro) simp_all

lemma getK8sVersion_read [keeps_intro]: "keeps (emits ctl_read) (getK8sVersion w)"
  unfolding getK8sVersion_def by (intro keeps_intro) simp_all

lemma getVdoVersion_read [keeps_intro]: "keeps (emits ctl_read) (getVdoVersion dep)"
  unfolding getVdoVersion_def Let_def by (intro keeps_intro)

lemma matrixOf_read [keeps_intro]: "keeps (emits ctl_read) (matrixOf w cm)"
  unfolding matrixOf_def ParseMatrixYaml_def by (intro keeps_intro; simp)

text \<open>The driver versions of a new reconciler are empty, so choosing a version removes no deployment.\<close>

definition currents :: "St \<Rightarrow> string \<times> string" where
  "currents s = (CurrentCSIDeployedVersion s, CurrentCPIDeployedVersion s)"

definition reads_if_fresh :: "'a M \<Rightarrow> bool" where
  "reads_if_fresh m \<longleftrightarrow> (\<forall>s. currents s = ([], []) \<longrightarrow> emits ctl_read s (snd (m s)))"

lemma reads_if_fresh_bindM:
  assumes "keeps (emits ctl_read) m" "keeps (fixes_field currents) m" and "\<And>x. reads_if_fresh (k x)"
  shows "reads_if_fresh (bindM m k)"
  unfolding reads_if_fresh_def
proof (intro allI impI)
  fix s assume s: "currents s = ([], [])"
  obtain q u where m: "m s = (q, u)" by force
  have u: "emits ctl_read s u" "currents u = ([], [])"
    using keepsD [OF assms(1) m] keepsD [OF assms(2) m] s by (simp_all add: fixes_field_def)
  show "emits ctl_read s (snd (bindM m k s))"
  proof (cases q)
    case (Ok x)
    with assms(3) u(2) have "emits ctl_read u (snd (k x u))" by (simp add: reads_if_fresh_def)
    from emits.R_trans [OF u(1) this] m Ok show ?thesis by (simp add: bindM_def)
  qed (use u m in \<open>simp_all add: bindM_def\<close>)
qed

lemma driverVersions_read: "reads_if_fresh (driverVersions w matrix v)"
  unfolding reads_if_fresh_def
proof (intro allI impI)
  fix s assume s: "currents s = ([], [])"
  have show_read: "trace u = trace s \<Longrightarrow> emits ctl_read s (snd (showVersionInfo x u))" for u x
    using keepsD [OF showVersionInfo_read, of x u] prod.collapse [of "showVersionInfo x u"]
    by (metis emits_def new_calls_def)
  show "emits ctl_read s (snd (driverVersions w matrix v s))"
    using s
    by (auto simp: driverVersions_def thenM_def bindM_def csi_driver.fetch_run cpi_driver.fetch_run
        csi_driver.removed_def cpi_driver.removed_def currents_def show_read split: sum.split)
      (auto intro: emitsI [where cs = "[]"])
qed

lemma currents_trace: "currents (s\<lparr>trace := l\<rparr>) = currents s" "currents (s\<lparr>sessionCache := c\<rparr>) = currents s"
  by (simp_all add: currents_def)

lemma matrixOf_fixed [keeps_intro]: "keeps (fixes_field currents) (matrixOf w cm)"
  unfolding matrixOf_def ParseMatrixYaml_def readSpec_def GenerateYamlFromFilePath_def GenerateYamlFromUrl_def Let_def
  by (intro keeps_intro; simp add: currents_trace)

lemma configuredVersions_read [keeps_intro]: "keeps (emits ctl_read) (configuredVersions w v vdo)"
proof -
  let ?rest = "bindM (getS matrixKey)
       (\<lambda>req. bindM (ask (GetConfigMap req) (\<lambda>t. w_getConfigMap w t req))
         (\<lambda>configMap. bindM (matrixOf w configMap)
           (\<lambda>matrix. bindM (tryM (FetchVsphereVersions w req))
             (\<lambda>r. driverVersions w matrix
                (v\<lparr>vsphereVersion := (case r of Inl e \<Rightarrow> [] | Inr vs \<Rightarrow> vs)\<rparr>)))))"
  have "reads_if_fresh ?rest"
    by (intro reads_if_fresh_bindM driverVersions_read keeps_intro; simp add: currents_trace)
  moreover define fresh where "fresh s = s\<lparr>cfg := vdo, CsiDeploymentYamls := [], CpiDeploymentYamls := [],
      CurrentCSIDeployedVersion := [], CurrentCPIDeployedVersion := []\<rparr>" for s :: St
  ultimately have "emits ctl_read (fresh s) (snd (?rest (fresh s)))" for s
    by (simp add: reads_if_fresh_def currents_def)
  moreover have "configuredVersions w v vdo s = ?rest (fresh s)" for s
    by (simp add: configuredVersions_def newReconciler_def thenM_def bindM_def [of "modS _"] fresh_def)
  moreover have "emits ctl_read (fresh s) u = emits ctl_read s u" for s u
    by (simp add: emits_def new_calls_def fresh_def)
  ultimately show ?thesis
    unfolding keeps_def by metis
qed

lemma version_read: "keeps (emits ctl_read) (version w)"
  unfolding version_def Let_def by (intro keeps_intro) simp_all

text \<open>
  \<^verbatim>\<open>vdoctl version\<close> and \<^verbatim>\<open>vdoctl status\<close> only read, whatever the answers: although
  \<^verbatim>\<open>version\<close> runs the functions with which the operator installs a driver and removes the
  old one, no run creates, updates or deletes an object or changes a status.
\<close>

theorem version_and_status_read_only:
  "list_all (\<lambda>c. reading_call c \<or> c = ListDeployments \<or> c = ListVCCs \<or> (\<exists>x. c = Print x))
     (new_calls s (snd (version w s)) @ new_calls s (snd (status w s)))"
proof -
  have "ctl_read c \<Longrightarrow> reading_call c \<or> c = ListDeployments \<or> c = ListVCCs \<or> (\<exists>x. c = Print x)" for c
    by (auto simp: ctl_read_def split: call.splits)
  moreover have "list_all ctl_read (new_calls s (snd (version w s)))" "list_all ctl_read (new_calls s (snd (status w s)))"
    using version_read status_read by (auto simp: keeps_def emits_def)
  ultimately show ?thesis by (auto simp: list_all_iff)
qed

section \<open>What is deleted\<close>

lemma unlessMissing_run:
  assumes "unlessMissing msg (ask c f) s = (Ok (), t)"
  shows "t = s\<lparr>trace := trace s @ [c]\<rparr>"
  using assms by (cases "f (trace s)") (auto simp: unlessMissing_def monad_defs split: if_splits)

lemma forM_unlessMissing:
  "forM (\<lambda>x. unlessMissing msg (ask (c x) (f x))) xs s = (Ok (), t) \<Longrightarrow> t = s\<lparr>trace := trace s @ map c xs\<rparr>"
proof (induction xs arbitrary: s)
  case (Cons x xs)
  then obtain u where u: "unlessMissing msg (ask (c x) (f x)) s = (Ok (), u)"
    "forM (\<lambda>x. unlessMissing msg (ask (c x) (f x))) xs u = (Ok (), t)"
    by (auto simp: thenM_Ok_iff)
  from u(1) have "u = s\<lparr>trace := trace s @ [c x]\<rparr>" by (rule unlessMissing_run)
  with Cons.IH [OF u(2)] show ?case by simp
qed simp

lemma listOrExit_run:
  "listOrExit msg (ask c f) s = (Ok xs, t) \<longleftrightarrow> f (trace s) = Inr xs \<and> t = s\<lparr>trace := trace s @ [c]\<rparr>"
  by (cases "f (trace s)") (auto simp: listOrExit_def monad_defs)

lemma IsVDODeployed_Ok:
  "IsVDODeployed w s = (Ok d, t) \<Longrightarrow> trace t = trace s @ [ListDeployments] \<and> VdoCurrentNamespace t \<noteq> []"
  by (auto simp: IsVDODeployed_def monad_defs split: sum.splits outcome.splits option.splits if_splits)


definition clean_world :: "nat list world" where
  "clean_world = (attached_world [])\<lparr>w_deleteNamespace := \<lambda>_ _. Inr (), w_listClusterRoleBindings := \<lambda>_ _. Inr [''vdo-binding''],
     w_deleteClusterRoleBinding := \<lambda>_ _. Inl (ApiErr NotFound ''gone''), w_listClusterRoles := \<lambda>_ _. Inr []\<rparr>"


end
