(* ===== verification/Ctl_Version.thy ===== *)
theory Ctl_Version
  imports Ctl_Lifecycle
begin

text \<open>
  What \<^verbatim>\<open>vdoctl version\<close> shows: the versions that the operator selects from the same answers.
\<close>

definition versionLines :: "VersionInfo \<Rightarrow> call list" where
  "versionLines v =
     [Print (''kubernetes Version : '' @ k8sVersion v),
      Print (newline @ ''VDO Version        : '' @ vdoVersion v),
      Print (newline @ ''vSphere Versions   : ['' @ Join (vsphereVersion v) '' '' @ '']''),
      Print (newline @ ''CSI Version        : '' @ csiVersion v),
      Print (newline @ ''CPI Version        : '' @ cpiVersion v @ newline)]"

lemma say_run: "say x s = (Ok (), s\<lparr>trace := trace s @ [Print x]\<rparr>)"
  by (simp add: say_def ask_def)

lemma say_then_run: "thenM (say x) m s = m (s\<lparr>trace := trace s @ [Print x]\<rparr>)"
  by (simp add: thenM_def bindM_def say_run)

lemma showVersionInfo_run: "showVersionInfo v s = (Ok (), s\<lparr>trace := trace s @ versionLines v\<rparr>)"
  by (simp only: showVersionInfo_def versionLines_def say_then_run say_run St.select_convs St.update_convs append_assoc append.simps St.surjective)
    simp

definition selected :: "'v world \<Rightarrow> CompatMatrix \<Rightarrow> bool \<Rightarrow> VersionInfo \<Rightarrow> bool" where
  "selected w matrix cpi v \<longleftrightarrow>
     selectCSI w matrix (vsphereVersion v) (k8sVersion v) = Inr (csiVersion v) \<and>
     (if cpi then selectCPI w matrix (vsphereVersion v) (k8sVersion v) = Inr (cpiVersion v) else cpiVersion v = notConfigured)"

lemma driverVersions_Ok:
  assumes "driverVersions w matrix v s = (Ok (), t)" and "cpiVersion v = notConfigured"
  shows "\<exists>v' tr. trace t = tr @ versionLines v' \<and> k8sVersion v' = k8sVersion v \<and> vsphereVersion v' = vsphereVersion v \<and>
    selected w matrix (cloud_configs (cfg s) \<noteq> []) v'"
proof -
  let ?vs = "vsphereVersion v" and ?k = "k8sVersion v"
  from assms(1) obtain s1 where csi: "FetchCsiDeploymentYamls w matrix ?vs ?k s = (Ok (), s1)"
    and rest: "(if cloud_configs (cfg s1) = [] then showVersionInfo (v\<lparr>csiVersion := CurrentCSIDeployedVersion s1\<rparr>)
      else thenM (FetchCpiDeploymentYamls w matrix ?vs ?k)
        (bindM (getS CurrentCPIDeployedVersion)
          (\<lambda>cpi. showVersionInfo (v\<lparr>csiVersion := CurrentCSIDeployedVersion s1, cpiVersion := cpi\<rparr>)))) s1 = (Ok (), t)"
    by (auto simp: driverVersions_def thenM_Ok_iff bindM_Ok_iff)
  from csi have sel: "selectCSI w matrix ?vs ?k = Inr (CurrentCSIDeployedVersion s1)"
    by (auto simp: csi_driver.fetch_Ok)
  have cfg: "cfg s1 = cfg s"
    using keepsD [OF csi_driver.fetch_fixed [of cfg] csi] by (simp add: fixes_field_def)
  show ?thesis
  proof (cases "cloud_configs (cfg s) = []")
    case True
    let ?v = "v\<lparr>csiVersion := CurrentCSIDeployedVersion s1\<rparr>"
    from True rest have "trace t = trace s1 @ versionLines ?v" by (auto simp: cfg showVersionInfo_run)
    moreover have "selected w matrix (cloud_configs (cfg s) \<noteq> []) ?v" using sel assms(2) True by (simp add: selected_def)
    ultimately show ?thesis by (intro exI [of _ ?v] exI [of _ "trace s1"] conjI) simp_all
  next
    case False
    with rest obtain s2 where cpi: "FetchCpiDeploymentYamls w matrix ?vs ?k s1 = (Ok (), s2)"
      and t: "showVersionInfo (v\<lparr>csiVersion := CurrentCSIDeployedVersion s1, cpiVersion := CurrentCPIDeployedVersion s2\<rparr>) s2 = (Ok (), t)"
      by (auto simp: cfg thenM_Ok_iff bindM_Ok_iff)
    let ?v = "v\<lparr>csiVersion := CurrentCSIDeployedVersion s1, cpiVersion := CurrentCPIDeployedVersion s2\<rparr>"
    from t have "trace t = trace s2 @ versionLines ?v" by (auto simp: showVersionInfo_run)
    moreover have "selected w matrix (cloud_configs (cfg s) \<noteq> []) ?v"
      using sel cpi False by (auto simp: selected_def cpi_driver.fetch_Ok)
    ultimately show ?thesis by (intro exI [of _ ?v] exI [of _ "trace s2"] conjI) simp_all
  qed
qed

lemma configuredVersions_Ok:
  assumes "configuredVersions w v vdo s = (Ok (), t)" and "cpiVersion v = notConfigured"
  shows "\<exists>v' tr cm matrix q a b. trace t = tr @ versionLines v' \<and> k8sVersion v' = k8sVersion v \<and>
    w_getConfigMap w q (matrixKey s) = Inr cm \<and> matrixOf w cm a = (Ok matrix, b) \<and>
    selected w matrix (cloud_configs vdo \<noteq> []) v'"
proof -
  define s0 where "s0 = s\<lparr>cfg := vdo, CsiDeploymentYamls := [], CpiDeploymentYamls := [],
      CurrentCSIDeployedVersion := [], CurrentCPIDeployedVersion := []\<rparr>"
  have key: "matrixKey s0 = matrixKey s" by (simp add: s0_def matrixKey_def)
  from assms(1) obtain cm s1 matrix s2 r s3 where run: "ask (GetConfigMap (matrixKey s)) (\<lambda>t. w_getConfigMap w t (matrixKey s)) s0 = (Ok cm, s1)"
    "matrixOf w cm s1 = (Ok matrix, s2)" "tryM (FetchVsphereVersions w (matrixKey s)) s2 = (Ok r, s3)"
    "driverVersions w matrix (v\<lparr>vsphereVersion := (case r of Inl e \<Rightarrow> [] | Inr vs \<Rightarrow> vs)\<rparr>) s3 = (Ok (), t)"
    unfolding configuredVersions_def newReconciler_def s0_def [symmetric] bindM_Ok_iff thenM_Ok_iff
    by (auto simp: modS_def s0_def [symmetric] key)
  have k: "keeps (fixes_field cfg) (ask (GetConfigMap (matrixKey s)) (\<lambda>t. w_getConfigMap w t (matrixKey s)))"
    "keeps (fixes_field cfg) (matrixOf w cm)" "keeps (fixes_field cfg) (tryM (FetchVsphereVersions w (matrixKey s)))"
    unfolding matrixOf_def ParseMatrixYaml_def readSpec_def GenerateYamlFromFilePath_def GenerateYamlFromUrl_def Let_def
    by (intro keeps_intro; simp)+
  have "cfg s3 = vdo"
    using keepsD [OF k(1) run(1)] keepsD [OF k(2) run(2)] keepsD [OF k(3) run(3)] by (simp add: fixes_field_def s0_def)
  with driverVersions_Ok [OF run(4)] assms(2) obtain v' tr where
    "trace t = tr @ versionLines v'" "k8sVersion v' = k8sVersion v" "selected w matrix (cloud_configs vdo \<noteq> []) v'"
    by auto
  moreover from run(1) have "w_getConfigMap w (trace s0) (matrixKey s) = Inr cm" by (simp add: ask_Ok_iff)
  ultimately show ?thesis using run(2) by blast
qed

lemma check_selects:
  assumes "CheckCompatAndRetrieveSpec w req m u = (Ok (), u')" and "Fetchk8sVersions w u = (Ok k, u1)"
    and "FetchVsphereVersions w req u1 = (Ok vs, u2)" "readMatrix w m u2 = (Ok matrix, u3)"
  shows "selectCSI w matrix vs k = Inr (CurrentCSIDeployedVersion u')"
proof -
  from assms obtain u4 u5 where csi: "FetchCsiDeploymentYamls w matrix vs k u4 = (Ok (), u5)"
    and place: "placeCSINamespace w u5 = (Ok (), u')"
    unfolding CheckCompatAndRetrieveSpec_def bindM_def thenM_Ok_iff [unfolded thenM_def]
    by (auto simp: thenM_Ok_iff bindM_def getS_def)
  have "keeps (fixes_field CurrentCSIDeployedVersion) (placeCSINamespace w)"
    unfolding placeCSINamespace_def createCSINamespace_def deleteCSINamespace_def setCsiNamespace_def by (intro keeps_intro; simp)
  from keepsD [OF this place] csi show ?thesis by (auto simp: csi_driver.fetch_Ok fixes_field_def)
qed

lemma fetch_namespace [keeps_intro]:
  "keeps (fixes_field VdoCurrentNamespace) (FetchCsiDeploymentYamls w m vs k)"
  "keeps (fixes_field VdoCurrentNamespace) (FetchCpiDeploymentYamls w m vs k)"
  by (rule csi_driver.fetch_fixed cpi_driver.fetch_fixed; simp)+

lemma configuredVersions_namespace: "keeps (fixes_field VdoCurrentNamespace) (configuredVersions w v vdo)"
  unfolding configuredVersions_def newReconciler_def driverVersions_def showVersionInfo_def say_def matrixOf_def ParseMatrixYaml_def
    readSpec_def GenerateYamlFromFilePath_def GenerateYamlFromUrl_def Let_def
  by (intro keeps_intro; simp)

lemma version_Ok:
  assumes "version w s = (Ok (), t)"
  shows "(\<exists>v tr. trace t = tr @ versionLines v \<and> csiVersion v = notConfigured \<and> cpiVersion v = notConfigured) \<or>
    (\<exists>v tr vdo vdos cm matrix q q' a b. trace t = tr @ versionLines v \<and> w_listVDO w q = Inr (vdo # vdos) \<and>
       w_getConfigMap w q' (matrixKey t) = Inr cm \<and> matrixOf w cm a = (Ok matrix, b) \<and>
       selected w matrix (cloud_configs vdo \<noteq> []) v)"
proof -
  from assms obtain k8s s1 r s2 where run: "tryM (IsVDODeployed w) s1 = (Ok r, s2)"
    "(case r of Inl e \<Rightarrow> if IsNotFound e then showVersionInfo (noVersions\<lparr>k8sVersion := k8s\<rparr>) else throw e
      | Inr vdoDeployment \<Rightarrow> bindM (getVdoVersion vdoDeployment)
          (\<lambda>ver. bindM (ask ListVDOConfigs (w_listVDO w))
             (\<lambda>vdos. case vdos of [] \<Rightarrow> showVersionInfo (noVersions\<lparr>k8sVersion := k8s, vdoVersion := ver\<rparr>)
                | vdo # _ \<Rightarrow> configuredVersions w (noVersions\<lparr>k8sVersion := k8s, vdoVersion := ver\<rparr>) vdo))) s2 = (Ok (), t)"
    by (auto simp: version_def Let_def thenM_Ok_iff bindM_Ok_iff)
  have none: ?thesis if "showVersionInfo v u = (Ok (), t)" "csiVersion v = notConfigured" "cpiVersion v = notConfigured" for v u
    using that by (intro disjI1 exI [of _ v] exI [of _ "trace u"]) (auto simp: showVersionInfo_run)
  show ?thesis
  proof (cases r)
    case (Inl e)
    with run(2) none show ?thesis by (auto simp: noVersions_def split: if_splits)
  next
    case (Inr dep)
    with run(2) obtain ver vdos s3 where list: "w_listVDO w (trace s3) = Inr vdos"
      and rest: "(case vdos of [] \<Rightarrow> showVersionInfo (noVersions\<lparr>k8sVersion := k8s, vdoVersion := ver\<rparr>)
          | vdo # _ \<Rightarrow> configuredVersions w (noVersions\<lparr>k8sVersion := k8s, vdoVersion := ver\<rparr>) vdo)
        (s3\<lparr>trace := trace s3 @ [ListVDOConfigs]\<rparr>) = (Ok (), t)"
      by (auto simp: bindM_Ok_iff ask_Ok_iff)
    show ?thesis
    proof (cases vdos)
      case Nil
      with rest none show ?thesis by (simp add: noVersions_def)
    next
      case (Cons vdo more)
      let ?s = "s3\<lparr>trace := trace s3 @ [ListVDOConfigs]\<rparr>"
      from Cons rest have conf: "configuredVersions w (noVersions\<lparr>k8sVersion := k8s, vdoVersion := ver\<rparr>) vdo ?s = (Ok (), t)"
        by simp
      have "matrixKey t = matrixKey ?s"
        using keepsD [OF configuredVersions_namespace conf] by (simp add: fixes_field_def matrixKey_def)
      with configuredVersions_Ok [OF conf] list Cons show ?thesis
        by (intro disjI2) (simp add: noVersions_def, blast)
    qed
  qed
qed


definition shown_world :: "nat list world" where
  "shown_world = lab_world\<lparr>w_listDeployments := w_listDeployments (attached_world []), w_listVDO := \<lambda>_. Inr [lab_cfg],
     w_getConfigMap := \<lambda>_ key. Inr \<lparr>CmKey = key, CmData = Some [(''versionConfigContent'', ''{}'')]\<rparr>\<rparr>"

lemma shown_sel [simp]:
  "w_listDeployments shown_world = w_listDeployments (attached_world [])" "w_listVDO shown_world = (\<lambda>_. Inr [lab_cfg])"
  "w_getConfigMap shown_world = (\<lambda>_ key. Inr \<lparr>CmKey = key, CmData = Some [(''versionConfigContent'', ''{}'')]\<rparr>)"
  "w_newVimClient shown_world = w_newVimClient lab_world" "w_login shown_world = w_login lab_world"
  "w_findDatacenter shown_world = w_findDatacenter lab_world" "w_newDiscovery shown_world = w_newDiscovery lab_world"
  "w_serverVersion shown_world = w_serverVersion lab_world" "w_getVCC shown_world = w_getVCC lab_world"
  "w_getSecret shown_world = w_getSecret lab_world" "p_jsonMatrix shown_world = p_jsonMatrix lab_world"
  "p_newVersion shown_world = sample_newVersion" "p_versionCompare shown_world = sample_compare"
  "p_parseURL shown_world = p_parseURL down_world"
  by (simp_all add: shown_world_def)

lemma shown_run: "\<exists>t. version shown_world init_St = (Ok (), t)"
  by (simp add: version_def IsVDODeployed_def getK8sVersion_def getVdoVersion_def configuredVersions_def newReconciler_def
      matrixOf_def driverVersions_def FetchVsphereVersions_def fetchVSphereCloudConfig_def getVcSession_def fetchVcCredentials_def
      GetOrCreate_def cachedSession_def createSession_def newClient_def findDatacenters_def monad_defs showVersionInfo_run
      cpi_driver.fetch_run csi_driver.fetch_run cpi_driver.removed_def csi_driver.removed_def lab_select mlookup_def mindex_def)


end
