(* ===== verification/Ctl_Root.thy ===== *)
theory Ctl_Root
  imports Ctl_Lifecycle
begin

text \<open>
  The start of \<^verbatim>\<open>vdoctl\<close> (\<^verbatim>\<open>vdoctl/main.go\<close>, \<^verbatim>\<open>vdoctl/cmd/root.go\<close>): the choice of the cluster, the client and the
  types it knows. Cobra, viper and the construction of clients are outside the repository: \<open>cobra\<close> says what the command
  line asks for, and \<open>host\<close> answers the steps.
\<close>

section \<open>Steps\<close>

datatype cli_step =
    GenMarkdownTree string
  | UserHomeDir
  | ReadInConfig string
  | BuildConfigFromFlags string
  | NewClient string
  | AddToScheme "string list"

type_synonym cli_host = "cli_step list \<Rightarrow> cli_step \<Rightarrow> err option"

text \<open>
  The package variables: the flags, the configuration that the client was built from (None is the nil client), and
  the types that were added to the scheme.
\<close>

record Cli =
  cfgFile :: string
  kubeconfig :: string
  K8sClient :: "string option"
  knownTypes :: "string list"

text \<open>How an operation goes on: with the variables, or with the end of the process by \<^verbatim>\<open>cobra.CheckErr\<close> or a panic.\<close>

datatype cli_end = CheckErr err | CliPanic string

type_synonym 'a cli = "cli_step list \<times> (cli_end + 'a)"

definition stepCli :: "cli_host \<Rightarrow> cli_step \<Rightarrow> (err \<Rightarrow> err) \<Rightarrow> cli_step list \<Rightarrow> (cli_step list \<Rightarrow> 'a cli) \<Rightarrow> 'a cli" where
  "stepCli h x wrap past k = (case h past x of Some e \<Rightarrow> (past @ [x], Inl (CheckErr (wrap e))) | None \<Rightarrow> k (past @ [x]))"

section \<open>The client\<close>

definition vdoTypes :: "string list" where
  "vdoTypes = [''VsphereCloudConfig'', ''VsphereCloudConfigList'', ''VDOConfig'', ''VDOConfigList'']"

definition addKnownTypes :: "Cli \<Rightarrow> Cli" where
  "addKnownTypes c = c\<lparr>knownTypes := knownTypes c @ vdoTypes\<rparr>"

definition clientFailure :: "err \<Rightarrow> err" where
  "clientFailure e = Msg ''Failed to generate client from provided kubeconfig''"

definition generateK8sClient :: "cli_host \<Rightarrow> Cli \<Rightarrow> cli_step list \<Rightarrow> Cli cli" where
  "generateK8sClient h c past =
     stepCli h (BuildConfigFromFlags (kubeconfig c)) clientFailure past
       (\<lambda>past1. stepCli h (NewClient (kubeconfig c)) clientFailure past1
         (\<lambda>past2. stepCli h (AddToScheme vdoTypes) (\<lambda>e. e) past2
           (\<lambda>past3. (past3, Inr (addKnownTypes (c\<lparr>K8sClient := Some (kubeconfig c)\<rparr>))))))"

text \<open>
  \<^verbatim>\<open>initConfig\<close>. An error of reading the configuration file is ignored. \<^verbatim>\<open>os.Args[1]\<close> panics when there is no
  argument.
\<close>

definition noCluster :: err where
  "noCluster = Msg (''could not detect a target kubernetes cluster. '' @
     ''Either use --kubeconfig flag or set KUBECONFIG environment variable'')"

definition chooseCluster :: "cli_host \<Rightarrow> (string \<Rightarrow> string) \<Rightarrow> string list \<Rightarrow> Cli \<Rightarrow> cli_step list \<Rightarrow> Cli cli" where
  "chooseCluster h env args c past =
     (if length args < 2 then (past, Inl (CliPanic ''index out of range''))
      else if args ! 1 = ''help'' then (past, Inr c)
      else (let c1 = (if kubeconfig c = [] then c\<lparr>kubeconfig := env ''KUBECONFIG''\<rparr> else c) in
        if kubeconfig c1 = [] then (past, Inl (CheckErr noCluster)) else generateK8sClient h c1 past))"

definition initConfig :: "cli_host \<Rightarrow> (string \<Rightarrow> string) \<Rightarrow> string list \<Rightarrow> Cli \<Rightarrow> cli_step list \<Rightarrow> Cli cli" where
  "initConfig h env args c past =
     (if cfgFile c \<noteq> [] then chooseCluster h env args c (past @ [ReadInConfig (cfgFile c)])
      else stepCli h UserHomeDir (\<lambda>e. e) past
        (\<lambda>past1. chooseCluster h env args c (past1 @ [ReadInConfig ''.vdoctl''])))"

section \<open>The command\<close>

text \<open>
  What cobra makes of the arguments: an error; the text of the help; or a command with the values of the
  persistent flags. It runs the functions of \<^verbatim>\<open>OnInitialize\<close> before the command.
\<close>

datatype 'v request = BadCommand err | ShowHelp | RunCommand string string "'v world \<Rightarrow> unit M"

datatype cli_exit = CliExit nat | CliCrash string

text \<open>The end of a command: it returns, exits by \<^verbatim>\<open>cobra.CheckErr\<close>, or panics.\<close>

definition exitOf :: "unit outcome \<Rightarrow> cli_exit" where
  "exitOf r = (case r of Ok u \<Rightarrow> CliExit 0 | Err e \<Rightarrow> CliExit 1 | Panic p \<Rightarrow> CliCrash p)"

definition execute :: "cli_host \<Rightarrow> 'v request \<Rightarrow> string list \<Rightarrow> 'v world \<Rightarrow> St \<Rightarrow> cli_step list \<times> cli_exit \<times> St" where
  "execute h q args w s =
     (case q of
        BadCommand e \<Rightarrow> ([], CliExit 1, s)
      | ShowHelp \<Rightarrow> ([], CliExit 0, s)
      | RunCommand config kube run \<Rightarrow>
          (case initConfig h (environ s) args \<lparr>cfgFile = config, kubeconfig = kube, K8sClient = None, knownTypes = []\<rparr> [] of
             (past, Inl (CheckErr e)) \<Rightarrow> (past, CliExit 1, s)
           | (past, Inl (CliPanic p)) \<Rightarrow> (past, CliCrash p, s)
           | (past, Inr c) \<Rightarrow> (case run w s of (r, t) \<Rightarrow> (past, exitOf r, t))))"

definition generateMarkdownDoc :: "cli_host \<Rightarrow> string \<Rightarrow> cli_step list \<times> cli_exit" where
  "generateMarkdownDoc h docPath =
     ([GenMarkdownTree docPath], case h [] (GenMarkdownTree docPath) of Some e \<Rightarrow> CliExit 1 | None \<Rightarrow> CliExit 0)"

definition vdoctl_main ::
  "cli_host \<Rightarrow> (string list \<Rightarrow> 'v request) \<Rightarrow> string list \<Rightarrow> 'v world \<Rightarrow> St \<Rightarrow> cli_step list \<times> cli_exit \<times> St" where
  "vdoctl_main h cobra args w s =
     (if 1 < length args \<and> args ! 1 = ''generate-doc'' then
        (if length args < 3 then ([], CliCrash ''index out of range'', s)
         else (case generateMarkdownDoc h (args ! 2) of (past, x) \<Rightarrow> (past, x, s)))
      else execute h (cobra (drop 1 args)) args w s)"

section \<open>Nothing without a cluster\<close>

lemma stepCli_Inr: "stepCli h x f past k = (all, Inr c) \<longleftrightarrow> h past x = None \<and> k (past @ [x]) = (all, Inr c)"
  by (simp add: stepCli_def split: option.split)

lemma generate_Inr:
  "generateK8sClient h c past = (all, Inr c') \<longleftrightarrow>
   all = past @ [BuildConfigFromFlags (kubeconfig c), NewClient (kubeconfig c), AddToScheme vdoTypes] \<and>
   c' = addKnownTypes (c\<lparr>K8sClient := Some (kubeconfig c)\<rparr>) \<and>
   h past (BuildConfigFromFlags (kubeconfig c)) = None \<and>
   h (past @ [BuildConfigFromFlags (kubeconfig c)]) (NewClient (kubeconfig c)) = None \<and>
   h (past @ [BuildConfigFromFlags (kubeconfig c), NewClient (kubeconfig c)]) (AddToScheme vdoTypes) = None"
  by (auto simp: generateK8sClient_def stepCli_Inr)

lemma choose_Inr:
  assumes "chooseCluster h env args c past = (all, Inr c')" and "args ! 1 \<noteq> ''help''"
  shows "let k = (if kubeconfig c = [] then env ''KUBECONFIG'' else kubeconfig c) in k \<noteq> [] \<and> K8sClient c' = Some k \<and>
    knownTypes c' = knownTypes c @ vdoTypes \<and>
    all = past @ [BuildConfigFromFlags k, NewClient k, AddToScheme vdoTypes] \<and>
    h past (BuildConfigFromFlags k) = None \<and> h (past @ [BuildConfigFromFlags k]) (NewClient k) = None"
  using assms
  by (auto simp: chooseCluster_def Let_def generate_Inr addKnownTypes_def split: if_splits)

lemma initConfig_Inr:
  assumes "initConfig h env args c [] = (all, Inr c')" and "args ! 1 \<noteq> ''help''"
  shows "let k = (if kubeconfig c = [] then env ''KUBECONFIG'' else kubeconfig c) in k \<noteq> [] \<and> K8sClient c' = Some k \<and>
    knownTypes c' = knownTypes c @ vdoTypes \<and>
    (\<exists>past. all = past @ [BuildConfigFromFlags k, NewClient k, AddToScheme vdoTypes] \<and>
      h past (BuildConfigFromFlags k) = None \<and> h (past @ [BuildConfigFromFlags k]) (NewClient k) = None)"
proof -
  from assms(1) obtain past where "chooseCluster h env args c past = (all, Inr c')"
    by (auto simp: initConfig_def stepCli_Inr split: if_splits)
  from choose_Inr [OF this assms(2)] show ?thesis unfolding Let_def by blast
qed

text \<open>
  C31. Whatever the command line and the command: a run of \<^verbatim>\<open>vdoctl\<close> that changes anything or makes a request was asked
  for a command by cobra, and - unless its first argument is \<^verbatim>\<open>help\<close> - has a client for the cluster of
  the flag, or of the environment variable when the flag is empty; the configuration and the client of this
  cluster were accepted before the command started, and the command decides about the exit code.
\<close>

theorem vdoctl_needs_cluster:
  assumes "vdoctl_main h cobra args w s = (past, x, t)" and "t \<noteq> s" and "args ! 1 \<noteq> ''help''"
  shows "\<exists>config kube run r. cobra (drop 1 args) = RunCommand config kube run \<and> run w s = (r, t) \<and> x = exitOf r \<and>
    (let k = (if kube = [] then environ s ''KUBECONFIG'' else kube) in k \<noteq> [] \<and>
      (\<exists>pre. past = pre @ [BuildConfigFromFlags k, NewClient k, AddToScheme vdoTypes] \<and>
        h pre (BuildConfigFromFlags k) = None \<and> h (pre @ [BuildConfigFromFlags k]) (NewClient k) = None))"
proof -
  from assms(1,2) have ex: "execute h (cobra (drop 1 args)) args w s = (past, x, t)"
    by (auto simp: vdoctl_main_def split: if_splits prod.splits)
  with assms(2) obtain config kube run where q: "cobra (drop 1 args) = RunCommand config kube run"
    by (cases "cobra (drop 1 args)") (auto simp: execute_def)
  let ?c = "\<lparr>cfgFile = config, kubeconfig = kube, K8sClient = None, knownTypes = []\<rparr>"
  obtain p y where init: "initConfig h (environ s) args ?c [] = (p, y)" by force
  with ex q assms(2) obtain c' r where y: "y = Inr c'" and run: "run w s = (r, t)" "x = exitOf r" "past = p"
    by (cases y) (auto simp: execute_def split: cli_end.splits prod.splits)
  from initConfig_Inr [OF init [unfolded y] assms(3)] q run show ?thesis
    by (auto simp: Let_def)
qed

theorem vdoctl_needs_cluster_witness:
  "\<exists>past x t pre. vdoctl_main (\<lambda>_ _. None) (\<lambda>_. RunCommand [] ''/tmp/kc'' status) [''vdoctl'', ''status'', ''--kubeconfig=/tmp/kc'']
      down_world init_St = (past, x, t) \<and> t \<noteq> init_St \<and>
     past = pre @ [BuildConfigFromFlags ''/tmp/kc'', NewClient ''/tmp/kc'', AddToScheme vdoTypes]"
proof -
  let ?m = "vdoctl_main (\<lambda>_ _. None) (\<lambda>_. RunCommand [] ''/tmp/kc'' status) [''vdoctl'', ''status'', ''--kubeconfig=/tmp/kc''] down_world init_St"
  obtain past x t where m: "?m = (past, x, t)" by (metis prod_cases3)
  have "trace (snd (status down_world init_St)) = [ListDeployments]"
    by (simp add: status_def IsVDODeployed_def monad_defs sample_refusal_def)
  then have "trace t = [ListDeployments]"
    using m by (auto simp: vdoctl_main_def execute_def initConfig_def stepCli_def chooseCluster_def generateK8sClient_def
        split: prod.splits)
  then have ne: "t \<noteq> init_St" by auto
  have "[''vdoctl'', ''status'', ''--kubeconfig=/tmp/kc''] ! 1 \<noteq> ''help''" by simp
  from vdoctl_needs_cluster [OF m ne this] obtain pre where
    "past = pre @ [BuildConfigFromFlags ''/tmp/kc'', NewClient ''/tmp/kc'', AddToScheme vdoTypes]"
    by (auto simp: Let_def split: if_splits)
  with m ne show ?thesis by blast
qed

text \<open>The documentation is generated into the directory that follows; without one the process crashes.\<close>

lemma generate_doc_crashes: "vdoctl_main h cobra [name, ''generate-doc''] w s = ([], CliCrash ''index out of range'', s)"
  by (simp add: vdoctl_main_def)

end
