(* ===== verification/Ctl_Drivers.thy ===== *)
theory Ctl_Drivers
  imports Ctl_Lifecycle
begin

text \<open>
  The dialogue of \<^verbatim>\<open>vdoctl configure drivers\<close> (\<^verbatim>\<open>vdoctl/cmd/drivers.go\<close>).

  The loops for CPI are nested and labelled in the code; \<^verbatim>\<open>continue label\<close> goes on at the top of the
  loop with the label and falls into the loops inside it. Here one round runs from a stage to
  the attempt to open a session, and the stage of the next round is the label.
\<close>

record credentials =
  username :: string
  password :: string
  vcIp :: string
  insecure :: bool
  datacenters :: "string slice"
  vSANDataStoresUrl :: "string slice"
  vsphereCloudConfig :: string
  topology :: TopologyInfo
  netPermissions :: "NetPermission list"
  vsphereCloudConfigs :: "string list"
  thumbprint :: string
  kubeletPath :: string

definition noCredentials :: credentials where
  "noCredentials = \<lparr>username = [], password = [], vcIp = [], insecure = False, datacenters = None,
     vSANDataStoresUrl = None, vsphereCloudConfig = [], topology = \<lparr>Zone = [], Region = []\<rparr>, netPermissions = [],
     vsphereCloudConfigs = [], thumbprint = [], kubeletPath = []\<rparr>"

definition labels :: credentials where
  "labels = noCredentials\<lparr>username := ''Username'', password := ''Password'', vcIp := ''VC IP/ FQDN'',
     topology := \<lparr>Zone = ''Zones'', Region = ''Regions''\<rparr>, thumbprint := ''SSL Thumbprint''\<rparr>"

definition KubeSystemNamespace :: string where
  "KubeSystemNamespace = ''kube-system''"

definition vdoConfigName :: string where
  "vdoConfigName = ''vdo-config''"

definition secretType :: string where
  "secretType = ''kubernetes.io/basic-auth''"

definition DefaultDistribution :: string where
  "DefaultDistribution = ''OpenShift''"

definition yes :: "string \<Rightarrow> bool" where
  "yes answer = EqualFold answer ''Y''"

section \<open>Questions\<close>

definition fetchVCIP :: "'v world \<Rightarrow> credentials \<Rightarrow> credentials M" where
  "fetchVCIP w cred =
     bindM (PromptGetInput w (vcIp labels) IsIPorFQDN)
       (\<lambda>ip. bindM (PromptGetInput w ''Do you want to establish a secure connection? (Y/N)'' IsString)
         (\<lambda>res. ret (cred\<lparr>vcIp := ip, insecure := \<not> yes res\<rparr>)))"

definition fetchThumbprint :: "'v world \<Rightarrow> credentials \<Rightarrow> credentials M" where
  "fetchThumbprint w cred =
     bindM (PromptGetInput w (thumbprint labels) IsString) (\<lambda>thumb. ret (cred\<lparr>thumbprint := thumb\<rparr>))"

definition fetchCredentials :: "'v world \<Rightarrow> credentials \<Rightarrow> credentials M" where
  "fetchCredentials w cred =
     bindM (PromptGetInput w (username labels) IsString)
       (\<lambda>user. bindM (PromptGetInput w (password labels) IsPwd)
         (\<lambda>pwd. ret (cred\<lparr>username := user, password := pwd\<rparr>)))"

definition fetchDatacenters :: "'v world \<Rightarrow> credentials \<Rightarrow> credentials M" where
  "fetchDatacenters w cred =
     bindM (PromptGetInput w ''Datacenter(s)'' IsString)
       (\<lambda>dc. ret (cred\<lparr>datacenters := Some (SplitAfter dc CHR '','')\<rparr>))"

definition fetchNetPermissions :: "nat \<Rightarrow> 'v world \<Rightarrow> NetPermission M" where
  "fetchNetPermissions n w =
     bindM (PromptGetInput w ''File Volumes IP Subnet'' IsString)
       (\<lambda>ip. bindM (PromptGetSelect n w [''READ_ONLY'', ''READ_WRITE''] ''Permissions type for File Volumes'')
         (\<lambda>perm. bindM (PromptGetInput w ''Allow Root Access? (Y/N)'' IsString)
           (\<lambda>rs. ret \<lparr>Ip = ip, Permission = perm, RootSquash = yes rs\<rparr>)))"

section \<open>Errors of a session\<close>

text \<open>
  The patterns of \<^verbatim>\<open>checkPattern\<close>: a text, or two texts with any characters but a newline between.
\<close>

datatype pattern = Literal string | Gap string string

fun followedBy :: "string \<Rightarrow> string \<Rightarrow> string \<Rightarrow> bool" where
  "followedBy p q [] = False"
| "followedBy p q (c # cs) =
     (HasPrefix (c # cs) p \<and> Contains (takeWhile (\<lambda>d. d \<noteq> CHR 10) (drop (length p) (c # cs))) q \<or> followedBy p q cs)"

definition checkPattern :: "pattern \<Rightarrow> err \<Rightarrow> bool" where
  "checkPattern p e = (case p of Literal l \<Rightarrow> Contains (Error e) l | Gap l r \<Rightarrow> followedBy l r (Error e))"

definition noDatacenter :: pattern where
  "noDatacenter = Gap ''datacenter'' ''not found''"

definition wrongPassword :: pattern where
  "wrongPassword = Literal ''incorrect user name or password''"

definition wrongThumbprint :: pattern where
  "wrongThumbprint = Literal ''thumbprint does not match''"

definition invalidMsg :: "credentials \<Rightarrow> err \<Rightarrow> string" where
  "invalidMsg cred e = ''Configuration of VC '' @ vcIp cred @ '' is invalid. Error: '' @ Error e @ newline"

definition openSession :: "'v world \<Rightarrow> credentials \<Rightarrow> Session M" where
  "openSession w cred =
     GetOrCreate w (vcIp cred) (datacenters cred) (username cred) (password cred) (thumbprint cred)"

section \<open>What the dialogue stores\<close>

definition createSecret :: "'v world \<Rightarrow> credentials \<Rightarrow> string \<Rightarrow> Secret M" where
  "createSecret w cred drv =
     (let secret = \<lparr>SecretKey = \<lparr>NnNamespace = KubeSystemNamespace, NnName = vcIp cred @ ''-creds-'' @ drv\<rparr>,
                    SecretType = secretType,
                    SecretData = Some [(''username'', username cred), (''password'', password cred)]\<rparr> in
      bindM (tryM (ask (CreateSecretReq secret) (\<lambda>t. w_createSecret w t secret)))
        (\<lambda>r. case r of
           Inl e \<Rightarrow> if IsAlreadyExists e
                    then thenM (ask (UpdateSecretReq secret) (\<lambda>t. w_updateSecret w t secret)) (ret secret)
                    else throw e
         | Inr _ \<Rightarrow> ret secret))"

definition createVsphereCloudConfig :: "'v world \<Rightarrow> credentials \<Rightarrow> string \<Rightarrow> string \<Rightarrow> VsphereCloudConfig M" where
  "createVsphereCloudConfig w cred secretName drv =
     bindM (getS VdoCurrentNamespace)
       (\<lambda>ns. let key = \<lparr>NnNamespace = ns, NnName = vcIp cred @ ''-'' @ drv\<rparr>;
                 vcc = \<lparr>VccName = NnName key, VccNamespace = ns,
                   VccSpec = \<lparr>VcIP = vcIp cred, Insecure = insecure cred, Credentials = secretName,
                              Thumbprint = thumbprint cred, DataCenters = datacenters cred\<rparr>,
                   VccStatus = \<lparr>ConfigState = ConfigUnset, Message = []\<rparr>\<rparr> in
          bindM (tryM (ask (CreateVCC vcc) (\<lambda>t. w_createVCC w t vcc)))
            (\<lambda>r. case r of
               Inl e \<Rightarrow> if IsAlreadyExists e
                 then bindM (ask (GetVCC key) (\<lambda>t. w_getVCC w t key))
                   (\<lambda>getObj. let getObj = getObj\<lparr>VccSpec := VccSpec vcc\<rparr> in
                      thenM (ask (UpdateVCC getObj) (\<lambda>t. w_updateVCC w t getObj)) (ret getObj))
                 else throw e
             | Inr _ \<Rightarrow> ret vcc))"

definition vdoConfigOf :: "string \<Rightarrow> string \<Rightarrow> credentials \<Rightarrow> credentials \<Rightarrow> VDOConfig" where
  "vdoConfigOf name ns cpi csi =
     \<lparr>VdoName = name, VdoNamespace = ns,
      VdoSpec = \<lparr>CloudProvider =
                   (if vsphereCloudConfigs cpi \<noteq> []
                    then \<lparr>VsphereCloudConfigs = vsphereCloudConfigs cpi, Topology = topology cpi\<rparr>
                    else \<lparr>VsphereCloudConfigs = [], Topology = \<lparr>Zone = [], Region = []\<rparr>\<rparr>),
                 StorageProvider = \<lparr>SpVsphereCloudConfig = vsphereCloudConfig csi, ClusterDistribution = DefaultDistribution,
                   FileVolumes = \<lparr>VSanDataStoreUrl = vSANDataStoresUrl csi, NetPermissions = netPermissions csi\<rparr>,
                   CustomKubeletPath = kubeletPath csi\<rparr>\<rparr>,
      VdoStatus = \<lparr>StCPI = \<lparr>CpiPhase = PhaseUnset, CpiStatusMsg = [], CpiNodeStatus = None\<rparr>,
                   StCSI = \<lparr>CsiPhase = PhaseUnset, CsiStatusMsg = []\<rparr>\<rparr>\<rparr>"

text \<open>\<^verbatim>\<open>randstr.Hex(4)\<close> is the world's.\<close>

definition createVDOConfig :: "'v world \<Rightarrow> credentials \<Rightarrow> credentials \<Rightarrow> unit M" where
  "createVDOConfig w cpi csi =
     bindM (getS (\<lambda>s. vdoConfigOf (vdoConfigName @ w_randHex w (trace s) 4) (VdoCurrentNamespace s) cpi csi))
       (\<lambda>vdoConfig. bindM (tryM (ask (CreateVDO vdoConfig) (\<lambda>t. w_createVDO w t vdoConfig)))
         (\<lambda>r. case r of Inl e \<Rightarrow> if IsAlreadyExists e then ret () else throw e | Inr _ \<Rightarrow> ret ()))"

section \<open>Loops\<close>

fun loopM :: "nat \<Rightarrow> ('a \<Rightarrow> ('a + 'b) M) \<Rightarrow> 'a \<Rightarrow> 'b M" where
  "loopM 0 f x = panic outOfFuel"
| "loopM (Suc n) f x = bindM (f x) (\<lambda>r. case r of Inl y \<Rightarrow> loopM n f y | Inr z \<Rightarrow> ret z)"

text \<open>The labels: \<^verbatim>\<open>multivcloop\<close>, \<^verbatim>\<open>thumbprintloop\<close>, \<^verbatim>\<open>cpiCredsLoop\<close>/\<^verbatim>\<open>csiCredsLoop\<close>, \<^verbatim>\<open>dcloop\<close>/\<^verbatim>\<open>csidcloop\<close>.\<close>

datatype stage = MultiVc | Thumb | Creds | Dc

definition retryStage :: "err \<Rightarrow> stage" where
  "retryStage e =
     (if checkPattern noDatacenter e then Dc
      else if checkPattern wrongPassword e then Creds
      else if checkPattern wrongThumbprint e then Thumb
      else MultiVc)"

record CpiLoop =
  cpiStage :: stage
  cpiCred :: credentials
  thumbprintMap :: "(string, string) gomap"
  vsphereCloudConfigList :: "string list"
  vcIPList :: "string list"
  isCPIMultiVC :: bool

definition startCPI :: CpiLoop where
  "startCPI = \<lparr>cpiStage = MultiVc, cpiCred = noCredentials, thumbprintMap = make_map,
     vsphereCloudConfigList = [], vcIPList = [], isCPIMultiVC = False\<rparr>"

definition askThumbprint :: "'v world \<Rightarrow> CpiLoop \<Rightarrow> CpiLoop M" where
  "askThumbprint w l =
     bindM (if \<not> insecure (cpiCred l)
            then bindM (fetchThumbprint w (cpiCred l))
              (\<lambda>cred. ret (l\<lparr>cpiCred := cred, thumbprintMap := mput (thumbprintMap l) (vcIp cred) (thumbprint cred)\<rparr>))
            else ret l)
       (\<lambda>l. thenM (say (''Please provide the credentials for configuring CloudProvider'' @ newline)) (ret l))"

text \<open>A session is open: store the vCenter and ask for another.\<close>

definition nextVc :: "CpiLoop \<Rightarrow> bool \<Rightarrow> CpiLoop + CpiLoop" where
  "nextVc l another =
     (if another then Inl (l\<lparr>isCPIMultiVC := True, cpiCred := noCredentials, cpiStage := MultiVc\<rparr>)
      else Inr (l\<lparr>cpiCred := (cpiCred l)\<lparr>vsphereCloudConfigs := vsphereCloudConfigList l\<rparr>\<rparr>))"

definition storeCPI :: "'v world \<Rightarrow> CpiLoop \<Rightarrow> (CpiLoop + CpiLoop) M" where
  "storeCPI w l =
     bindM (createSecret w (cpiCred l) ''cpi'')
       (\<lambda>secret. bindM (createVsphereCloudConfig w (cpiCred l) (NnName (SecretKey secret)) ''cpi'')
         (\<lambda>vcc. let l = l\<lparr>vcIPList := vcIPList l @ [vcIp (cpiCred l)],
                         vsphereCloudConfigList := vsphereCloudConfigList l @ [VccName vcc]\<rparr> in
            bindM (PromptGetInput w ''Do you want to configure another vcenter for CloudProvider? (Y/N)'' IsString)
              (\<lambda>multiVC. ret (nextVc l (yes multiVC)))))"

definition cpiRound :: "'v world \<Rightarrow> CpiLoop \<Rightarrow> (CpiLoop + CpiLoop) M" where
  "cpiRound w l =
     bindM (if cpiStage l = MultiVc then bindM (fetchVCIP w (cpiCred l)) (\<lambda>c. ret (l\<lparr>cpiCred := c\<rparr>)) else ret l)
       (\<lambda>l. bindM (if cpiStage l = MultiVc \<or> cpiStage l = Thumb then askThumbprint w l else ret l)
         (\<lambda>l. bindM (if cpiStage l \<noteq> Dc then bindM (fetchCredentials w (cpiCred l)) (\<lambda>c. ret (l\<lparr>cpiCred := c\<rparr>)) else ret l)
           (\<lambda>l. bindM (fetchDatacenters w (cpiCred l))
             (\<lambda>c. let l = l\<lparr>cpiCred := c\<rparr> in
                bindM (tryM (openSession w c))
                  (\<lambda>r. case r of
                     Inl e \<Rightarrow> thenM (say (invalidMsg c e)) (ret (Inl (l\<lparr>cpiStage := retryStage e\<rparr>)))
                   | Inr _ \<Rightarrow> storeCPI w l)))))"

definition configureCPI :: "nat \<Rightarrow> 'v world \<Rightarrow> CpiLoop M" where
  "configureCPI n w =
     thenM (say (''Please provide the vcenter IP/FQDN for configuring CloudProvider '' @ newline))
       (bindM (loopM n (cpiRound w) startCPI)
         (\<lambda>l. bindM (PromptGetInput w ''Do you want to configure zones/regions for CloudProvider? (Y/N)'' IsString)
           (\<lambda>answer. bindM
              (if yes answer
               then bindM (PromptGetInput w (Zone (topology labels)) IsString)
                 (\<lambda>zone. bindM (PromptGetInput w (Region (topology labels)) IsString)
                   (\<lambda>region. ret (l\<lparr>cpiCred := (cpiCred l)\<lparr>topology := \<lparr>Zone = zone, Region = region\<rparr>\<rparr>\<rparr>)))
               else ret l)
              (\<lambda>l. thenM (say (''You have now completed configuration of CloudProvider. '' @
                              ''We will now proceed to configure StorageProvider.'' @ newline)) (ret l)))))"

section \<open>The storage provider\<close>

definition chooseStorageVC :: "nat \<Rightarrow> 'v world \<Rightarrow> bool \<Rightarrow> CpiLoop \<Rightarrow> credentials M" where
  "chooseStorageVC n w isCPIRequired l =
     (if isCPIMultiVC l
      then bindM (PromptGetSelect n w (vcIPList l) ''Please select vcenter for configuring StorageProvider'')
        (\<lambda>ip. ret (case mlookup (thumbprintMap l) ip of
            Some t \<Rightarrow> noCredentials\<lparr>vcIp := ip, thumbprint := t, insecure := False\<rparr>
          | None \<Rightarrow> noCredentials\<lparr>vcIp := ip, insecure := True\<rparr>))
      else if isCPIRequired
      then ret (noCredentials\<lparr>vcIp := vcIp (cpiCred l), insecure := insecure (cpiCred l), thumbprint := thumbprint (cpiCred l)\<rparr>)
      else thenM (say (''Please provide the vcenter IP/FQDN for configuring StorageProvider '' @ newline))
        (bindM (fetchVCIP w noCredentials)
          (\<lambda>csi. if \<not> insecure csi then fetchThumbprint w csi else ret csi)))"

text \<open>One round of the two loops; the stage is \<open>Creds\<close> or \<open>Dc\<close>.\<close>

definition csiRetry :: "'v world \<Rightarrow> credentials \<Rightarrow> err \<Rightarrow> (stage \<times> credentials) M" where
  "csiRetry w csi e =
     thenM (say (invalidMsg csi e))
       (if checkPattern noDatacenter e then ret (Dc, csi)
        else if checkPattern wrongPassword e then ret (Creds, csi)
        else if checkPattern wrongThumbprint e
        then bindM (fetchThumbprint w csi) (\<lambda>csi. ret (Creds, csi))
        else bindM (fetchVCIP w csi)
          (\<lambda>csi. bindM (if \<not> insecure csi then fetchThumbprint w csi else ret csi) (\<lambda>csi. ret (Creds, csi))))"

definition csiRound :: "'v world \<Rightarrow> stage \<times> credentials \<Rightarrow> (stage \<times> credentials + credentials) M" where
  "csiRound w x =
     (case x of (st, csi) \<Rightarrow>
      bindM (if st \<noteq> Dc then fetchCredentials w csi else ret csi)
        (\<lambda>csi. bindM (fetchDatacenters w csi)
          (\<lambda>csi. bindM (tryM (openSession w csi))
            (\<lambda>r. case r of
               Inl e \<Rightarrow> bindM (csiRetry w csi e) (\<lambda>y. ret (Inl y))
             | Inr _ \<Rightarrow> ret (Inr csi)))))"

definition storeCSI :: "'v world \<Rightarrow> credentials \<Rightarrow> credentials M" where
  "storeCSI w csi =
     bindM (createSecret w csi ''csi'')
       (\<lambda>secret. bindM (createVsphereCloudConfig w csi (NnName (SecretKey secret)) ''csi'')
         (\<lambda>vcc. ret (csi\<lparr>vsphereCloudConfig := VccName vcc\<rparr>)))"

definition permissionRound :: "nat \<Rightarrow> 'v world \<Rightarrow> credentials \<Rightarrow> (credentials + credentials) M" where
  "permissionRound n w csi =
     bindM (fetchNetPermissions n w)
       (\<lambda>netPermission. let csi = csi\<lparr>netPermissions := netPermissions csi @ [netPermission]\<rparr> in
          bindM (PromptGetInput w ''Do you wish to configure another Net permissions (Y/N)'' IsString)
            (\<lambda>netPerms. ret (if yes netPerms then Inl csi else Inr csi)))"

definition askFileVolumes :: "nat \<Rightarrow> 'v world \<Rightarrow> credentials \<Rightarrow> credentials M" where
  "askFileVolumes n w csi =
     bindM (PromptGetInput w ''Do you wish to configure vSAN DataStores for File Volumes (Y/N)'' IsString)
       (\<lambda>vsanDSurl. bindM
         (if yes vsanDSurl
          then bindM (PromptGetInput w ''vSAN DataStore Url(s)'' IsString)
            (\<lambda>res. ret (csi\<lparr>vSANDataStoresUrl := Some (SplitAfter res CHR '','')\<rparr>))
          else ret csi)
         (\<lambda>csi. bindM (PromptGetInput w ''Do you wish to configure Net permissions for File Volumes (Y/N)'' IsString)
           (\<lambda>netPerms. if yes netPerms then loopM n (permissionRound n w) csi else ret csi)))"

definition askOptions :: "nat \<Rightarrow> 'v world \<Rightarrow> credentials \<Rightarrow> credentials M" where
  "askOptions n w csi =
     bindM (PromptGetInput w ''Do you wish to provide custom kubelet Path? (Y/N)'' IsString)
       (\<lambda>answer. bindM
         (if yes answer
          then bindM (PromptGetInput w ''Kubelet Path'' IsString) (\<lambda>path. ret (csi\<lparr>kubeletPath := path\<rparr>))
          else ret csi)
         (\<lambda>csi. bindM (PromptGetInput w ''Do you wish to configure File Volumes? (Y/N)'' IsString)
           (\<lambda>advConfig. if yes advConfig then askFileVolumes n w csi else ret csi)))"

section \<open>The command\<close>

definition defaultMatrixQuestion :: string where
  "defaultMatrixQuestion = ''VDO is configured with default compatibility matrix. you can update compatibility-matrix using '' @
     [CHR 39] @ ''vdoctl update compatibility-matrix'' @ [CHR 39] @
     ''. Do you want to use the defaults for compatibility matrix (Y/N) ? ''"

text \<open>The end of the process by \<^verbatim>\<open>os.Exit(0)\<close> and by \<^verbatim>\<open>return\<close> is the answer \<open>False\<close>.\<close>

definition mayConfigure :: "'v world \<Rightarrow> bool M" where
  "mayConfigure w =
     bindM (tryM (IsVDODeployed w))
       (\<lambda>r. case r of
          Inl e \<Rightarrow> if IsNotFound e then thenM (say (notDeployedMsg @ newline)) (ret False) else throw e
        | Inr _ \<Rightarrow> bindM (getS matrixKey)
            (\<lambda>configKey. bindM (tryM (ask (GetConfigMap configKey) (\<lambda>t. w_getConfigMap w t configKey)))
              (\<lambda>cm. let configFlag = (case cm of Inl e \<Rightarrow> [] | Inr cm \<Rightarrow> mindex (CmData cm) ''configured-by'') in
                 bindM (if EqualFold configFlag UserConfig then ret True
                        else bindM (PromptGetInput w defaultMatrixQuestion IsString) (\<lambda>answer. ret (yes answer)))
                   (\<lambda>goOn. if \<not> goOn then ret False
                      else bindM (ask ListVDOConfigs (w_listVDO w))
                        (\<lambda>vdos. if vdos \<noteq> []
                           then thenM (say (''VDO is configured. We currently do not support editing the configuration'' @ newline))
                                  (ret False)
                           else ret True)))))"

definition dialogue :: "nat \<Rightarrow> 'v world \<Rightarrow> (credentials \<times> credentials) M" where
  "dialogue n w =
     bindM (PromptGetInput w ''Do you want to configure CloudProvider? (Y/N)'' IsString)
       (\<lambda>isCPIRequired. bindM (if yes isCPIRequired then configureCPI n w else ret startCPI)
         (\<lambda>l. bindM (chooseStorageVC n w (yes isCPIRequired) l)
           (\<lambda>csi. thenM (say (''Please provide the credentials for configuring StorageProvider'' @ newline))
             (bindM (loopM n (csiRound w) (Creds, csi))
               (\<lambda>csi. bindM (storeCSI w csi)
                 (\<lambda>csi. bindM (askOptions n w csi) (\<lambda>csi. ret (cpiCred l, csi))))))))"

definition thanksMsg :: string where
  "thanksMsg = ''Thanks for configuring VDO. The drivers will now be installed.'' @ newline @
     ''You can check the status for drivers using `vdoctl status`'' @ newline"

definition drivers :: "nat \<Rightarrow> 'v world \<Rightarrow> unit M" where
  "drivers n w =
     bindM (mayConfigure w)
       (\<lambda>goOn. if \<not> goOn then ret ()
          else bindM (dialogue n w)
            (\<lambda>(cpi, csi). thenM (createVDOConfig w cpi csi) (say thanksMsg)))"

end
