(* ===== verification/Ctl_Dialogue.thy ===== *)
theory Ctl_Dialogue
  imports Ctl_Drivers
begin

text \<open>
  Properties of \<^verbatim>\<open>vdoctl configure drivers\<close>: the dialogue ends when the user is gone, and what it
  stores was checked.
\<close>

section \<open>The dialogue ends\<close>

text \<open>
  \<open>gone N w\<close>: after \<open>N\<close> requests every prompt fails (the terminal is closed) and no selection adds
  an item any more.
\<close>

definition gone :: "nat \<Rightarrow> 'v world \<Rightarrow> bool" where
  "gone N w \<longleftrightarrow> (\<forall>t. N \<le> length t \<longrightarrow>
     (\<forall>label flag. \<exists>e. w_input w t label flag = Inl e) \<and> (\<forall>items label. 0 \<le> fst (w_select w t items label)))"

definition grows :: "'a M \<Rightarrow> bool" where
  "grows m \<longleftrightarrow> (\<forall>s. length (trace s) \<le> length (trace (snd (m s))))"

text \<open>An answer was given: the run began before the user left, and made a request.\<close>

definition prompts :: "nat \<Rightarrow> 'a M \<Rightarrow> bool" where
  "prompts N m \<longleftrightarrow> (\<forall>s x t. m s = (Ok x, t) \<longrightarrow> length (trace s) < N \<and> length (trace s) < length (trace t))"

named_theorems grows_intro \<open>rules that prove that an operation keeps the trace or extends it\<close>

lemma growsD: "grows m \<Longrightarrow> m s = (r, t) \<Longrightarrow> length (trace s) \<le> length (trace t)"
  by (metis grows_def snd_conv)

lemma grows_emits: "keeps (emits Q) m \<Longrightarrow> grows m"
  unfolding grows_def keeps_def by (metis emitsE length_append le_add1)

lemma grows_pure [grows_intro]:
  "grows (ret x)" "grows (throw e)" "grows (panic p)" "grows (getS f)" "grows (ask c q)" "grows (liftO r)"
  by (simp_all add: grows_def ask_def)

lemma grows_bindM [grows_intro]: "grows m \<Longrightarrow> (\<And>x. grows (k x)) \<Longrightarrow> grows (bindM m k)"
  unfolding grows_def bindM_def
  by (auto split: prod.split outcome.split) (metis le_trans snd_conv)+

lemma grows_thenM [grows_intro]: "grows m \<Longrightarrow> grows k \<Longrightarrow> grows (thenM m k)"
  unfolding thenM_def by (rule grows_bindM)

lemma grows_tryM [grows_intro]: "grows m \<Longrightarrow> grows (tryM m)"
  by (simp add: grows_def snd_tryM)

lemma grows_onErr [grows_intro]: "grows m \<Longrightarrow> (\<And>e. grows (h e)) \<Longrightarrow> grows (onErr m h)"
  unfolding onErr_def by (intro grows_intro) (auto split: sum.split intro: grows_intro)

lemma grows_cases [grows_intro]:
  "(b \<Longrightarrow> grows m) \<Longrightarrow> (\<not> b \<Longrightarrow> grows k) \<Longrightarrow> grows (if b then m else k)"
  "(\<And>y. z = Inl y \<Longrightarrow> grows (f y)) \<Longrightarrow> (\<And>y. z = Inr y \<Longrightarrow> grows (g y)) \<Longrightarrow> grows (case z of Inl y \<Rightarrow> f y | Inr y \<Rightarrow> g y)"
  "(x = None \<Longrightarrow> grows m) \<Longrightarrow> (\<And>y. x = Some y \<Longrightarrow> grows (h y)) \<Longrightarrow> grows (case x of None \<Rightarrow> m | Some y \<Rightarrow> h y)"
  "(\<And>a c. q = (a, c) \<Longrightarrow> grows (i a c)) \<Longrightarrow> grows (case q of (a, c) \<Rightarrow> i a c)"
  "grows (j v) \<Longrightarrow> grows (Let v j)"
  by (auto split: sum.split option.split prod.split)

lemma prompts_left: "prompts N m \<Longrightarrow> (\<And>x. grows (k x)) \<Longrightarrow> prompts N (bindM m k)"
  unfolding prompts_def by (auto simp: bindM_Ok_iff dest: growsD) (meson growsD less_le_trans)

lemma prompts_right: "grows m \<Longrightarrow> (\<And>x. prompts N (k x)) \<Longrightarrow> prompts N (bindM m k)"
  unfolding prompts_def by (auto simp: bindM_Ok_iff) (meson growsD le_less_trans)+

lemma say_grows [grows_intro]: "grows (say x)"
  unfolding say_def by (intro grows_intro)

lemma input_grows [grows_intro]: "grows (PromptGetInput w label flag)"
  unfolding PromptGetInput_def by (intro grows_intro)

lemma selectLoop_grows: "grows (selectLoop n w items label)"
  by (induction n arbitrary: items) (auto intro!: grows_intro)

lemma select_grows [grows_intro]: "grows (PromptGetSelect n w items label)"
  unfolding PromptGetSelect_def by (intro grows_intro selectLoop_grows)

lemma input_prompts: "gone N w \<Longrightarrow> prompts N (PromptGetInput w label flag)"
  unfolding prompts_def gone_def PromptGetInput_def
  by (auto simp: runs) (metis Inl_Inr_False not_le)

lemma openSession_grows [grows_intro]: "grows (openSession w c)"
  unfolding openSession_def
  by (rule grows_emits [OF GetOrCreate_emits])

lemma fetch_grows [grows_intro]:
  "grows (fetchVCIP w c)" "grows (fetchThumbprint w c)" "grows (fetchCredentials w c)" "grows (fetchDatacenters w c)"
  "grows (fetchNetPermissions n w)"
  unfolding fetchVCIP_def fetchThumbprint_def fetchCredentials_def fetchDatacenters_def fetchNetPermissions_def
  by (intro grows_intro)+

lemma store_grows [grows_intro]:
  "grows (createSecret w c d)" "grows (createVsphereCloudConfig w c x d)" "grows (askThumbprint w l)" "grows (storeCPI w l)"
  "grows (storeCSI w c)"
  unfolding storeCPI_def storeCSI_def createSecret_def createVsphereCloudConfig_def askThumbprint_def Let_def
  by (intro grows_intro)+

lemma csiRetry_grows [grows_intro]: "grows (csiRetry w c e)"
  unfolding csiRetry_def by (intro grows_intro)

text \<open>Every round of a loop asks a question.\<close>

lemma datacenters_prompts: "gone N w \<Longrightarrow> prompts N (fetchDatacenters w c)"
  unfolding fetchDatacenters_def by (intro prompts_left input_prompts grows_intro)

lemma rounds_prompt:
  assumes "gone N w"
  shows "prompts N (cpiRound w l)" "prompts N (csiRound w x)" "prompts N (permissionRound n w csi)"
proof -
  show "prompts N (cpiRound w l)"
    unfolding cpiRound_def
    by (rule prompts_right [OF _ prompts_right [OF _ prompts_right [OF _ prompts_left [OF datacenters_prompts [OF assms]]]]];
        intro grows_intro)
  show "prompts N (csiRound w x)"
    unfolding csiRound_def case_prod_beta
    by (rule prompts_right [OF _ prompts_left [OF datacenters_prompts [OF assms]]]; intro grows_intro)
  show "prompts N (permissionRound n w csi)"
    unfolding permissionRound_def fetchNetPermissions_def bindM_assoc
    by (intro prompts_left input_prompts [OF assms] grows_intro)
qed

lemma loopM_no_panic:
  assumes "\<And>x. no_panic (f x)" "\<And>x. prompts N (f x)" "N < n"
  shows "no_panic (loopM n f x)"
proof -
  have "N - length (trace s) < n \<Longrightarrow> fst (loopM n f x s) \<noteq> Panic p" for s p
  proof (induction n arbitrary: x s)
    case (Suc n)
    obtain r t where run: "f x s = (r, t)" by force
    show ?case
    proof (cases r)
      case (Ok y)
      with run assms(2) have t: "length (trace s) < N" "length (trace s) < length (trace t)"
        by (auto simp: prompts_def)
      with Suc.prems have "N - length (trace t) < n" by linarith
      with Suc.IH run Ok show ?thesis by (cases y) (simp_all add: bindM_def)
    next
      case (Panic q)
      with run assms(1) [of x] show ?thesis using no_panicD by blast
    qed (use run in \<open>simp add: bindM_def\<close>)
  qed simp
  with assms(3) show ?thesis by (simp add: no_panic_def)
qed

lemma selectLoop_no_panic:
  assumes "gone N w" and "N < n"
  shows "no_panic (selectLoop n w items label)"
proof -
  have "N - length (trace s) < n \<Longrightarrow> fst (selectLoop n w items label s) \<noteq> Panic p" for s p
  proof (induction n arbitrary: items s)
    case (Suc n)
    obtain i x e where sel: "w_select w (trace s) items label = (i, x, e)" by (cases "w_select w (trace s) items label")
    show ?case
    proof (cases "i < 0")
      case True
      with assms(1) sel have "length (trace s) < N" by (auto simp: gone_def) (metis fst_conv not_le)
      with Suc.prems have "N - length (trace (s\<lparr>trace := trace s @ [PromptSelect items label]\<rparr>)) < n" by simp
      with Suc.IH True sel show ?thesis by (simp add: bindM_def ask_def)
    qed (use sel in \<open>simp add: bindM_def ask_def\<close>)
  qed simp
  with assms(2) show ?thesis by (simp add: no_panic_def)
qed

lemma prompt_no_panic [no_panic_intro]:
  "no_panic (say x)" "no_panic (PromptGetInput w label flag)" "no_panic (IsVDODeployed w)"
  unfolding say_def PromptGetInput_def IsVDODeployed_def Let_def by (intro no_panic_intro)+

lemma question_no_panic [no_panic_intro]:
  "no_panic (fetchVCIP w c)" "no_panic (fetchThumbprint w c)" "no_panic (fetchCredentials w c)" "no_panic (fetchDatacenters w c)"
  "no_panic (openSession w c)" "no_panic (createSecret w c d)" "no_panic (createVsphereCloudConfig w c x d)"
  "no_panic (createVDOConfig w c c')" "no_panic (mayConfigure w)"
  unfolding fetchVCIP_def fetchThumbprint_def fetchCredentials_def fetchDatacenters_def openSession_def
    createSecret_def createVsphereCloudConfig_def createVDOConfig_def mayConfigure_def Let_def
  by (intro no_panic_intro GetOrCreate_no_panic)+

lemma rounds_no_panic [no_panic_intro]:
  "no_panic (cpiRound w l)" "no_panic (csiRound w x)" "no_panic (storeCSI w csi)"
  unfolding cpiRound_def csiRound_def csiRetry_def storeCSI_def storeCPI_def askThumbprint_def Let_def
  by (intro no_panic_intro)+

lemma select_no_panic: "gone N w \<Longrightarrow> N < n \<Longrightarrow> no_panic (PromptGetSelect n w items label)"
  unfolding PromptGetSelect_def by (intro no_panic_intro selectLoop_no_panic)

lemma permissionRound_no_panic: "gone N w \<Longrightarrow> N < n \<Longrightarrow> no_panic (permissionRound n w csi)"
  unfolding permissionRound_def fetchNetPermissions_def Let_def by (intro no_panic_intro select_no_panic)

lemma drivers_no_panic:
  assumes "gone N w" "N < n"
  shows "no_panic (drivers n w)"
  unfolding drivers_def dialogue_def configureCPI_def chooseStorageVC_def askOptions_def askFileVolumes_def
  by (intro no_panic_intro select_no_panic [OF assms] loopM_no_panic [OF _ _ assms(2)] rounds_prompt [OF assms(1)]
      permissionRound_no_panic [OF assms])


definition stubborn_world :: "nat list world" where
  "stubborn_world = (attached_world [])\<lparr>w_listVDO := \<lambda>_. Inr [],
     w_input := \<lambda>t _ _. if length t < 40 then Inr ''Y'' else Inl sample_refusal\<rparr>"


section \<open>What the dialogue stores was checked\<close>

definition not_vdo :: "call \<Rightarrow> bool" where
  "not_vdo c \<longleftrightarrow> (\<forall>v. c \<noteq> CreateVDO v)"

lemma not_vdo_simps [simp]:
  "not_vdo (Print x)" "not_vdo (PromptInput l f)" "not_vdo (PromptSelect xs l)" "not_vdo ListDeployments"
  "not_vdo (GetConfigMap k)" "not_vdo ListVDOConfigs" "not_vdo (CreateSecretReq x')" "not_vdo (UpdateSecretReq x')"
  "not_vdo (CreateVCC v)" "not_vdo (UpdateVCC v)" "not_vdo (GetVCC k)" "\<not> not_vdo (CreateVDO vdo)"
  "session_call c \<Longrightarrow> not_vdo c"
  by (auto simp: not_vdo_def session_call_def)

abbreviation asks :: "St \<Rightarrow> St \<Rightarrow> bool" where
  "asks \<equiv> emits not_vdo"

lemma fetch_asks [keeps_intro]:
  "keeps asks (fetchVCIP w c)" "keeps asks (fetchThumbprint w c)" "keeps asks (fetchCredentials w c)"
  "keeps asks (fetchDatacenters w c)" "keeps asks (fetchNetPermissions n w)" "keeps asks (openSession w c)"
  "keeps asks (createSecret w c d)" "keeps asks (createVsphereCloudConfig w c x d)"
  unfolding fetchVCIP_def fetchThumbprint_def fetchCredentials_def fetchDatacenters_def fetchNetPermissions_def
    openSession_def createSecret_def createVsphereCloudConfig_def Let_def
  by (intro keeps_intro keeps_emits_mono [OF GetOrCreate_emits]; simp)+

lemma rounds_ask [keeps_intro]:
  "keeps asks (cpiRound w l)" "keeps asks (csiRound w x)" "keeps asks (storeCSI w csi)" "keeps asks (permissionRound n w csi)"
  unfolding cpiRound_def csiRound_def csiRetry_def storeCSI_def permissionRound_def storeCPI_def askThumbprint_def Let_def
  by (intro keeps_intro; simp)+

lemma loopM_keeps: "(\<And>x. keeps asks (f x)) \<Longrightarrow> keeps asks (loopM n f x)"
  by (induction n arbitrary: x) (auto intro!: keeps_intro)

lemma askOptions_ask [keeps_intro]: "keeps asks (askOptions n w csi)"
  unfolding askOptions_def askFileVolumes_def by (intro keeps_intro loopM_keeps; simp)

lemma configureCPI_ask [keeps_intro]: "keeps asks (configureCPI n w)" "keeps asks (chooseStorageVC n w b l)"
  unfolding configureCPI_def chooseStorageVC_def by (intro keeps_intro loopM_keeps; simp)+

lemma dialogue_ask: "keeps asks (dialogue n w)" "keeps asks (mayConfigure w)"
  unfolding dialogue_def mayConfigure_def Let_def by (intro keeps_intro loopM_keeps; simp)+

lemma asks_mono: "keeps asks m \<Longrightarrow> m s = (r, t) \<Longrightarrow> set (trace s) \<subseteq> set (trace t)"
  by (drule keepsD, assumption) (auto elim!: emitsE)

text \<open>
  \<open>checked w calls name\<close>: a cloud configuration of this name was written, the secret it names was
  written too, and a session was opened with what both of them say.
\<close>

definition checked :: "'v world \<Rightarrow> call set \<Rightarrow> string \<Rightarrow> bool" where
  "checked w calls name \<longleftrightarrow>
     (\<exists>vcc secret. (CreateVCC vcc \<in> calls \<or> UpdateVCC vcc \<in> calls) \<and> VccName vcc = name \<and>
        (CreateSecretReq secret \<in> calls \<or> UpdateSecretReq secret \<in> calls) \<and>
        SecretKey secret = \<lparr>NnNamespace = ''kube-system'', NnName = Credentials (VccSpec vcc)\<rparr> \<and> Credentials (VccSpec vcc) \<noteq> [] \<and>
        (\<exists>u sess v. GetOrCreate w (VcIP (VccSpec vcc)) (DataCenters (VccSpec vcc)) (mindex (SecretData secret) ''username'')
           (mindex (SecretData secret) ''password'') (Thumbprint (VccSpec vcc)) u = (Ok sess, v) \<and> set (trace v) \<subseteq> calls))"

lemma checked_mono: "checked w A name \<Longrightarrow> A \<subseteq> B \<Longrightarrow> checked w B name"
  unfolding checked_def by (elim exE conjE, intro exI conjI) (assumption | blast)+

text \<open>
  What a session that \<open>GetOrCreate\<close> returns stands for: either it has logged in to the server with the user,
  the password and the thumbprint of the call, or it was found in the cache, is active and has the same datacenters.
\<close>

definition vouched :: "'v world \<Rightarrow> call set \<Rightarrow> string \<Rightarrow> string slice \<Rightarrow> string \<Rightarrow> string \<Rightarrow> string \<Rightarrow> bool" where
  "vouched w calls server dcs user pwd thumb \<longleftrightarrow>
     (\<exists>c url url'. p_parseURL w server = Inr (Some url) \<and> url' = url\<lparr>UrlUser := user, UrlPassword := pwd\<rparr> \<and>
        NewVimClient url' (thumb = []) thumb \<in> calls \<and> Login c url' \<in> calls) \<or>
     (\<exists>sess. SessionIsActive (SessClient sess) \<in> calls \<and> cachedDatacenters sess = dcs)"

lemma createSession_vouched:
  assumes "createSession w server dcs user pwd thumb s = (Ok sess, t)"
  shows "vouched w (set (trace t)) server dcs user pwd thumb"
proof -
  from assms obtain url where url: "p_parseURL w server = Inr (Some url)"
    by (auto simp: createSession_def split: sum.splits option.splits)
  let ?u = "url\<lparr>UrlUser := user, UrlPassword := pwd\<rparr>"
  from assms url obtain c u ds where login: "newClient w ?u thumb s = (Ok c, u)"
    and dcs: "findDatacenters w (c\<lparr>UserAgent := groupVersion\<rparr>) (entries dcs) u = (Ok ds, t)"
    by (auto simp: createSession_def runs Let_def)
  have "keeps (emits session_call) (findDatacenters w (c\<lparr>UserAgent := groupVersion\<rparr>) (entries dcs))"
    unfolding findDatacenters_def by (intro keeps_intro) simp_all
  from asks_mono [OF keeps_emits_mono [OF this] dcs] have "set (trace u) \<subseteq> set (trace t)" by simp
  moreover have "NewVimClient ?u (thumb = []) thumb \<in> set (trace u)" "Login c ?u \<in> set (trace u)"
    using login by (auto simp: newClient_def runs Let_def)
  ultimately show ?thesis unfolding vouched_def using url by blast
qed

lemma GetOrCreate_vouched:
  assumes "GetOrCreate w server dcs user pwd thumb s = (Ok sess, t)"
  shows "vouched w (set (trace t)) server dcs user pwd thumb"
proof -
  from assms obtain hit u where hit: "cachedSession w (server @ user) dcs s = (Ok hit, u)"
    and rest: "(case hit of Some c \<Rightarrow> ret c
      | None \<Rightarrow> bindM (createSession w server dcs user pwd thumb)
          (\<lambda>sess. thenM (modS (\<lambda>s. s\<lparr>sessionCache := AList.update (server @ user) sess (sessionCache s)\<rparr>)) (ret sess))) u = (Ok sess, t)"
    by (auto simp: GetOrCreate_def Let_def bindM_Ok_iff)
  show ?thesis
  proof (cases hit)
    case (Some c)
    with hit have "SessionIsActive (SessClient c) \<in> set (trace u)" "cachedDatacenters c = dcs"
      by (auto simp: cachedSession_def sessionActive_def runs tryM_ask_iff split: option.splits if_splits)
    with Some rest show ?thesis unfolding vouched_def by auto
  next
    case None
    with rest obtain q v where "createSession w server dcs user pwd thumb u = (Ok q, v)" "set (trace v) = set (trace t)"
      by (auto simp: bindM_Ok_iff thenM_Ok_iff modS_def)
    with createSession_vouched show ?thesis by metis
  qed
qed

lemma createSecret_Ok:
  assumes "createSecret w c d s = (Ok secret, t)"
  shows "CreateSecretReq secret \<in> set (trace t) \<and> NnNamespace (SecretKey secret) = ''kube-system'' \<and>
    NnName (SecretKey secret) \<noteq> [] \<and> mindex (SecretData secret) ''username'' = username c \<and> mindex (SecretData secret) ''password'' = password c"
  using assms
  by (auto simp: createSecret_def KubeSystemNamespace_def mindex_def mlookup_def bindM_Ok_iff thenM_Ok_iff tryM_ask_iff
      ask_Ok_iff Let_def split: sum.splits if_splits)

lemma createVcc_Ok:
  assumes "createVsphereCloudConfig w c x d s = (Ok vcc, t)"
  shows "(CreateVCC vcc \<in> set (trace t) \<or> UpdateVCC vcc \<in> set (trace t)) \<and> VcIP (VccSpec vcc) = vcIp c \<and>
    Credentials (VccSpec vcc) = x \<and> Thumbprint (VccSpec vcc) = thumbprint c \<and> DataCenters (VccSpec vcc) = datacenters c"
  using assms
  by (auto simp: createVsphereCloudConfig_def bindM_Ok_iff thenM_Ok_iff tryM_ask_iff ask_Ok_iff Let_def split: sum.splits if_splits)

lemma store_checked:
  assumes "openSession w c u = (Ok sess, v)" "set (trace v) \<subseteq> set (trace s)" and "createSecret w c d s = (Ok secret, s1)"
    and "createVsphereCloudConfig w c (NnName (SecretKey secret)) d' s1 = (Ok vcc, s2)"
  shows "checked w (set (trace s2)) (VccName vcc)"
proof -
  note S = createSecret_Ok [OF assms(3)] and V = createVcc_Ok [OF assms(4)]
  have sub: "set (trace s1) \<subseteq> set (trace s2)" by (rule asks_mono [OF fetch_asks(8) assms(4)])
  have v: "set (trace v) \<subseteq> set (trace s2)"
    using assms(2) asks_mono [OF fetch_asks(7) assms(3)] sub by blast
  from sub have c: "CreateSecretReq secret \<in> set (trace s2)" using S by blast
  have k: "SecretKey secret = \<lparr>NnNamespace = ''kube-system'', NnName = Credentials (VccSpec vcc)\<rparr>"
    using S V by simp
  have n: "Credentials (VccSpec vcc) \<noteq> []" using S V by simp
  have o: "GetOrCreate w (VcIP (VccSpec vcc)) (DataCenters (VccSpec vcc)) (mindex (SecretData secret) ''username'')
     (mindex (SecretData secret) ''password'') (Thumbprint (VccSpec vcc)) u = (Ok sess, v)"
    using S V assms(1) by (simp add: openSession_def)
  show ?thesis
    unfolding checked_def using V c k n o v by blast
qed

lemma loopM_invariant:
  assumes "loopM n f x s = (Ok z, t)" and "P x s"
    and "\<And>x s y t. P x s \<Longrightarrow> f x s = (Ok (Inl y), t) \<Longrightarrow> P y t"
    and "\<And>x s z t. P x s \<Longrightarrow> f x s = (Ok (Inr z), t) \<Longrightarrow> Q z t"
  shows "Q z t"
  using assms(1,2)
proof (induction n arbitrary: x s)
  case (Suc n)
  then obtain r u where run: "f x s = (Ok r, u)" "(case r of Inl y \<Rightarrow> loopM n f y | Inr z \<Rightarrow> ret z) u = (Ok z, t)"
    by (auto simp: bindM_Ok_iff)
  then show ?case
    using Suc.IH assms(3,4) [OF Suc.prems(2)] by (cases r) auto
qed simp

definition cpi_checked :: "'v world \<Rightarrow> CpiLoop \<Rightarrow> St \<Rightarrow> bool" where
  "cpi_checked w l s \<longleftrightarrow> (\<forall>name \<in> set (vsphereCloudConfigList l). checked w (set (trace s)) name)"

lemma cpi_checked_mono:
  "cpi_checked w l s \<Longrightarrow> set (trace s) \<subseteq> set (trace t) \<Longrightarrow> vsphereCloudConfigList l' = vsphereCloudConfigList l \<Longrightarrow>
   cpi_checked w l' t"
  unfolding cpi_checked_def using checked_mono by metis

lemma askThumbprint_list: "askThumbprint w l s = (Ok l', t) \<Longrightarrow> vsphereCloudConfigList l' = vsphereCloudConfigList l"
  by (auto simp: askThumbprint_def bindM_Ok_iff thenM_Ok_iff split: if_splits)

text \<open>A round either goes on with the same list, or ends in \<open>storeCPI\<close> with an open session.\<close>

lemma cpiRound_cases:
  assumes "cpiRound w l s = (Ok r, t)"
  obtains l' where "r = Inl l'" "vsphereCloudConfigList l' = vsphereCloudConfigList l"
  | l' u v sess where "openSession w (cpiCred l') u = (Ok sess, v)" "vsphereCloudConfigList l' = vsphereCloudConfigList l"
      "storeCPI w l' v = (Ok r, t)" "set (trace s) \<subseteq> set (trace v)"
proof -
  from assms obtain l1 s1 l2 s2 l3 s3 c s4 q s5 where run:
    "(if cpiStage l = MultiVc then bindM (fetchVCIP w (cpiCred l)) (\<lambda>c. ret (l\<lparr>cpiCred := c\<rparr>)) else ret l) s = (Ok l1, s1)"
    "(if cpiStage l1 = MultiVc \<or> cpiStage l1 = Thumb then askThumbprint w l1 else ret l1) s1 = (Ok l2, s2)"
    "(if cpiStage l2 \<noteq> Dc then bindM (fetchCredentials w (cpiCred l2)) (\<lambda>c. ret (l2\<lparr>cpiCred := c\<rparr>)) else ret l2) s2 = (Ok l3, s3)"
    "fetchDatacenters w (cpiCred l3) s3 = (Ok c, s4)" "tryM (openSession w c) s4 = (Ok q, s5)"
    "(case q of Inl e \<Rightarrow> thenM (say (invalidMsg c e)) (ret (Inl (l3\<lparr>cpiCred := c, cpiStage := retryStage e\<rparr>)))
      | Inr _ \<Rightarrow> storeCPI w (l3\<lparr>cpiCred := c\<rparr>)) s5 = (Ok r, t)"
    by (auto simp: cpiRound_def Let_def bindM_Ok_iff)
  have l: "vsphereCloudConfigList l3 = vsphereCloudConfigList l"
    using run(1-3) by (auto simp: bindM_Ok_iff split: if_splits dest!: askThumbprint_list)
  have "keeps asks (if cpiStage l = MultiVc then bindM (fetchVCIP w (cpiCred l)) (\<lambda>c. ret (l\<lparr>cpiCred := c\<rparr>)) else ret l)"
    "keeps asks (if cpiStage l1 = MultiVc \<or> cpiStage l1 = Thumb then askThumbprint w l1 else ret l1)"
    "keeps asks (if cpiStage l2 \<noteq> Dc then bindM (fetchCredentials w (cpiCred l2)) (\<lambda>c. ret (l2\<lparr>cpiCred := c\<rparr>)) else ret l2)"
    "keeps asks (fetchDatacenters w (cpiCred l3))" "keeps asks (tryM (openSession w c))"
    unfolding askThumbprint_def by (intro keeps_intro; simp)+
  then have sub: "set (trace s) \<subseteq> set (trace s5)"
    using run(1-5) by (meson asks_mono order_trans)
  show ?thesis
  proof (cases q)
    case (Inl e)
    with run(6) have "r = Inl (l3\<lparr>cpiCred := c, cpiStage := retryStage e\<rparr>)" by (auto simp: thenM_Ok_iff)
    then show ?thesis by (rule that(1)) (simp add: l)
  next
    case (Inr sess)
    with run(5) have "openSession w c s4 = (Ok sess, s5)" by (auto simp: tryM_def split: prod.splits outcome.splits)
    then show ?thesis using run(6) Inr by (intro that(2) [of "l3\<lparr>cpiCred := c\<rparr>" s4 sess s5]) (simp_all add: l sub)
  qed
qed

lemma storeCPI_checked:
  assumes "openSession w (cpiCred l) u = (Ok sess, s)" "storeCPI w l s = (Ok r, t)" "cpi_checked w l s"
  shows "case r of Inl l' \<Rightarrow> cpi_checked w l' t
    | Inr l' \<Rightarrow> cpi_checked w l' t \<and> vsphereCloudConfigs (cpiCred l') = vsphereCloudConfigList l'"
proof -
  from assms(2) obtain secret s1 vcc s2 a where run: "createSecret w (cpiCred l) ''cpi'' s = (Ok secret, s1)"
    "createVsphereCloudConfig w (cpiCred l) (NnName (SecretKey secret)) ''cpi'' s1 = (Ok vcc, s2)"
    "PromptGetInput w ''Do you want to configure another vcenter for CloudProvider? (Y/N)'' IsString s2 = (Ok a, t)"
    and r: "r = nextVc (l\<lparr>vcIPList := vcIPList l @ [vcIp (cpiCred l)], vsphereCloudConfigList := vsphereCloudConfigList l @ [VccName vcc]\<rparr>)
        (yes a)"
    by (auto simp: storeCPI_def Let_def bindM_Ok_iff)
  have k: "keeps asks (PromptGetInput w ''Do you want to configure another vcenter for CloudProvider? (Y/N)'' IsString)"
    by (intro keeps_intro) simp_all
  have sub: "set (trace s2) \<subseteq> set (trace t)" "set (trace s) \<subseteq> set (trace s2)"
    using asks_mono [OF k run(3)] order_trans [OF asks_mono [OF fetch_asks(7) run(1)] asks_mono [OF fetch_asks(8) run(2)]] by blast+
  have new: "checked w (set (trace t)) (VccName vcc)"
    using store_checked [OF assms(1) order_refl run(1,2)] sub(1) by (rule checked_mono)
  have "\<forall>name \<in> set (vsphereCloudConfigList l). checked w (set (trace t)) name"
    using assms(3) sub checked_mono by (metis cpi_checked_def order_trans)
  with new show ?thesis unfolding r nextVc_def by (cases "yes a") (simp_all add: cpi_checked_def)
qed

lemma cpiLoop_checked:
  assumes "loopM n (cpiRound w) startCPI s = (Ok l, t)"
  shows "cpi_checked w l t \<and> vsphereCloudConfigs (cpiCred l) = vsphereCloudConfigList l"
proof (rule loopM_invariant [where P = "cpi_checked w", OF assms])
  show "cpi_checked w startCPI s" by (simp add: cpi_checked_def startCPI_def)
next
  fix x s r t assume inv: "cpi_checked w x s"
  have step: "case r of Inl l' \<Rightarrow> cpi_checked w l' t
    | Inr l' \<Rightarrow> cpi_checked w l' t \<and> vsphereCloudConfigs (cpiCred l') = vsphereCloudConfigList l'"
    if run: "cpiRound w x s = (Ok r, t)" for r
    using run
  proof (cases rule: cpiRound_cases)
    case (1 l')
    moreover have "set (trace s) \<subseteq> set (trace t)" by (rule asks_mono [OF rounds_ask(1) run])
    ultimately show ?thesis using cpi_checked_mono [OF inv] by simp
  next
    case (2 l' u v sess)
    show ?thesis by (rule storeCPI_checked [OF 2(1,3) cpi_checked_mono [OF inv 2(4,2)]])
  qed
  show "cpi_checked w y t" if "cpiRound w x s = (Ok (Inl y), t)" for y using step [OF that] by simp
  show "cpi_checked w z t \<and> vsphereCloudConfigs (cpiCred z) = vsphereCloudConfigList z" if "cpiRound w x s = (Ok (Inr z), t)" for z
    using step [OF that] by simp
qed

lemma configureCPI_checked:
  assumes "configureCPI n w s = (Ok l, t)"
  shows "\<forall>name \<in> set (vsphereCloudConfigs (cpiCred l)). checked w (set (trace t)) name"
proof -
  let ?ask = "\<lambda>l. bindM (PromptGetInput w ''Do you want to configure zones/regions for CloudProvider? (Y/N)'' IsString)
           (\<lambda>answer. bindM
              (if yes answer
               then bindM (PromptGetInput w (Zone (topology labels)) IsString)
                 (\<lambda>zone. bindM (PromptGetInput w (Region (topology labels)) IsString)
                   (\<lambda>region. ret (l\<lparr>cpiCred := (cpiCred l)\<lparr>topology := \<lparr>Zone = zone, Region = region\<rparr>\<rparr>\<rparr>)))
               else ret l)
              (\<lambda>l. thenM (say (''You have now completed configuration of CloudProvider. '' @
                              ''We will now proceed to configure StorageProvider.'' @ newline)) (ret l)))"
  from assms obtain s1 l1 s2 where run: "loopM n (cpiRound w) startCPI s1 = (Ok l1, s2)" "?ask l1 s2 = (Ok l, t)"
    unfolding configureCPI_def thenM_Ok_iff bindM_Ok_iff [of "loopM _ _ _"] by blast
  have k: "keeps asks (?ask l1)" by (intro keeps_intro; simp)
  have "vsphereCloudConfigs (cpiCred l) = vsphereCloudConfigs (cpiCred l1)"
    using run(2) by (auto simp: bindM_Ok_iff thenM_Ok_iff split: if_splits)
  with cpiLoop_checked [OF run(1)] asks_mono [OF k run(2)] show ?thesis
    by (auto simp: cpi_checked_def intro: checked_mono)
qed

lemma csiLoop_session:
  assumes "loopM n (csiRound w) x s = (Ok csi, t)"
  shows "\<exists>u sess. openSession w csi u = (Ok sess, t)"
proof (rule loopM_invariant [where P = "\<lambda>_ _. True" and Q = "\<lambda>csi t. \<exists>u sess. openSession w csi u = (Ok sess, t)", OF assms])
  fix x s z t assume "csiRound w x s = (Ok (Inr z), t)"
  then obtain c u q v where run: "tryM (openSession w c) u = (Ok q, v)"
    "(case q of Inl e \<Rightarrow> bindM (csiRetry w c e) (\<lambda>y. ret (Inl y)) | Inr _ \<Rightarrow> ret (Inr c)) v = (Ok (Inr z), t)"
    by (cases x) (auto simp: csiRound_def bindM_Ok_iff)
  from run(2) obtain sess where "q = Inr sess" "c = z" "v = t" by (cases q) (auto simp: bindM_Ok_iff)
  with run(1) show "\<exists>u sess. openSession w z u = (Ok sess, t)"
    by (auto simp: tryM_def split: prod.splits outcome.splits)
qed simp_all

lemma askOptions_name:
  assumes "askOptions n w csi s = (Ok csi', t)"
  shows "vsphereCloudConfig csi' = vsphereCloudConfig csi"
proof -
  have loop: "vsphereCloudConfig c' = vsphereCloudConfig c" if "loopM n (permissionRound n w) c s = (Ok c', t)" for c c' s t
    by (rule loopM_invariant [where P = "\<lambda>x _. vsphereCloudConfig x = vsphereCloudConfig c", OF that])
      (auto simp: permissionRound_def Let_def bindM_Ok_iff split: if_splits)
  have files: "vsphereCloudConfig c' = vsphereCloudConfig c" if "askFileVolumes n w c s = (Ok c', t)" for c c' s t
    using that by (auto simp: askFileVolumes_def bindM_Ok_iff split: if_splits dest!: loop)
  show ?thesis using assms by (auto simp: askOptions_def bindM_Ok_iff split: if_splits dest!: files)
qed

lemma storeCSI_checked:
  assumes "openSession w csi u = (Ok sess, s)" and "storeCSI w csi s = (Ok csi', t)"
  shows "checked w (set (trace t)) (vsphereCloudConfig csi')"
proof -
  from assms(2) obtain secret s1 vcc where run: "createSecret w csi ''csi'' s = (Ok secret, s1)"
    "createVsphereCloudConfig w csi (NnName (SecretKey secret)) ''csi'' s1 = (Ok vcc, t)"
    and name: "vsphereCloudConfig csi' = VccName vcc"
    by (auto simp: storeCSI_def bindM_Ok_iff)
  show ?thesis unfolding name by (rule store_checked [OF assms(1) order_refl run])
qed

lemma dialogue_checked:
  assumes "dialogue n w s = (Ok (cpi, csi), t)"
  shows "\<forall>name \<in> set (vsphereCloudConfig csi # vsphereCloudConfigs cpi). checked w (set (trace t)) name"
proof -
  let ?msg = "''Please provide the credentials for configuring StorageProvider'' @ newline"
  from assms obtain a s1 l s2 csi0 s3 s4 csi1 s5 csi2 s6 where run:
    "(if yes a then configureCPI n w else ret startCPI) s1 = (Ok l, s2)" "chooseStorageVC n w (yes a) l s2 = (Ok csi0, s3)"
    "say ?msg s3 = (Ok (), s4)" "loopM n (csiRound w) (Creds, csi0) s4 = (Ok csi1, s5)" "storeCSI w csi1 s5 = (Ok csi2, s6)"
    "askOptions n w csi2 s6 = (Ok csi, t)" "cpi = cpiCred l"
    unfolding dialogue_def bindM_Ok_iff thenM_Ok_iff by auto
  have k: "keeps asks (say ?msg)" "keeps asks (loopM n (csiRound w) (Creds, csi0))" "keeps asks (storeCSI w csi1)"
    by (intro keeps_intro loopM_keeps; simp)+
  have sub: "set (trace s2) \<subseteq> set (trace t)" "set (trace s6) \<subseteq> set (trace t)"
    using asks_mono [OF configureCPI_ask(2) run(2)] asks_mono [OF k(1) run(3)] asks_mono [OF k(2) run(4)]
      asks_mono [OF k(3) run(5)] asks_mono [OF askOptions_ask run(6)] by blast+
  from csiLoop_session [OF run(4)] obtain u sess where "openSession w csi1 u = (Ok sess, s5)" by blast
  from storeCSI_checked [OF this run(5)] have "checked w (set (trace t)) (vsphereCloudConfig csi)"
    using sub(2) askOptions_name [OF run(6)] by (auto intro: checked_mono)
  moreover have "\<forall>name \<in> set (vsphereCloudConfigs cpi). checked w (set (trace t)) name"
  proof (cases "yes a")
    case True
    with run(1) have "configureCPI n w s1 = (Ok l, s2)" by simp
    from configureCPI_checked [OF this] show ?thesis using run(7) sub(1) by (auto intro: checked_mono)
  next
    case False
    with run(1) have "l = startCPI" by simp
    with run(7) show ?thesis by (simp add: startCPI_def noCredentials_def)
  qed
  ultimately show ?thesis by simp
qed

lemma checked_vouched:
  assumes "checked w calls name"
  shows "\<exists>vcc secret. (CreateVCC vcc \<in> calls \<or> UpdateVCC vcc \<in> calls) \<and> VccName vcc = name \<and>
      (CreateSecretReq secret \<in> calls \<or> UpdateSecretReq secret \<in> calls) \<and>
      SecretKey secret = \<lparr>NnNamespace = ''kube-system'', NnName = Credentials (VccSpec vcc)\<rparr> \<and> Credentials (VccSpec vcc) \<noteq> [] \<and>
      vouched w calls (VcIP (VccSpec vcc)) (DataCenters (VccSpec vcc)) (mindex (SecretData secret) ''username'')
        (mindex (SecretData secret) ''password'') (Thumbprint (VccSpec vcc))"
proof -
  have "vouched w A server dcs user pwd thumb \<Longrightarrow> A \<subseteq> calls \<Longrightarrow> vouched w calls server dcs user pwd thumb"
    for A server dcs user pwd thumb unfolding vouched_def by blast
  with assms GetOrCreate_vouched show ?thesis unfolding checked_def by metis
qed

lemma createVDOConfig_calls:
  assumes "createVDOConfig w cpi csi s = (r, t)"
  shows "\<exists>name ns. trace t = trace s @ [CreateVDO (vdoConfigOf name ns cpi csi)]"
  by (rule exI [of _ "vdoConfigName @ w_randHex w (trace s) 4"], rule exI [of _ "VdoCurrentNamespace s"])
    (use assms in \<open>auto simp: createVDOConfig_def bindM_def tryM_def ask_def split: outcome.splits sum.splits if_splits\<close>)

lemma vdoConfigOf_names:
  "cloud_configs (vdoConfigOf name ns cpi csi) = vsphereCloudConfigs cpi" "storage_config (vdoConfigOf name ns cpi csi) = vsphereCloudConfig csi"
  by (simp_all add: vdoConfigOf_def)

lemma drivers_vdo:
  assumes "drivers n w s = (r, t)" and "c \<in> set (new_calls s t)" "\<not> not_vdo c"
  obtains cpi csi u v where "dialogue n w v = (Ok (cpi, csi), u)" "set (trace u) \<subseteq> set (trace t)"
    "\<exists>name ns x. c = CreateVDO (vdoConfigOf name ns cpi csi) \<and> filter (\<lambda>c. \<not> not_vdo c) (new_calls s t) = [c]"
proof -
  obtain q v where m: "mayConfigure w s = (q, v)" by force
  have mv: "asks s v" by (rule keepsD [OF dialogue_ask(2) m])
  have "\<not> asks s t" using assms(2,3) by (auto simp: emits_def list_all_iff)
  with assms(1) m mv have q: "q = Ok True"
    by (cases q) (auto simp: drivers_def bindM_def split: if_splits)
  obtain p u where d: "dialogue n w v = (p, u)" by force
  have su: "asks s u" by (rule emits.R_trans [OF mv keepsD [OF dialogue_ask(1) d]])
  with \<open>\<not> asks s t\<close> assms(1) m q d obtain cpi csi where p: "p = Ok (cpi, csi)"
    by (cases p) (auto simp: drivers_def bindM_def)
  obtain r' v' where c: "createVDOConfig w cpi csi u = (r', v')" by force
  from createVDOConfig_calls [OF c] obtain name ns where tr: "trace v' = trace u @ [CreateVDO (vdoConfigOf name ns cpi csi)]" by blast
  have k: "keeps asks (say thanksMsg)" by (intro keeps_intro) simp
  have "asks v' t"
    using assms(1) m q d p c keepsD [OF k, of v']
    by (cases r') (auto simp: drivers_def bindM_def thenM_def emits.R_refl)
  then obtain cs where t: "trace t = trace v' @ cs" "list_all not_vdo cs" by (auto elim!: emitsE)
  from su obtain ds where u: "trace u = trace s @ ds" "list_all not_vdo ds" by (auto elim!: emitsE)
  have n: "new_calls s t = ds @ CreateVDO (vdoConfigOf name ns cpi csi) # cs" using t(1) u(1) tr by (simp add: new_calls_def)
  with t(2) u(2) assms(2,3) have "c = CreateVDO (vdoConfigOf name ns cpi csi)" by (auto simp: list_all_iff)
  moreover have "filter (\<lambda>c. \<not> not_vdo c) (new_calls s t) = [CreateVDO (vdoConfigOf name ns cpi csi)]"
    using n t(2) u(2) by (simp add: list_all_iff filter_empty_conv)
  moreover have "set (trace u) \<subseteq> set (trace t)" using tr t(1) by auto
  ultimately show ?thesis using d p by (intro that) auto
qed

lemma drivers_checked:
  assumes "drivers n w s = (r, t)" "trace s = []" and "CreateVDO vdo \<in> set (trace t)"
  shows "(\<forall>name \<in> set (storage_config vdo # cloud_configs vdo). checked w (set (trace t)) name) \<and>
    filter (\<lambda>c. \<exists>x. c = CreateVDO x) (trace t) = [CreateVDO vdo]"
proof -
  have "CreateVDO vdo \<in> set (new_calls s t)" using assms(2,3) by (simp add: new_calls_def)
  moreover have "\<not> not_vdo (CreateVDO vdo)" by simp
  ultimately obtain cpi csi u v where d: "dialogue n w v = (Ok (cpi, csi), u)" "set (trace u) \<subseteq> set (trace t)"
    and c: "\<exists>name ns x. CreateVDO vdo = CreateVDO (vdoConfigOf name ns cpi csi) \<and>
      filter (\<lambda>c. \<not> not_vdo c) (new_calls s t) = [CreateVDO vdo]"
    by (rule drivers_vdo [OF assms(1)])
  then obtain name ns where vdo: "vdo = vdoConfigOf name ns cpi csi" "filter (\<lambda>c. \<not> not_vdo c) (new_calls s t) = [CreateVDO vdo]"
    by blast
  have "\<forall>name \<in> set (storage_config vdo # cloud_configs vdo). checked w (set (trace t)) name"
    using dialogue_checked [OF d(1)] d(2) vdo(1) by (auto simp: vdoConfigOf_names intro: checked_mono)
  moreover have "filter (\<lambda>c. \<exists>x. c = CreateVDO x) (trace t) = [CreateVDO vdo]"
    using vdo(2) assms(2) by (simp add: new_calls_def not_vdo_def)
  ultimately show ?thesis by blast
qed


text \<open>A user who configures one vCenter for both drivers.\<close>

definition answer_world :: "nat list world" where
  "answer_world = lab_world\<lparr>w_listDeployments := w_listDeployments (attached_world []), w_listVDO := \<lambda>_. Inr [],
     w_createSecret := \<lambda>_ _. Inr (), w_createVCC := \<lambda>_ _. Inr (), w_createVDO := \<lambda>_ _. Inr (),
     w_select := \<lambda>_ items _. if items = [] then (-1, [], None) else (0, hd items, None),
     w_input := \<lambda>_ label flag.
       Inr (if flag = IsIPorFQDN \<or> flag = IsURL then ''10.0.0.1''
            else if label = defaultMatrixQuestion \<or> label = ''Do you want to configure CloudProvider? (Y/N)'' then ''Y'' else ''n'')\<rparr>"

lemma answer_sel [simp]:
  "w_listDeployments answer_world = w_listDeployments (attached_world [])" "w_listVDO answer_world = (\<lambda>_. Inr [])"
  "w_createSecret answer_world = (\<lambda>_ _. Inr ())" "w_createVCC answer_world = (\<lambda>_ _. Inr ())"
  "w_createVDO answer_world = (\<lambda>_ _. Inr ())" "w_getConfigMap answer_world = (\<lambda>_ _. Inl sample_refusal)"
  "w_newVimClient answer_world = (\<lambda>_ _ _ _. Inr lab_client)" "w_login answer_world = (\<lambda>_ _ _. Inr ())"
  "w_findDatacenter answer_world = (\<lambda>_ _ n. Inr (Some \<lparr>DcId = 1, InventoryPath = n\<rparr>))"
  "p_parseURL answer_world = p_parseURL down_world"
  by (simp_all add: answer_world_def lab_world_def login_world_def)

lemma yes_simps [simp]: "yes ''Y''" "\<not> yes ''n''"
  by code_simp+

lemma default_question [simp]: "CHR ''D'' # xs \<noteq> defaultMatrixQuestion"
  by (simp add: defaultMatrixQuestion_def)

definition answer :: "string \<Rightarrow> ValidationFlags \<Rightarrow> string" where
  "answer label flag = (if flag = IsIPorFQDN \<or> flag = IsURL then ''10.0.0.1''
            else if label = defaultMatrixQuestion \<or> label = ''Do you want to configure CloudProvider? (Y/N)'' then ''Y'' else ''n'')"

lemma answer_input_run:
  "PromptGetInput answer_world label flag s = (Ok (answer label flag), s\<lparr>trace := trace s @ [PromptInput label flag]\<rparr>)"
  by (simp add: PromptGetInput_def answer_world_def answer_def monad_defs)

text \<open>\<open>yields P m\<close>: every run of \<open>m\<close> succeeds, with a value in \<open>P\<close>.\<close>

definition yields :: "('a \<Rightarrow> bool) \<Rightarrow> 'a M \<Rightarrow> bool" where
  "yields P m \<longleftrightarrow> (\<forall>s. \<exists>x t. m s = (Ok x, t) \<and> P x)"

abbreviation succeeds :: "'a M \<Rightarrow> bool" where
  "succeeds \<equiv> yields (\<lambda>_. True)"

lemma yields_ret: "P x \<Longrightarrow> yields P (ret x)"
  by (simp add: yields_def)

lemma succeeds_pure: "succeeds (getS f)" "succeeds (modS g)" "succeeds (tryM (ask c q))"
  by (auto simp: yields_def tryM_def ask_def split: outcome.split)

lemma yields_bindM: "yields Q m \<Longrightarrow> (\<And>x. Q x \<Longrightarrow> yields P (k x)) \<Longrightarrow> yields P (bindM m k)"
  unfolding yields_def bindM_Ok_iff by metis

lemma succeeds_bindM: "succeeds m \<Longrightarrow> (\<And>x. yields P (k x)) \<Longrightarrow> yields P (bindM m k)"
  by (rule yields_bindM)

lemma succeeds_thenM: "succeeds m \<Longrightarrow> yields P k \<Longrightarrow> yields P (thenM m k)"
  unfolding thenM_def by (rule succeeds_bindM)

lemma yields_option: "yields P m \<Longrightarrow> (\<And>y. yields P (k y)) \<Longrightarrow> yields P (case x of None \<Rightarrow> m | Some y \<Rightarrow> k y)"
  by (cases x) auto

lemma yields_if: "(b \<Longrightarrow> yields P m) \<Longrightarrow> (\<not> b \<Longrightarrow> yields P k) \<Longrightarrow> yields P (if b then m else k)"
  by simp

lemma yields_prod: "(\<And>a b. yields P (k a b)) \<Longrightarrow> yields P (case x of (a, b) \<Rightarrow> k a b)"
  by (cases x) auto

lemma yields_tryM: "succeeds m \<Longrightarrow> yields (\<lambda>r. \<exists>x. r = Inr x) (tryM m)"
  unfolding yields_def tryM_def by (metis (no_types, lifting) case_prod_conv outcome.simps(10))

lemma yields_loopM: "yields (\<lambda>r. \<exists>z. r = Inr z \<and> P z) (f x) \<Longrightarrow> yields P (loopM 1 f x)"
  unfolding One_nat_def loopM.simps by (rule yields_bindM, assumption) (auto intro: yields_ret)

lemma succeeds_foldM: "(\<And>x acc. succeeds (f x acc)) \<Longrightarrow> succeeds (foldM f xs acc)"
  by (induction xs arbitrary: acc) (auto intro: yields_ret succeeds_bindM)

lemmas yields_intro = succeeds_bindM succeeds_thenM succeeds_pure yields_option yields_if yields_prod

lemma answer_input: "yields (\<lambda>x. x = answer label flag) (PromptGetInput answer_world label flag)"
  by (simp add: yields_def PromptGetInput_def answer_world_def answer_def monad_defs)

lemma answer_input_any: "succeeds (PromptGetInput answer_world label flag)"
  by (simp add: yields_def answer_input_run)

lemma answer_asks: "succeeds (say x)" "succeeds (ask q (\<lambda>t. Inr y))"
  by (simp_all add: yields_def say_def ask_def)

lemma answer_session: "succeeds (openSession answer_world c)"
proof -
  have "succeeds (cachedSession answer_world k ds)" for k ds
    unfolding cachedSession_def sessionActive_def by (intro yields_intro yields_ret; simp)
  moreover have "succeeds (createSession answer_world a ds u p th)" for a ds u p th
    unfolding createSession_def newClient_def findDatacenters_def Let_def
    by (simp, intro yields_intro succeeds_foldM answer_asks yields_ret; simp)
  ultimately show ?thesis
    unfolding openSession_def GetOrCreate_def Let_def by (intro yields_intro yields_ret; simp)
qed

lemma answer_store:
  "succeeds (createSecret answer_world c d)" "succeeds (createVsphereCloudConfig answer_world c y d)"
  "succeeds (createVDOConfig answer_world c c')" "succeeds (storeCSI answer_world c)"
proof -
  show a: "succeeds (createSecret answer_world c d)" "succeeds (createVsphereCloudConfig answer_world c y d)"
    "succeeds (createVDOConfig answer_world c c')" for c d y c'
    by (simp_all add: yields_def createSecret_def createVsphereCloudConfig_def createVDOConfig_def bindM_def thenM_def tryM_def
        ask_def Let_def)
  show "succeeds (storeCSI answer_world c)"
    unfolding storeCSI_def by (intro yields_intro a yields_ret; simp)
qed

lemma answer_fetch:
  "succeeds (fetchVCIP answer_world c)" "succeeds (fetchThumbprint answer_world c)" "succeeds (fetchCredentials answer_world c)"
  "succeeds (fetchDatacenters answer_world c)"
  unfolding fetchVCIP_def fetchThumbprint_def fetchCredentials_def fetchDatacenters_def
  by (intro yields_intro answer_input_any yields_ret; simp)+

lemma answer_checks: "\<exists>t. mayConfigure answer_world init_St = (Ok True, t)"
  by (simp add: mayConfigure_def IsVDODeployed_def bindM_def thenM_def tryM_def ask_def answer_def answer_input_run
      EqualFold.simps(1) UserConfig_def)

lemma answer_cpiRound: "yields (\<lambda>r. \<exists>l. r = Inr l \<and> \<not> isCPIMultiVC l) (cpiRound answer_world startCPI)"
proof -
  have store: "yields (\<lambda>r. \<exists>l. r = Inr l \<and> \<not> isCPIMultiVC l) (storeCPI answer_world l)" if "\<not> isCPIMultiVC l" for l
    unfolding storeCPI_def Let_def
    by (rule succeeds_bindM [OF answer_store(1)], rule succeeds_bindM [OF answer_store(2)], rule yields_bindM [OF answer_input],
        rule yields_ret) (use that in \<open>simp add: nextVc_def answer_def\<close>)
  have one: "yields (\<lambda>l. \<not> isCPIMultiVC l) (if b then bindM m (\<lambda>c. ret (l\<lparr>cpiCred := c\<rparr>)) else ret l)"
    if "succeeds m" "\<not> isCPIMultiVC l" for b l and m :: "credentials M"
    using that by (intro yields_if succeeds_bindM yields_ret) simp_all
  have thumb: "yields (\<lambda>l. \<not> isCPIMultiVC l) (if b then askThumbprint answer_world l else ret l)" if "\<not> isCPIMultiVC l" for b l
    unfolding askThumbprint_def
    by (intro yields_if yields_ret yields_bindM [where Q = "\<lambda>l. \<not> isCPIMultiVC l"] succeeds_bindM [OF answer_fetch(2)]
        succeeds_thenM [OF answer_asks(1)]; simp add: that)
  show ?thesis
    unfolding cpiRound_def Let_def
    by (rule yields_bindM [OF one [OF answer_fetch(1)]], simp add: startCPI_def,
        rule yields_bindM [OF thumb], assumption,
        rule yields_bindM [OF one [OF answer_fetch(3)]], assumption,
        rule succeeds_bindM [OF answer_fetch(4)], rule yields_bindM [OF yields_tryM [OF answer_session]])
      (clarsimp, rule store, simp)
qed

lemma answer_csiRound: "yields (\<lambda>r. \<exists>c. r = Inr c \<and> True) (csiRound answer_world (Creds, c))"
  unfolding csiRound_def prod.case
  by (rule succeeds_bindM, simp add: answer_fetch, rule succeeds_bindM [OF answer_fetch(4)],
      rule yields_bindM [OF yields_tryM [OF answer_session]]) (clarsimp, rule yields_ret, simp)

lemma answer_options: "succeeds (askOptions 1 answer_world c)"
  unfolding askOptions_def
  by (rule yields_bindM [OF answer_input], rule yields_bindM [where Q = "\<lambda>x. x = c"], simp add: answer_def yields_ret,
      rule yields_bindM [OF answer_input]) (simp add: answer_def yields_ret)

lemma answer_configureCPI: "yields (\<lambda>l. \<not> isCPIMultiVC l) (configureCPI 1 answer_world)"
  unfolding configureCPI_def
  by (rule succeeds_thenM [OF answer_asks(1)], rule yields_bindM [OF yields_loopM [where f = "cpiRound answer_world", OF answer_cpiRound]],
      rule yields_bindM [OF answer_input]) (simp add: answer_def, intro succeeds_thenM answer_asks yields_ret, assumption)

lemma answer_dialogue: "succeeds (dialogue 1 answer_world)"
proof -
  have choose: "succeeds (chooseStorageVC 1 answer_world True l)" if "\<not> isCPIMultiVC l" for l
    using that by (simp add: chooseStorageVC_def yields_ret)
  show ?thesis
    unfolding dialogue_def
    by (rule yields_bindM [OF answer_input], simp add: answer_def del: One_nat_def, rule yields_bindM [OF answer_configureCPI],
        rule succeeds_bindM [OF choose], assumption,
        intro succeeds_thenM answer_asks succeeds_bindM answer_store answer_options yields_ret
          yields_bindM [OF yields_loopM [where f = "csiRound answer_world", OF answer_csiRound]]) (simp_all del: One_nat_def)
qed

lemma answer_run: "\<exists>t vdo. drivers 1 answer_world init_St = (Ok (), t) \<and> CreateVDO vdo \<in> set (trace t)"
proof -
  obtain u where u: "mayConfigure answer_world init_St = (Ok True, u)" using answer_checks by blast
  obtain cpi csi v where v: "dialogue 1 answer_world u = (Ok (cpi, csi), v)"
    using answer_dialogue unfolding yields_def by (metis surj_pair)
  obtain x where x1: "createVDOConfig answer_world cpi csi v = (Ok (), x)"
    using answer_store(3) [of cpi csi] unfolding yields_def by auto
  obtain y where x2: "say thanksMsg x = (Ok (), y)"
    using answer_asks(1) [of thanksMsg] unfolding yields_def by auto
  note x = x1 x2
  have "drivers 1 answer_world init_St = (Ok (), y)"
    using u v x by (simp add: drivers_def bindM_def thenM_def)
  moreover have "set (trace x) \<subseteq> set (trace y)" using x(2) by (auto simp: say_def ask_def)
  ultimately show ?thesis using createVDOConfig_calls [OF x(1)] by auto
qed


end
