(* ===== verification/Ctl_Validation.thy ===== *)
theory Ctl_Validation
  imports Ctl_Dialogue
begin

text \<open>
  Which addresses the dialogue stores. The prompt for an address validates what is typed; the selection of the
  vCenter for storage, in which the user can also add an entry, does not.
\<close>

definition storageLabel :: string where
  "storageLabel = ''Please select vcenter for configuring StorageProvider''"

text \<open>An answer without an error is one of the entries; a new entry has the index \<open>-1\<close>.\<close>

definition selects :: "'v world \<Rightarrow> bool" where
  "selects w \<longleftrightarrow> (\<forall>t items label i x. w_select w t items label = (i, x, None) \<and> 0 \<le> i \<longrightarrow> x \<in> set items)"

definition okAddr :: "'v world \<Rightarrow> string \<Rightarrow> bool" where
  "okAddr w a \<longleftrightarrow> checkIPAddress w a \<or> checkIfFQDN a"

definition added :: "'v world \<Rightarrow> string \<Rightarrow> bool" where
  "added w a \<longleftrightarrow> (\<exists>t items e. w_select w t items storageLabel = (-1, a, e))"

definition known :: "'v world \<Rightarrow> string \<Rightarrow> bool" where
  "known w a \<longleftrightarrow> okAddr w a \<or> added w a"

section \<open>Answers\<close>

lemma input_valid:
  assumes "validates w" and "PromptGetInput w label IsIPorFQDN s = (Ok x, t)"
  shows "okAddr w x"
proof -
  from assms(2) obtain tr where "w_input w tr label IsIPorFQDN = Inr x" by (auto simp: PromptGetInput_def runs)
  with assms(1) have "validate w (Msg []) IsIPorFQDN x = None" unfolding validates_def by blast
  then show ?thesis by (auto simp: validate_def okAddr_def split: if_splits)
qed

lemma selectLoop_known:
  assumes "selects w" and "selectLoop n w items storageLabel s = (Ok (x, None), t)" and "\<forall>a \<in> set items. known w a"
  shows "known w x"
  using assms(2,3)
proof (induction n arbitrary: items s)
  case (Suc n)
  obtain i y e where sel: "w_select w (trace s) items storageLabel = (i, y, e)" by (cases "w_select w (trace s) items storageLabel")
  show ?case
  proof (cases "i < 0")
    case True
    have "\<forall>a \<in> set (if i = -1 then items @ [y] else items). known w a"
      using Suc.prems(2) sel by (auto simp: known_def added_def)
    with True Suc.prems(1) sel Suc.IH show ?thesis by (simp add: bindM_def ask_def)
  next
    case False
    with Suc.prems(1) sel have "e = None" "y = x" by (simp_all add: bindM_def ask_def ret_def)
    with False sel assms(1) have "x \<in> set items" unfolding selects_def by force
    with Suc.prems(2) show ?thesis by blast
  qed
qed simp

lemma select_known:
  assumes "selects w" and "PromptGetSelect n w items storageLabel s = (Ok x, t)" and "\<forall>a \<in> set items. known w a"
  shows "known w x"
proof -
  from assms(2) obtain u where "selectLoop n w items storageLabel s = (Ok (x, None), u)"
    by (auto simp: PromptGetSelect_def bindM_Ok_iff thenM_Ok_iff split: option.splits)
  with selectLoop_known [OF assms(1) _ assms(3)] show ?thesis by blast
qed

text \<open>
  The loop of \<^verbatim>\<open>PromptGetSelect\<close> looks at the index before it looks at the error: a selection that keeps failing
  with the index of a new entry is asked again for ever.
\<close>

lemma select_error_loops:
  assumes "\<And>t items. \<exists>x e. w_select w t items label = (-1, x, Some e)"
  shows "fst (PromptGetSelect n w items label s) = Panic outOfFuel"
proof -
  have "fst (selectLoop n w items label s) = Panic outOfFuel"
  proof (induction n arbitrary: items s)
    case (Suc n)
    obtain x e where "w_select w (trace s) items label = (-1, x, Some e)" using assms by blast
    with Suc.IH show ?case by (simp add: bindM_def ask_def)
  qed (simp add: panic_def)
  then show ?thesis by (cases "selectLoop n w items label s") (simp add: PromptGetSelect_def bindM_def)
qed

lemma fetchVCIP_known: "validates w \<Longrightarrow> fetchVCIP w c s = (Ok c', t) \<Longrightarrow> known w (vcIp c')"
  by (auto simp: fetchVCIP_def bindM_Ok_iff known_def dest: input_valid)

lemma fetch_keeps_address:
  "fetchThumbprint w c s = (Ok c', t) \<Longrightarrow> vcIp c' = vcIp c"
  "fetchCredentials w c s = (Ok c', t) \<Longrightarrow> vcIp c' = vcIp c"
  "fetchDatacenters w c s = (Ok c', t) \<Longrightarrow> vcIp c' = vcIp c"
  by (auto simp: fetchThumbprint_def fetchCredentials_def fetchDatacenters_def bindM_Ok_iff)

section \<open>What is stored\<close>

definition stores_known :: "'v world \<Rightarrow> call \<Rightarrow> bool" where
  "stores_known w c \<longleftrightarrow> (\<forall>vcc. c = CreateVCC vcc \<or> c = UpdateVCC vcc \<longrightarrow> known w (VcIP (VccSpec vcc)))"

lemma stores_known_simps [simp]:
  "stores_known w (Print x)" "stores_known w (PromptInput l f)" "stores_known w (PromptSelect xs l)"
  "stores_known w ListDeployments" "stores_known w (GetConfigMap k)" "stores_known w ListVDOConfigs"
  "stores_known w (CreateSecretReq x')" "stores_known w (UpdateSecretReq x')" "stores_known w (GetVCC k)"
  "stores_known w (CreateVDO v)" "stores_known w (CreateVCC c) = known w (VcIP (VccSpec c))"
  "stores_known w (UpdateVCC c) = known w (VcIP (VccSpec c))" "session_call r \<Longrightarrow> stores_known w r"
  by (auto simp: stores_known_def session_call_def)

abbreviation stores :: "'v world \<Rightarrow> St \<Rightarrow> St \<Rightarrow> bool" where
  "stores w \<equiv> emits (stores_known w)"

lemma fetch_stores [keeps_intro]:
  "keeps (stores w) (fetchVCIP v c)" "keeps (stores w) (fetchThumbprint v c)" "keeps (stores w) (fetchCredentials v c)"
  "keeps (stores w) (fetchDatacenters v c)" "keeps (stores w) (fetchNetPermissions n v)" "keeps (stores w) (openSession v c)"
  "keeps (stores w) (createSecret v c d)" "keeps (stores w) (csiRetry v c e)" "keeps (stores w) (permissionRound n v c)"
  "keeps (stores w) (askThumbprint v l)"
  unfolding fetchVCIP_def fetchThumbprint_def fetchCredentials_def fetchDatacenters_def fetchNetPermissions_def
    openSession_def createSecret_def csiRetry_def permissionRound_def askThumbprint_def Let_def
  by (intro keeps_intro keeps_emits_mono [OF GetOrCreate_emits]; simp)+

lemma createVcc_stores: "known w (vcIp c) \<Longrightarrow> keeps (stores w) (createVsphereCloudConfig v c x d)"
  unfolding createVsphereCloudConfig_def Let_def by (intro keeps_intro) simp_all

lemma storeCPI_stores: "known w (vcIp (cpiCred l)) \<Longrightarrow> keeps (stores w) (storeCPI v l)"
  unfolding storeCPI_def Let_def by (intro keeps_intro createVcc_stores) simp_all

lemma storeCSI_stores: "known w (vcIp c) \<Longrightarrow> keeps (stores w) (storeCSI v c)"
  unfolding storeCSI_def by (intro keeps_intro createVcc_stores)

text \<open>A loop whose rounds keep a relation as long as an invariant of its state holds.\<close>

lemma loopM_keeps_inv:
  assumes "P x" and "\<And>x. P x \<Longrightarrow> keeps (emits Q) (f x)" and "\<And>x s y t. P x \<Longrightarrow> f x s = (Ok (Inl y), t) \<Longrightarrow> P y"
  shows "keeps (emits Q) (loopM n f x)"
  using assms(1)
proof (induction n arbitrary: x)
  case (Suc n)
  then show ?case using assms(2,3) by (auto intro!: keeps_intro simp del: bindM_ret)
qed (auto intro: keeps_intro)

section \<open>The rounds\<close>

definition addresses :: "'v world \<Rightarrow> CpiLoop \<Rightarrow> bool" where
  "addresses w l \<longleftrightarrow> (cpiStage l \<noteq> MultiVc \<longrightarrow> known w (vcIp (cpiCred l))) \<and> (\<forall>a \<in> set (vcIPList l). known w a)"

lemma askThumbprint_Ok:
  "askThumbprint w l s = (Ok l', t) \<Longrightarrow>
   vcIp (cpiCred l') = vcIp (cpiCred l) \<and> vcIPList l' = vcIPList l \<and> cpiStage l' = cpiStage l"
  by (auto simp: askThumbprint_def bindM_Ok_iff thenM_Ok_iff split: if_splits dest!: fetch_keeps_address)

lemma storeCPI_Ok:
  assumes "storeCPI w l s = (Ok r, t)" and "known w (vcIp (cpiCred l))" "\<forall>a \<in> set (vcIPList l). known w a"
  shows "case r of Inl l' \<Rightarrow> addresses w l'
    | Inr l' \<Rightarrow> known w (vcIp (cpiCred l')) \<and> (\<forall>a \<in> set (vcIPList l'). known w a)"
  using assms by (auto simp: storeCPI_def Let_def bindM_Ok_iff nextVc_def addresses_def)

lemma cpiRound_addresses:
  assumes "validates w" "addresses w l"
  shows "keeps (stores w) (cpiRound w l)"
    and "cpiRound w l s = (Ok r, t) \<Longrightarrow> case r of Inl l' \<Rightarrow> addresses w l'
      | Inr l' \<Rightarrow> known w (vcIp (cpiCred l')) \<and> (\<forall>a \<in> set (vcIPList l'). known w a)"
proof -
  have first: "known w (vcIp (cpiCred l1)) \<and> vcIPList l1 = vcIPList l"
    if "(if cpiStage l = MultiVc then bindM (fetchVCIP w (cpiCred l)) (\<lambda>c. ret (l\<lparr>cpiCred := c\<rparr>)) else ret l) s = (Ok l1, t)" for l1 s t
    using that assms by (auto simp: bindM_Ok_iff addresses_def split: if_splits dest: fetchVCIP_known)
  have second: "vcIp (cpiCred l2) = vcIp (cpiCred l1) \<and> vcIPList l2 = vcIPList l1"
    if "(if cpiStage l1 = MultiVc \<or> cpiStage l1 = Thumb then askThumbprint w l1 else ret l1) s = (Ok l2, t)" for l1 l2 s t
    using that by (auto split: if_splits dest: askThumbprint_Ok)
  have third: "vcIp (cpiCred l3) = vcIp (cpiCred l2) \<and> vcIPList l3 = vcIPList l2"
    if "(if cpiStage l2 \<noteq> Dc then bindM (fetchCredentials w (cpiCred l2)) (\<lambda>c. ret (l2\<lparr>cpiCred := c\<rparr>)) else ret l2) s = (Ok l3, t)" for l2 l3 s t
    using that by (auto simp: bindM_Ok_iff split: if_splits dest: fetch_keeps_address)
  have list: "\<forall>a \<in> set (vcIPList l). known w a" using assms(2) by (simp add: addresses_def)
  show "keeps (stores w) (cpiRound w l)"
    unfolding cpiRound_def Let_def
    by (intro keeps_intro storeCPI_stores; (drule first second third fetch_keeps_address(3))+; simp)
  assume "cpiRound w l s = (Ok r, t)"
  then obtain l1 s1 l2 s2 l3 s3 c s4 q s5 where run:
    "(if cpiStage l = MultiVc then bindM (fetchVCIP w (cpiCred l)) (\<lambda>c. ret (l\<lparr>cpiCred := c\<rparr>)) else ret l) s = (Ok l1, s1)"
    "(if cpiStage l1 = MultiVc \<or> cpiStage l1 = Thumb then askThumbprint w l1 else ret l1) s1 = (Ok l2, s2)"
    "(if cpiStage l2 \<noteq> Dc then bindM (fetchCredentials w (cpiCred l2)) (\<lambda>c. ret (l2\<lparr>cpiCred := c\<rparr>)) else ret l2) s2 = (Ok l3, s3)"
    "fetchDatacenters w (cpiCred l3) s3 = (Ok c, s4)" "tryM (openSession w c) s4 = (Ok q, s5)"
    "(case q of Inl e \<Rightarrow> thenM (say (invalidMsg c e)) (ret (Inl (l3\<lparr>cpiCred := c, cpiStage := retryStage e\<rparr>)))
      | Inr _ \<Rightarrow> storeCPI w (l3\<lparr>cpiCred := c\<rparr>)) s5 = (Ok r, t)"
    by (auto simp: cpiRound_def Let_def bindM_Ok_iff)
  have k: "known w (vcIp c)" "\<forall>a \<in> set (vcIPList l3). known w a"
    using first [OF run(1)] second [OF run(2)] third [OF run(3)] fetch_keeps_address(3) [OF run(4)] list by simp_all
  show "case r of Inl l' \<Rightarrow> addresses w l'
      | Inr l' \<Rightarrow> known w (vcIp (cpiCred l')) \<and> (\<forall>a \<in> set (vcIPList l'). known w a)"
  proof (cases q)
    case (Inl e)
    with run(6) k show ?thesis by (auto simp: thenM_Ok_iff addresses_def)
  next
    case (Inr x)
    with run(6) storeCPI_Ok [of w "l3\<lparr>cpiCred := c\<rparr>"] k show ?thesis by simp
  qed
qed

lemma cpiLoop_addresses:
  assumes "validates w"
  shows "keeps (stores w) (loopM n (cpiRound w) startCPI)"
    and "loopM n (cpiRound w) startCPI s = (Ok l, t) \<Longrightarrow> known w (vcIp (cpiCred l)) \<and> (\<forall>a \<in> set (vcIPList l). known w a)"
proof -
  have start: "addresses w startCPI" by (simp add: addresses_def startCPI_def)
  show "keeps (stores w) (loopM n (cpiRound w) startCPI)"
    by (rule loopM_keeps_inv [where P = "addresses w", OF start cpiRound_addresses(1) [OF assms]])
      (auto dest: cpiRound_addresses(2) [OF assms])
  assume run: "loopM n (cpiRound w) startCPI s = (Ok l, t)"
  show "known w (vcIp (cpiCred l)) \<and> (\<forall>a \<in> set (vcIPList l). known w a)"
    by (rule loopM_invariant [where P = "\<lambda>l _. addresses w l" and
          Q = "\<lambda>l _. known w (vcIp (cpiCred l)) \<and> (\<forall>a \<in> set (vcIPList l). known w a)", OF run start])
      (auto dest: cpiRound_addresses(2) [OF assms])
qed

lemma configureCPI_addresses:
  assumes "validates w"
  shows "keeps (stores w) (configureCPI n w)"
    and "configureCPI n w s = (Ok l, t) \<Longrightarrow> known w (vcIp (cpiCred l)) \<and> (\<forall>a \<in> set (vcIPList l). known w a)"
proof -
  show "keeps (stores w) (configureCPI n w)"
    unfolding configureCPI_def by (intro keeps_intro cpiLoop_addresses(1) [OF assms]; simp)
  assume "configureCPI n w s = (Ok l, t)"
  then obtain s1 l1 s2 where loop: "loopM n (cpiRound w) startCPI s1 = (Ok l1, s2)"
    and same: "vcIp (cpiCred l) = vcIp (cpiCred l1)" "vcIPList l = vcIPList l1"
    by (auto simp: configureCPI_def bindM_Ok_iff thenM_Ok_iff split: if_splits)
  show "known w (vcIp (cpiCred l)) \<and> (\<forall>a \<in> set (vcIPList l). known w a)"
    using cpiLoop_addresses(2) [OF assms loop] same by simp
qed

lemma chooseStorageVC_known:
  assumes "validates w" "selects w" and "chooseStorageVC n w b l s = (Ok c, t)"
    and "b \<Longrightarrow> known w (vcIp (cpiCred l))" "\<forall>a \<in> set (vcIPList l). known w a"
  shows "known w (vcIp c)"
proof (cases "isCPIMultiVC l")
  case True
  with assms(3) obtain u where "PromptGetSelect n w (vcIPList l) storageLabel s = (Ok (vcIp c), u)"
    by (auto simp: chooseStorageVC_def storageLabel_def bindM_Ok_iff split: option.splits)
  then show ?thesis by (rule select_known [OF assms(2) _ assms(5)])
next
  case False
  then show ?thesis
    using assms(3,4) fetchVCIP_known [OF assms(1)]
    by (auto simp: chooseStorageVC_def bindM_Ok_iff thenM_Ok_iff dest!: fetch_keeps_address(1) split: if_splits)
qed

lemma csiRetry_known:
  assumes "validates w" "known w (vcIp c)" and "csiRetry w c e s = (Ok (st, c'), t)"
  shows "known w (vcIp c')"
  using assms(3) fetchVCIP_known [OF assms(1)] assms(2)
  by (auto simp: csiRetry_def bindM_Ok_iff thenM_Ok_iff dest!: fetch_keeps_address(1) split: if_splits)

lemma csiLoop_known:
  assumes "validates w" "known w (vcIp c)"
  shows "keeps (stores w) (loopM n (csiRound w) (st, c))"
    and "loopM n (csiRound w) (st, c) s = (Ok c', t) \<Longrightarrow> known w (vcIp c')"
proof -
  have round: "case r of Inl y \<Rightarrow> known w (vcIp (snd y)) | Inr z \<Rightarrow> known w (vcIp z)"
    if "csiRound w x s = (Ok r, t)" "known w (vcIp (snd x))" for x s r t
  proof -
    obtain st c where x: "x = (st, c)" by (cases x)
    from that(1) x obtain c1 s1 c2 s2 q s3 where run:
      "(if st \<noteq> Dc then fetchCredentials w c else ret c) s = (Ok c1, s1)" "fetchDatacenters w c1 s1 = (Ok c2, s2)"
      "tryM (openSession w c2) s2 = (Ok q, s3)" "(case q of Inl e \<Rightarrow> bindM (csiRetry w c2 e) (\<lambda>y. ret (Inl y)) | Inr _ \<Rightarrow> ret (Inr c2)) s3 = (Ok r, t)"
      by (auto simp: csiRound_def bindM_Ok_iff)
    have "vcIp c1 = vcIp c" using run(1) by (auto split: if_splits dest: fetch_keeps_address(2))
    with run(2) that(2) x have c2: "known w (vcIp c2)" by (auto dest: fetch_keeps_address(3))
    show ?thesis
    proof (cases q)
      case (Inl e)
      with run(4) obtain y where y: "csiRetry w c2 e s3 = (Ok y, t)" "r = Inl y" by (auto simp: bindM_Ok_iff)
      with csiRetry_known [OF assms(1) c2, of e s3 "fst y" "snd y" t] show ?thesis by simp
    next
      case (Inr x)
      with run(4) c2 show ?thesis by auto
    qed
  qed
  have quiet: "keeps (stores w) (csiRound w x)" for x
    unfolding csiRound_def by (intro keeps_intro; simp)
  show "keeps (stores w) (loopM n (csiRound w) (st, c))"
    by (rule loopM_keeps_inv [where P = "\<lambda>_. True", OF TrueI quiet TrueI])
  assume run: "loopM n (csiRound w) (st, c) s = (Ok c', t)"
  show "known w (vcIp c')"
    by (rule loopM_invariant [where P = "\<lambda>x _. known w (vcIp (snd x))" and Q = "\<lambda>c _. known w (vcIp c)", OF run])
      (use assms(2) round in \<open>force+\<close>)
qed

lemma dialogue_stores:
  assumes "validates w" "selects w"
  shows "keeps (stores w) (dialogue n w)"
proof -
  have cpi: "keeps (stores w) (if b then configureCPI n w else ret startCPI)" for b
    by (intro keeps_intro configureCPI_addresses(1) [OF assms(1)])
  have l: "(b \<longrightarrow> known w (vcIp (cpiCred l))) \<and> (\<forall>a \<in> set (vcIPList l). known w a)"
    if "(if b then configureCPI n w else ret startCPI) s = (Ok l, t)" for b l s t
    using that configureCPI_addresses(2) [OF assms(1)] by (auto simp: startCPI_def split: if_splits)
  have choose: "keeps (stores w) (chooseStorageVC n w b l)" "keeps (stores w) (askOptions n w c)" for b l c
    unfolding chooseStorageVC_def askOptions_def askFileVolumes_def
    by (intro keeps_intro loopM_keeps_inv [where P = "\<lambda>_. True"]; simp)+
  have c: "known w (vcIp c)" if "(if b then configureCPI n w else ret startCPI) s = (Ok l, t)"
    "chooseStorageVC n w b l s' = (Ok c, t')" for b l s t s' t' c
    using l [OF that(1)] by (intro chooseStorageVC_known [OF assms that(2)]) simp_all
  have d: "known w (vcIp d)" if "(if b then configureCPI n w else ret startCPI) s = (Ok l, t)"
    "chooseStorageVC n w b l s' = (Ok c, t')" "loopM n (csiRound w) (Creds, c) s2 = (Ok d, t2)" for b l s t s' t' c s2 t2 d
    by (rule csiLoop_known(2) [OF assms(1) c [OF that(1,2)] that(3)])
  show ?thesis
    unfolding dialogue_def
    by (intro keeps_intro configureCPI_addresses(1) [OF assms(1)] choose csiLoop_known(1) [OF assms(1)] storeCSI_stores;
        (erule (1) c | erule (2) d | simp))
qed

text \<open>
  C24. Every cloud configuration that \<^verbatim>\<open>vdoctl configure drivers\<close> writes has an address that passed the validation of
  the prompt, or one that the user added as a new entry in the selection of the storage vCenter, which
  validates nothing. The prompt returns only what its validation accepts, and a selection that is no
  new entry returns one of the entries.
\<close>

theorem stored_addresses_validated:
  assumes "drivers n w s = (r, t)" and "CreateVCC vcc \<in> set (new_calls s t) \<or> UpdateVCC vcc \<in> set (new_calls s t)"
    and "\<And>tr label flag x e. w_input w tr label flag = Inr x \<Longrightarrow> validate w e flag x = None"
    and "\<And>tr items label i x. w_select w tr items label = (i, x, None) \<Longrightarrow> 0 \<le> i \<Longrightarrow> x \<in> set items"
  shows "checkIPAddress w (VcIP (VccSpec vcc)) \<or> checkIfFQDN (VcIP (VccSpec vcc)) \<or>
    (\<exists>tr items e. w_select w tr items ''Please select vcenter for configuring StorageProvider'' = (-1, VcIP (VccSpec vcc), e))"
proof -
  have w: "validates w" "selects w" using assms(3,4) by (auto simp: validates_def selects_def)
  have may: "keeps (stores w) (mayConfigure w)"
    unfolding mayConfigure_def IsVDODeployed_def Let_def by (intro keeps_intro; simp)
  have store: "keeps (stores w) (createVDOConfig w cpi csi)" for cpi csi
    unfolding createVDOConfig_def by (intro keeps_intro; simp)
  have "keeps (stores w) (drivers n w)"
    unfolding drivers_def by (intro keeps_intro may store dialogue_stores [OF w]; simp)
  from keepsD [OF this assms(1)] have "list_all (stores_known w) (new_calls s t)" by (simp add: emits_def)
  with assms(2) have "known w (VcIP (VccSpec vcc))" by (auto simp: list_all_iff)
  then show ?thesis by (auto simp: known_def okAddr_def added_def storageLabel_def)
qed

text \<open>The user of \<open>answer_world\<close>, whose answers are all valid, and who selects the first entry.\<close>

lemma answer_valid:
  assumes "w_input answer_world tr label flag = Inr x"
  shows "validate answer_world e flag x = None"
proof -
  have "p_isIP answer_world = p_isIP down_world" "p_requestHost answer_world = (\<lambda>u. Inr u)"
    by (simp_all add: answer_world_def lab_world_def login_world_def)
  with assms show ?thesis
    by (auto simp: answer_world_def validate_def CheckIfUrl_def checkIPAddress_def split: if_splits)
qed

lemma answer_select:
  assumes "w_select answer_world tr items label = (i, x, None)" and "0 \<le> i"
  shows "x \<in> set items"
  using assms by (auto simp: answer_world_def split: if_splits)

theorem stored_addresses_validated_witness:
  "\<exists>t vcc. drivers 1 answer_world init_St = (Ok (), t) \<and> (CreateVCC vcc \<in> set (trace t) \<or> UpdateVCC vcc \<in> set (trace t)) \<and>
     (checkIPAddress answer_world (VcIP (VccSpec vcc)) \<or> checkIfFQDN (VcIP (VccSpec vcc)))"
proof -
  obtain t vdo where run: "drivers 1 answer_world init_St = (Ok (), t)" "CreateVDO vdo \<in> set (trace t)"
    using answer_run by blast
  have "checked answer_world (set (trace t)) (storage_config vdo)" using drivers_checked [OF run(1) _ run(2)] by simp
  then obtain vcc where vcc: "CreateVCC vcc \<in> set (trace t) \<or> UpdateVCC vcc \<in> set (trace t)" unfolding checked_def by blast
  then have "CreateVCC vcc \<in> set (new_calls init_St t) \<or> UpdateVCC vcc \<in> set (new_calls init_St t)" by (simp add: new_calls_def)
  from stored_addresses_validated [OF run(1) this answer_valid answer_select]
  have "checkIPAddress answer_world (VcIP (VccSpec vcc)) \<or> checkIfFQDN (VcIP (VccSpec vcc)) \<or>
    (\<exists>tr items e. w_select answer_world tr items ''Please select vcenter for configuring StorageProvider'' = (-1, VcIP (VccSpec vcc), e))" .
  moreover have "VcIP (VccSpec vcc) \<noteq> [] \<or> checkIPAddress answer_world (VcIP (VccSpec vcc))"
    by (simp add: checkIPAddress_def answer_world_def lab_world_def login_world_def)
  ultimately show ?thesis using run(1) vcc by (auto simp: answer_world_def split: if_splits)
qed

end
