(* ===== verification/Ctl_Commands.thy ===== *)
theory Ctl_Commands
  imports Ctl_Root Ctl_Validation
begin

text \<open>
  The commands of \<^verbatim>\<open>vdoctl\<close>: the tree that the \<^verbatim>\<open>init\<close> functions of \<^verbatim>\<open>vdoctl/cmd\<close> build, what each command runs, and
  the requests that a command line can lead to. Cobra is outside the repository: \<open>cobra\<close> is its reading of the
  arguments, of which \<open>cobra_finds\<close> says what its documentation promises. The end of the theory has the types of the
  API group (\<^verbatim>\<open>api/v1alpha1\<close>) and compares them with those that \<^verbatim>\<open>vdoctl\<close> adds.
\<close>

section \<open>The tree\<close>

datatype command = RootCmd | ConfigureCmd | MatrixConfigureCmd | DriversCmd | UpdateCmd | MatrixUpdateCmd
  | DeleteCmd | DeleteVdoCmd | DeployCmd | StatusCmd | VersionCmd

text \<open>
  The variables, without their help texts; the name of a command is the first word of \<^verbatim>\<open>Use\<close>. The field \<^verbatim>\<open>Run\<close> is
  \<open>runOf\<close> below.
\<close>

record Command =
  Use :: string
  Aliases :: "string list"

definition rootCmd :: Command where
  "rootCmd = \<lparr>Use = ''vdoctl'', Aliases = []\<rparr>"

definition configureCmd :: Command where
  "configureCmd = \<lparr>Use = ''configure'', Aliases = []\<rparr>"

definition matrixConfigureCmd :: Command where
  "matrixConfigureCmd = \<lparr>Use = ''compatibility-matrix'', Aliases = [''cm'']\<rparr>"

definition driversCmd :: Command where
  "driversCmd = \<lparr>Use = ''drivers'', Aliases = []\<rparr>"

definition updateCmd :: Command where
  "updateCmd = \<lparr>Use = ''update'', Aliases = [''u'']\<rparr>"

definition matrixUpdateCmd :: Command where
  "matrixUpdateCmd = \<lparr>Use = ''compatibility-matrix'', Aliases = [''cm'']\<rparr>"

definition deleteCmd :: Command where
  "deleteCmd = \<lparr>Use = ''delete'', Aliases = []\<rparr>"

definition deleteVdoCmd :: Command where
  "deleteVdoCmd = \<lparr>Use = ''vdo'', Aliases = []\<rparr>"

definition deployCmd :: Command where
  "deployCmd = \<lparr>Use = ''deploy --spec <path to spec file> (can be http or file based url'' @ [CHR 39] @ ''s)'', Aliases = []\<rparr>"

definition statusCmd :: Command where
  "statusCmd = \<lparr>Use = ''status'', Aliases = []\<rparr>"

definition versionCmd :: Command where
  "versionCmd = \<lparr>Use = ''version'', Aliases = []\<rparr>"

fun commandOf :: "command \<Rightarrow> Command" where
  "commandOf RootCmd = rootCmd"
| "commandOf ConfigureCmd = configureCmd"
| "commandOf MatrixConfigureCmd = matrixConfigureCmd"
| "commandOf DriversCmd = driversCmd"
| "commandOf UpdateCmd = updateCmd"
| "commandOf MatrixUpdateCmd = matrixUpdateCmd"
| "commandOf DeleteCmd = deleteCmd"
| "commandOf DeleteVdoCmd = deleteVdoCmd"
| "commandOf DeployCmd = deployCmd"
| "commandOf StatusCmd = statusCmd"
| "commandOf VersionCmd = versionCmd"

definition commandNames :: "command \<Rightarrow> string list" where
  "commandNames c = takeWhile (\<lambda>x. x \<noteq> CHR '' '') (Use (commandOf c)) # Aliases (commandOf c)"

lemmas command_defs = commandNames_def rootCmd_def configureCmd_def matrixConfigureCmd_def driversCmd_def updateCmd_def
  matrixUpdateCmd_def deleteCmd_def deleteVdoCmd_def deployCmd_def statusCmd_def versionCmd_def

text \<open>
  The \<^verbatim>\<open>init\<close> functions, each with its \<^verbatim>\<open>parent.AddCommand(child)\<close>; Go runs them in the order of the file names. The one
  of \<^verbatim>\<open>deploy.go\<close> marks a flag as required too.
\<close>

definition init_configure :: "command \<times> command" where
  "init_configure = (RootCmd, ConfigureCmd)"

definition init_configure_matrix :: "command \<times> command" where
  "init_configure_matrix = (ConfigureCmd, MatrixConfigureCmd)"

definition init_delete :: "command \<times> command" where
  "init_delete = (RootCmd, DeleteCmd)"

definition init_delete_vdo :: "command \<times> command" where
  "init_delete_vdo = (DeleteCmd, DeleteVdoCmd)"

definition init_deploy :: "command \<times> command" where
  "init_deploy = (RootCmd, DeployCmd)"

definition init_drivers :: "command \<times> command" where
  "init_drivers = (ConfigureCmd, DriversCmd)"

definition init_status :: "command \<times> command" where
  "init_status = (RootCmd, StatusCmd)"

definition init_update :: "command \<times> command" where
  "init_update = (RootCmd, UpdateCmd)"

definition init_update_matrix :: "command \<times> command" where
  "init_update_matrix = (UpdateCmd, MatrixUpdateCmd)"

definition init_version :: "command \<times> command" where
  "init_version = (RootCmd, VersionCmd)"

definition subcommands :: "(command \<times> command) list" where
  "subcommands =
     [init_configure, init_configure_matrix, init_delete, init_delete_vdo, init_deploy, init_drivers, init_status,
      init_update, init_update_matrix, init_version]"

lemmas tree_defs = subcommands_def init_configure_def init_configure_matrix_def init_delete_def init_delete_vdo_def
  init_deploy_def init_drivers_def init_status_def init_update_def init_update_matrix_def init_version_def

fun requiredFlags :: "command \<Rightarrow> string list" where
  "requiredFlags DeployCmd = [''spec'']"
| "requiredFlags _ = []"

text \<open>
  \<^verbatim>\<open>Run\<close>, for the value of \<^verbatim>\<open>--spec\<close> and the arguments after the command; the groups have none. The loops of a dialogue
  have the fuel \<open>n\<close>.
\<close>

fun runOf :: "nat \<Rightarrow> string \<Rightarrow> string list \<Rightarrow> command \<Rightarrow> ('v world \<Rightarrow> unit M) option" where
  "runOf n specfile args MatrixConfigureCmd = Some (configureMatrix n)"
| "runOf n specfile args DriversCmd = Some (drivers n)"
| "runOf n specfile args MatrixUpdateCmd = Some (\<lambda>w. updateMatrix w args)"
| "runOf n specfile args DeleteVdoCmd = Some deleteVdo"
| "runOf n specfile args DeployCmd = Some (\<lambda>w. deploy w specfile)"
| "runOf n specfile args StatusCmd = Some status"
| "runOf n specfile args VersionCmd = Some version"
| "runOf n specfile args _ = None"

section \<open>The command line\<close>

text \<open>
  What cobra finds: an error, its own help (None), or the commands from the root down to the chosen one, the arguments
  that are left and the flags, of which \<^verbatim>\<open>--spec\<close> may be missing.
\<close>

record Chosen =
  ChPath :: "command list"
  ChArgs :: "string list"
  ChConfig :: string
  ChKubeconfig :: string
  ChSpec :: "string option"

definition chosenCommand :: "Chosen \<Rightarrow> command" where
  "chosenCommand ch = last (RootCmd # ChPath ch)"

definition requestOf :: "nat \<Rightarrow> (string list \<Rightarrow> err + Chosen option) \<Rightarrow> string list \<Rightarrow> 'v request" where
  "requestOf n cobra args =
     (case cobra args of
        Inl e \<Rightarrow> BadCommand e
      | Inr None \<Rightarrow> ShowHelp
      | Inr (Some ch) \<Rightarrow>
          (case runOf n (case ChSpec ch of None \<Rightarrow> [] | Some f \<Rightarrow> f) (ChArgs ch) (chosenCommand ch) of
             None \<Rightarrow> ShowHelp
           | Some run \<Rightarrow> RunCommand (ChConfig ch) (ChKubeconfig ch) run))"

fun walks :: "command \<Rightarrow> command list \<Rightarrow> bool" where
  "walks c [] = True"
| "walks c (d # ds) = ((c, d) \<in> set subcommands \<and> walks d ds)"

text \<open>
  What cobra documents: it goes down the tree by names and aliases that stand among the arguments, and refuses a command
  without its required flags.
\<close>

definition cobra_finds :: "(string list \<Rightarrow> err + Chosen option) \<Rightarrow> bool" where
  "cobra_finds cobra \<longleftrightarrow> (\<forall>args ch. cobra args = Inr (Some ch) \<longrightarrow>
     walks RootCmd (ChPath ch) \<and> (\<forall>c \<in> set (ChPath ch). \<exists>a \<in> set args. a \<in> set (commandNames c)) \<and>
     (''spec'' \<in> set (requiredFlags (chosenCommand ch)) \<longrightarrow> ChSpec ch \<noteq> None))"

section \<open>What a request asks of the command line\<close>

text \<open>
  The words that a request needs, each with its alternatives; None is a request that no command makes.
\<close>

abbreviation "matrixWords \<equiv> [''compatibility-matrix'', ''cm'']"

definition demands :: "call \<Rightarrow> string list list option" where
  "demands c =
     (case c of
        CreateObject _ \<Rightarrow> Some [[''deploy'']]
      | DeleteNamespace _ \<Rightarrow> Some [[''delete''], [''vdo'']]
      | ListClusterRoleBindings _ \<Rightarrow> Some [[''delete''], [''vdo'']]
      | DeleteClusterRoleBinding _ \<Rightarrow> Some [[''delete''], [''vdo'']]
      | ListClusterRoles _ \<Rightarrow> Some [[''delete''], [''vdo'']]
      | DeleteClusterRole _ \<Rightarrow> Some [[''delete''], [''vdo'']]
      | ListVolumeAttachments \<Rightarrow> Some [[''update'', ''u''], matrixWords]
      | UpdateConfigMapReq _ \<Rightarrow> Some [[''update'', ''u''], matrixWords]
      | CreateNamespace _ \<Rightarrow> Some [[''configure''], matrixWords]
      | CreateConfigMapReq _ \<Rightarrow> Some [[''configure''], matrixWords]
      | CreateSecretReq _ \<Rightarrow> Some [[''configure''], [''drivers'']]
      | UpdateSecretReq _ \<Rightarrow> Some [[''configure''], [''drivers'']]
      | CreateVCC _ \<Rightarrow> Some [[''configure''], [''drivers'']]
      | UpdateVCC _ \<Rightarrow> Some [[''configure''], [''drivers'']]
      | CreateVDO _ \<Rightarrow> Some [[''configure''], [''drivers'']]
      | PromptInput _ _ \<Rightarrow> Some [[''configure'']]
      | PromptSelect _ _ \<Rightarrow> Some [[''configure'']]
      | _ \<Rightarrow> if ctl_read c then Some [] else None)"

definition allowed :: "string list list \<Rightarrow> call \<Rightarrow> bool" where
  "allowed words c \<longleftrightarrow> (case demands c of None \<Rightarrow> False | Some ws \<Rightarrow> list_all (\<lambda>w. w \<in> set words) ws)"

lemma allowed_read: "ctl_read c \<Longrightarrow> allowed words c"
  by (cases c) (auto simp: allowed_def demands_def ctl_read_def reading_call_def session_call_def readonly_call_def)

lemma allowed_calls [simp]:
  "allowed words (CreateObject x1) = ([''deploy''] \<in> set words)"
  "allowed words (DeleteNamespace x2) = ([''delete''] \<in> set words \<and> [''vdo''] \<in> set words)"
  "allowed words (ListClusterRoleBindings x2) = ([''delete''] \<in> set words \<and> [''vdo''] \<in> set words)"
  "allowed words (DeleteClusterRoleBinding x2) = ([''delete''] \<in> set words \<and> [''vdo''] \<in> set words)"
  "allowed words (ListClusterRoles x2) = ([''delete''] \<in> set words \<and> [''vdo''] \<in> set words)"
  "allowed words (DeleteClusterRole x2) = ([''delete''] \<in> set words \<and> [''vdo''] \<in> set words)"
  "allowed words ListVolumeAttachments = ([''update'', ''u''] \<in> set words \<and> matrixWords \<in> set words)"
  "allowed words (UpdateConfigMapReq x3) = ([''update'', ''u''] \<in> set words \<and> matrixWords \<in> set words)"
  "allowed words (CreateNamespace x2) = ([''configure''] \<in> set words \<and> matrixWords \<in> set words)"
  "allowed words (CreateConfigMapReq x3) = ([''configure''] \<in> set words \<and> matrixWords \<in> set words)"
  "allowed words (CreateSecretReq x4) = ([''configure''] \<in> set words \<and> [''drivers''] \<in> set words)"
  "allowed words (UpdateSecretReq x4) = ([''configure''] \<in> set words \<and> [''drivers''] \<in> set words)"
  "allowed words (CreateVCC x5) = ([''configure''] \<in> set words \<and> [''drivers''] \<in> set words)"
  "allowed words (UpdateVCC x5) = ([''configure''] \<in> set words \<and> [''drivers''] \<in> set words)"
  "allowed words (CreateVDO x6) = ([''configure''] \<in> set words \<and> [''drivers''] \<in> set words)"
  "allowed words (PromptInput x7 x8) = ([''configure''] \<in> set words)"
  "allowed words (PromptSelect x9 x7) = ([''configure''] \<in> set words)"
  "allowed words (Print x7)" "allowed words ListDeployments" "allowed words (GetConfigMap x10)" "allowed words (GetVCC x10)"
  "allowed words ListVDOConfigs" "allowed words (ReadFile x2)" "session_call r \<Longrightarrow> allowed words r"
  by (simp_all add: allowed_def demands_def allowed_read [unfolded allowed_def demands_def])

section \<open>What each command requests\<close>

lemma spec_allowed: "spec_call CREATE c \<Longrightarrow> [''deploy''] \<in> set words \<Longrightarrow> allowed words c"
  by (cases c) (auto simp: spec_call_def object_call_def readonly_call_def intro: allowed_read)

lemma deploy_allowed:
  assumes "[''deploy''] \<in> set words"
  shows "keeps (emits (allowed words)) (deploy w f)"
  unfolding deploy_def
  by (intro keeps_intro keeps_emits_mono [OF ParseAndProcess_emits]) (use assms in \<open>auto intro: spec_allowed simp: spec_call_def\<close>)

lemma deleteVdo_allowed:
  assumes "[''delete''] \<in> set words" "[''vdo''] \<in> set words"
  shows "keeps (emits (allowed words)) (deleteVdo w)"
  unfolding deleteVdo_def unlessMissing_def listOrExit_def by (intro keeps_intro) (use assms in simp_all)

lemma updateMatrix_allowed:
  assumes "[''update'', ''u''] \<in> set words" "matrixWords \<in> set words"
  shows "keeps (emits (allowed words)) (updateMatrix w args)"
  unfolding updateMatrix_def updateMatrixConfigMap_def readMatrixFile_def GenerateYamlFromFilePath_def Let_def
  by (intro keeps_intro) (use assms in simp_all)

lemma configureMatrix_allowed:
  assumes "[''configure''] \<in> set words" "matrixWords \<in> set words"
  shows "keeps (emits (allowed words)) (configureMatrix n w)"
  unfolding configureMatrix_def enterMatrix_def CreateMatrixConfigMap_def readMatrixFile_def GenerateYamlFromFilePath_def Let_def
  by (intro keeps_intro) (use assms in simp_all)

lemma drivers_allowed:
  assumes "[''configure''] \<in> set words" "[''drivers''] \<in> set words"
  shows "keeps (emits (allowed words)) (drivers n w)"
proof -
  let ?Q = "allowed words"
  have fetch: "keeps (emits ?Q) (fetchVCIP w c)" "keeps (emits ?Q) (fetchThumbprint w c)" "keeps (emits ?Q) (fetchCredentials w c)"
    "keeps (emits ?Q) (fetchDatacenters w c)" "keeps (emits ?Q) (fetchNetPermissions n w)" "keeps (emits ?Q) (openSession w c)"
    "keeps (emits ?Q) (createSecret w c d)" "keeps (emits ?Q) (createVsphereCloudConfig w c d e)" "keeps (emits ?Q) (createVDOConfig w c c')"
    "keeps (emits ?Q) (mayConfigure w)" for c d e c' n
    unfolding fetchVCIP_def fetchThumbprint_def fetchCredentials_def fetchDatacenters_def fetchNetPermissions_def
      openSession_def createSecret_def createVsphereCloudConfig_def createVDOConfig_def mayConfigure_def Let_def
    by (intro keeps_intro keeps_emits_mono [OF GetOrCreate_emits]; use assms in simp)+
  have loop: "keeps (emits ?Q) (loopM n f x)" if "\<And>x. keeps (emits ?Q) (f x)" for n f x
    using that by (rule loopM_keeps_inv [where P = "\<lambda>_. True", OF TrueI _ TrueI])
  have "keeps (emits ?Q) (cpiRound w l)" "keeps (emits ?Q) (csiRound w x)" "keeps (emits ?Q) (storeCSI w c)"
    "keeps (emits ?Q) (permissionRound n w c)" for l x c n
    unfolding cpiRound_def askThumbprint_def storeCPI_def csiRound_def csiRetry_def storeCSI_def permissionRound_def Let_def
    by (intro keeps_intro fetch; use assms in simp)+
  then show ?thesis
    unfolding drivers_def dialogue_def configureCPI_def chooseStorageVC_def askOptions_def askFileVolumes_def
    by (intro keeps_intro loop fetch; use assms in simp)
qed

text \<open>The ways down the tree.\<close>

lemma walks_cases:
  assumes "walks RootCmd cs"
  shows "cs \<in> set [[], [ConfigureCmd], [ConfigureCmd, MatrixConfigureCmd], [ConfigureCmd, DriversCmd], [UpdateCmd],
    [UpdateCmd, MatrixUpdateCmd], [DeleteCmd], [DeleteCmd, DeleteVdoCmd], [DeployCmd], [StatusCmd], [VersionCmd]]"
proof (cases cs)
  case c: (Cons c ds)
  show ?thesis
  proof (cases ds)
    case Nil
    with assms c show ?thesis by (auto simp: tree_defs)
  next
    case (Cons d es)
    with assms c show ?thesis by (cases es) (auto simp: tree_defs)
  qed
qed simp

lemma command_names [simp]:
  "commandNames ConfigureCmd = [''configure'']" "commandNames MatrixConfigureCmd = matrixWords"
  "commandNames DriversCmd = [''drivers'']" "commandNames UpdateCmd = [''update'', ''u'']"
  "commandNames MatrixUpdateCmd = matrixWords" "commandNames DeleteCmd = [''delete'']" "commandNames DeleteVdoCmd = [''vdo'']"
  "commandNames DeployCmd = [''deploy'']" "commandNames StatusCmd = [''status'']" "commandNames VersionCmd = [''version'']"
  by (simp_all add: command_defs)

lemma run_allowed:
  assumes "walks RootCmd cs" and "runOf n f args (last (RootCmd # cs)) = Some run"
  shows "keeps (emits (allowed (map commandNames cs))) (run w)"
  using walks_cases [OF assms(1)] assms(2)
  by (auto intro!: deploy_allowed deleteVdo_allowed updateMatrix_allowed configureMatrix_allowed drivers_allowed
      keeps_emits_mono [OF status_read allowed_read] keeps_emits_mono [OF version_read allowed_read])

lemma execute_runs:
  assumes "vdoctl_main h q args w s = (past, x, t)"
  shows "t = s \<or> (\<exists>config kube run r. q (drop 1 args) = RunCommand config kube run \<and> run w s = (r, t))"
  using assms by (auto simp: vdoctl_main_def execute_def split: if_splits prod.splits request.splits sum.splits cli_end.splits)

text \<open>
  C6. What a line of \<^verbatim>\<open>vdoctl\<close> can do is what its words say. Whatever the command line, the cluster and the answers of
  the user: every request of the process is one that a command makes, and if it is more than reading, the words of this
  command - or an alias - stand among the arguments. So the namespace and the roles are deleted only for
  \<^verbatim>\<open>delete vdo\<close>, a specification is applied only for \<^verbatim>\<open>deploy\<close>, the ConfigMap of the matrix is written only for
  \<^verbatim>\<open>configure\<close> or \<^verbatim>\<open>update\<close> with \<^verbatim>\<open>compatibility-matrix\<close>, the resources of the operator only for
  \<^verbatim>\<open>configure drivers\<close>, and nodes, daemon sets and the status of the resources never.
\<close>

theorem request_needs_words:
  assumes "cobra_finds cobra" and "vdoctl_main h (requestOf n cobra) args w s = (past, x, t)"
  shows "trace t = trace s @ new_calls s t \<and>
    (\<forall>c \<in> set (new_calls s t). \<exists>ws. demands c = Some ws \<and> (\<forall>alts \<in> set ws. \<exists>a \<in> set (drop 1 args). a \<in> set alts))"
proof -
  from execute_runs [OF assms(2)] show ?thesis
  proof (elim disjE exE conjE)
    assume "t = s"
    then show ?thesis by (simp add: new_calls_def)
  next
    fix config kube run r
    assume q: "requestOf n cobra (drop 1 args) = RunCommand config kube run" and run: "run w s = (r, t)"
    then obtain ch f where ch: "cobra (drop 1 args) = Inr (Some ch)" "runOf n f (ChArgs ch) (chosenCommand ch) = Some run"
      by (auto simp: requestOf_def split: sum.splits option.splits)
    with assms(1) have walk: "walks RootCmd (ChPath ch)"
      and words: "\<forall>c \<in> set (ChPath ch). \<exists>a \<in> set (drop 1 args). a \<in> set (commandNames c)"
      unfolding cobra_finds_def by blast+
    have "emits (allowed (map commandNames (ChPath ch))) s t"
      by (rule keepsD [OF run_allowed [OF walk ch(2) [unfolded chosenCommand_def]] run])
    then have "trace t = trace s @ new_calls s t" "list_all (allowed (map commandNames (ChPath ch))) (new_calls s t)"
      by (auto simp: emits_def)
    moreover have "\<exists>ws. demands c = Some ws \<and> (\<forall>alts \<in> set ws. \<exists>a \<in> set (drop 1 args). a \<in> set alts)"
      if "allowed (map commandNames (ChPath ch)) c" for c
      using that words by (cases "demands c") (auto simp: allowed_def list_all_iff)
    ultimately show ?thesis by (simp add: list_all_iff)
  qed
qed

text \<open>A reading of the arguments for the witness: it knows \<^verbatim>\<open>vdoctl delete vdo\<close> only.\<close>

definition delete_line :: "string list \<Rightarrow> err + Chosen option" where
  "delete_line args =
     (if args = [''delete'', ''vdo'', ''--kubeconfig=/tmp/kc'']
      then Inr (Some \<lparr>ChPath = [DeleteCmd, DeleteVdoCmd], ChArgs = [], ChConfig = [], ChKubeconfig = ''/tmp/kc'', ChSpec = None\<rparr>)
      else Inl (Msg ''unknown command''))"

theorem request_needs_words_witness:
  "\<exists>past x t. vdoctl_main (\<lambda>_ _. None) (requestOf 5 delete_line) [''vdoctl'', ''delete'', ''vdo'', ''--kubeconfig=/tmp/kc'']
      clean_world init_St = (past, x, t) \<and> trace t \<noteq> [] \<and>
     (\<forall>c \<in> set (trace t). \<exists>ws. demands c = Some ws \<and>
        (\<forall>alts \<in> set ws. \<exists>a \<in> set [''delete'', ''vdo'', ''--kubeconfig=/tmp/kc'']. a \<in> set alts))"
proof -
  let ?args = "[''vdoctl'', ''delete'', ''vdo'', ''--kubeconfig=/tmp/kc'']"
  have finds: "cobra_finds delete_line"
    by (auto simp: cobra_finds_def delete_line_def tree_defs chosenCommand_def split: if_splits)
  obtain past x t where m: "vdoctl_main (\<lambda>_ _. None) (requestOf 5 delete_line) ?args clean_world init_St = (past, x, t)"
    by (metis prod_cases3)
  have "vdoctl_main (\<lambda>_ _. None) (requestOf 5 delete_line) ?args clean_world init_St =
      ([UserHomeDir, ReadInConfig ''.vdoctl'', BuildConfigFromFlags ''/tmp/kc'', NewClient ''/tmp/kc'', AddToScheme vdoTypes],
       exitOf (fst (deleteVdo clean_world init_St)), snd (deleteVdo clean_world init_St))"
    by (simp add: vdoctl_main_def requestOf_def delete_line_def chosenCommand_def execute_def initConfig_def stepCli_def
        chooseCluster_def generateK8sClient_def split: prod.split)
  with m have t: "t = snd (deleteVdo clean_world init_St)" by simp
  have "starts ListDeployments (\<lambda>_. True) (deleteVdo clean_world)"
    unfolding deleteVdo_def IsVDODeployed_def unlessMissing_def listOrExit_def Let_def
    by (intro starts_intro keeps_intro) simp_all
  from startsD [OF this prod.collapse [symmetric], of init_St] have "ListDeployments \<in> set (trace t)" by (auto simp: t)
  with request_needs_words [OF finds m] m show ?thesis by (auto simp: new_calls_def)
qed

section \<open>The types of the API group\<close>

text \<open>
  The group and version of \<^verbatim>\<open>api/v1alpha1\<close> and of \<^verbatim>\<open>vdoctl\<close>, and the types that the \<^verbatim>\<open>init\<close> functions of the three type
  files hand to \<^verbatim>\<open>SchemeBuilder.Register\<close>, call by call.
\<close>

record GroupVersion =
  Group :: string
  Version :: string

definition apiGroupVersion :: GroupVersion where
  "apiGroupVersion = \<lparr>Group = ''vdo.vmware.com'', Version = ''v1alpha1''\<rparr>"

definition SchemeGroupVersion :: GroupVersion where
  "SchemeGroupVersion = \<lparr>Group = ''vdo.vmware.com'', Version = ''v1alpha1''\<rparr>"

definition registeredTypes :: "string list list" where
  "registeredTypes =
     [[''CompatibilityConfig'', ''CompatibilityConfigList''], [''VDOConfig'', ''VDOConfigList''],
      [''VsphereCloudConfig'', ''VsphereCloudConfigList'']]"

text \<open>\<^verbatim>\<open>vdoctl\<close> knows the types it adds under the same group and version as the operator; it does not know
  \<^verbatim>\<open>CompatibilityConfig\<close>, which it never asks for.\<close>

lemma vdoctl_types:
  "SchemeGroupVersion = apiGroupVersion \<and> set vdoTypes \<subseteq> set (concat registeredTypes) \<and>
   set (concat registeredTypes) - set vdoTypes = {''CompatibilityConfig'', ''CompatibilityConfigList''}"
  by (auto simp: SchemeGroupVersion_def apiGroupVersion_def vdoTypes_def registeredTypes_def)

end
