(* ===== verification/Frame.thy ===== *)
theory Frame
  imports Vdo_Reconcile
begin

text \<open>
  Two worlds that differ in the cloud configurations they show only. Operations that do not read a cloud
  configuration do the same in both, and a run of \<open>Reconcile\<close> does the same if the two show the same
  configurations from its start on and nothing that it sends changes them.
\<close>

section \<open>Operations that read no cloud configuration\<close>

text \<open>\<open>with_configs w f\<close> is the world \<open>w\<close> with the answers \<open>f\<close> to the requests for cloud configurations.\<close>

abbreviation with_configs :: "'v world \<Rightarrow> (call list \<Rightarrow> NamespacedName \<Rightarrow> err + VsphereCloudConfig) \<Rightarrow> 'v world" where
  "with_configs w f \<equiv> w\<lparr>w_getVCC := f\<rparr>"

named_theorems frame \<open>operations that do not depend on the cloud configurations shown\<close>

lemmas case_congs = if_cong option.case_cong sum.case_cong prod.case_cong list.case_cong Action.case_cong

text \<open>Spec files.\<close>

lemma applyYamlSpec_frame [frame]: "applyYamlSpec (with_configs w f) = applyYamlSpec w"
  by (intro ext) (simp add: applyYamlSpec_def frame Let_def cong: case_congs)
lemma processObj_frame [frame]: "processObj (with_configs w f) = processObj w"
  by (intro ext) (simp add: processObj_def frame Let_def cong: case_congs)
lemma processDoc_frame [frame]: "processDoc (with_configs w f) = processDoc w"
  by (intro ext) (simp add: processDoc_def frame Let_def cong: case_congs)
lemma ParseAndProcessK8sObjects_frame [frame]: "ParseAndProcessK8sObjects (with_configs w f) = ParseAndProcessK8sObjects w"
  by (intro ext) (simp add: ParseAndProcessK8sObjects_def frame Let_def cong: case_congs)
lemma GenerateYamlFromUrl_frame [frame]: "GenerateYamlFromUrl (with_configs w f) = GenerateYamlFromUrl w"
  by (intro ext) (simp add: GenerateYamlFromUrl_def frame Let_def cong: case_congs)
lemma GenerateYamlFromFilePath_frame [frame]: "GenerateYamlFromFilePath (with_configs w f) = GenerateYamlFromFilePath w"
  by (intro ext) (simp add: GenerateYamlFromFilePath_def frame Let_def cong: case_congs)
lemma readSpec_frame [frame]: "readSpec (with_configs w f) = readSpec w"
  by (intro ext) (simp add: readSpec_def frame Let_def cong: case_congs)
lemma ParseMatrixYaml_frame [frame]: "ParseMatrixYaml (with_configs w f) = ParseMatrixYaml w"
  by (intro ext) (simp add: ParseMatrixYaml_def frame Let_def cong: case_congs)

text \<open>Sessions and credentials.\<close>

lemma newClient_frame [frame]: "newClient (with_configs w f) = newClient w"
  by (intro ext) (simp add: newClient_def frame Let_def cong: case_congs)
lemma sessionActive_frame [frame]: "sessionActive (with_configs w f) = sessionActive w"
  by (intro ext) (simp add: sessionActive_def frame Let_def cong: case_congs)
lemma cachedSession_frame [frame]: "cachedSession (with_configs w f) = cachedSession w"
  by (intro ext) (simp add: cachedSession_def frame Let_def cong: case_congs)
lemma findDatacenters_frame [frame]: "findDatacenters (with_configs w f) = findDatacenters w"
  by (intro ext) (simp add: findDatacenters_def frame Let_def cong: case_congs)
lemma createSession_frame [frame]: "createSession (with_configs w f) = createSession w"
  by (intro ext) (simp add: createSession_def frame Let_def cong: case_congs)
lemma GetOrCreate_frame [frame]: "GetOrCreate (with_configs w f) = GetOrCreate w"
  by (intro ext) (simp add: GetOrCreate_def frame Let_def cong: case_congs)
lemma fetchVcCredentials_frame [frame]: "fetchVcCredentials (with_configs w f) = fetchVcCredentials w"
  by (intro ext) (simp add: fetchVcCredentials_def frame Let_def cong: case_congs)
lemma getVcSession_frame [frame]: "getVcSession (with_configs w f) = getVcSession w"
  by (intro ext) (simp add: getVcSession_def frame Let_def cong: case_congs)

text \<open>Status updates and the versions of the drivers.\<close>

lemma statusUpdateVDO_frame [frame]: "statusUpdateVDO (with_configs w f) = statusUpdateVDO w"
  by (intro ext) (simp add: statusUpdateVDO_def cong: case_congs)
lemma updateCPIPhase_frame [frame]: "updateCPIPhase (with_configs w f) = updateCPIPhase w"
  by (intro ext) (simp add: updateCPIPhase_def frame Let_def cong: case_congs)
lemma updateCSIPhase_frame [frame]: "updateCSIPhase (with_configs w f) = updateCSIPhase w"
  by (intro ext) (simp add: updateCSIPhase_def frame Let_def cong: case_congs)
lemma updateVdoConfigWithNodeStatus_frame [frame]: "updateVdoConfigWithNodeStatus (with_configs w f) = updateVdoConfigWithNodeStatus w"
  by (intro ext) (simp add: updateVdoConfigWithNodeStatus_def frame Let_def cong: case_congs)
lemma updateCPIStatusForError_frame [frame]: "updateCPIStatusForError (with_configs w f) = updateCPIStatusForError w"
  by (intro ext) (simp add: updateCPIStatusForError_def frame Let_def cong: case_congs)
lemma updateCSIStatusForError_frame [frame]: "updateCSIStatusForError (with_configs w f) = updateCSIStatusForError w"
  by (intro ext) (simp add: updateCSIStatusForError_def frame Let_def cong: case_congs)
lemma applyYaml_frame [frame]: "applyYaml (with_configs w f) = applyYaml w"
  by (intro ext) (simp add: applyYaml_def frame Let_def cong: case_congs)
lemma applyAll_frame [frame]: "applyAll (with_configs w f) = applyAll w"
  by (intro ext) (simp add: applyAll_def frame Let_def cong: case_congs)
lemma deleteAll_frame [frame]: "deleteAll (with_configs w f) = deleteAll w"
  by (intro ext) (simp add: deleteAll_def frame Let_def cong: case_congs)
lemma reconcileCPIDeployment_frame [frame]: "reconcileCPIDeployment (with_configs w f) = reconcileCPIDeployment w"
  by (simp add: reconcileCPIDeployment_def frame Let_def cong: case_congs)
lemma reconcileCSIDeployment_frame [frame]: "reconcileCSIDeployment (with_configs w f) = reconcileCSIDeployment w"
  by (simp add: reconcileCSIDeployment_def frame Let_def cong: case_congs)
lemma deleteCPIDeployment_frame [frame]: "deleteCPIDeployment (with_configs w f) = deleteCPIDeployment w"
  by (simp add: deleteCPIDeployment_def frame Let_def cong: case_congs)
lemma deleteCSIDeployment_frame [frame]: "deleteCSIDeployment (with_configs w f) = deleteCSIDeployment w"
  by (simp add: deleteCSIDeployment_def frame Let_def cong: case_congs)
lemma compareVersions_frame [frame]: "compareVersions (with_configs w f) = compareVersions w"
  by (intro ext) (simp add: compareVersions_def frame Let_def cong: case_congs)
lemma compareSkewVersions_frame [frame]: "compareSkewVersions (with_configs w f) = compareSkewVersions w"
  by (intro ext) (simp add: compareSkewVersions_def frame Let_def cong: case_congs)
lemma csiMatches_frame [frame]: "csiMatches (with_configs w f) = csiMatches w"
  by (intro ext) (simp add: csiMatches_def frame Let_def cong: case_congs)
lemma cpiMatches_frame [frame]: "cpiMatches (with_configs w f) = cpiMatches w"
  by (intro ext) (simp add: cpiMatches_def frame Let_def cong: case_congs)
lemma selectCSI_frame [frame]: "selectCSI (with_configs w f) = selectCSI w"
  by (intro ext) (simp add: selectCSI_def frame Let_def cong: case_congs)
lemma selectCPI_frame [frame]: "selectCPI (with_configs w f) = selectCPI w"
  by (intro ext) (simp add: selectCPI_def frame Let_def cong: case_congs)
lemma FetchCsiDeploymentYamls_frame [frame]: "FetchCsiDeploymentYamls (with_configs w f) = FetchCsiDeploymentYamls w"
  by (intro ext) (simp add: FetchCsiDeploymentYamls_def frame Let_def cong: case_congs)
lemma FetchCpiDeploymentYamls_frame [frame]: "FetchCpiDeploymentYamls (with_configs w f) = FetchCpiDeploymentYamls w"
  by (intro ext) (simp add: FetchCpiDeploymentYamls_def frame Let_def cong: case_congs)

text \<open>The check of the versions, without the configurations.\<close>

lemma updateMatrixInfo_frame [frame]: "updateMatrixInfo (with_configs w f) = updateMatrixInfo w"
  by (intro ext) (simp add: updateMatrixInfo_def frame Let_def cong: case_congs)
lemma Fetchk8sVersions_frame [frame]: "Fetchk8sVersions (with_configs w f) = Fetchk8sVersions w"
  by (simp add: Fetchk8sVersions_def frame Let_def cong: case_congs)
lemma createCSINamespace_frame [frame]: "createCSINamespace (with_configs w f) = createCSINamespace w"
  by (simp add: createCSINamespace_def frame Let_def cong: case_congs)
lemma deleteCSINamespace_frame [frame]: "deleteCSINamespace (with_configs w f) = deleteCSINamespace w"
  by (simp add: deleteCSINamespace_def frame Let_def cong: case_congs)
lemma readMatrix_frame [frame]: "readMatrix (with_configs w f) = readMatrix w"
  by (intro ext) (simp add: readMatrix_def frame Let_def cong: case_congs)
lemma placeCSINamespace_frame [frame]: "placeCSINamespace (with_configs w f) = placeCSINamespace w"
  by (simp add: placeCSINamespace_def frame Let_def cong: case_congs)

text \<open>Secrets, nodes and rollout.\<close>

lemma CreateVsphereConfig_frame [frame]: "CreateVsphereConfig (with_configs w f) = CreateVsphereConfig w"
  by (intro ext) (simp add: CreateVsphereConfig_def frame Let_def cong: case_congs)
lemma CreateCSISecretConfig_frame [frame]: "CreateCSISecretConfig (with_configs w f) = CreateCSISecretConfig w"
  by (intro ext) (simp add: CreateCSISecretConfig_def frame Let_def cong: case_congs)
lemma addCPISection_frame [frame]: "addCPISection (with_configs w f) = addCPISection w"
  by (intro ext) (simp add: addCPISection_def frame Let_def cong: case_congs)
lemma cpiSecretDataMap_frame [frame]: "cpiSecretDataMap (with_configs w f) = cpiSecretDataMap w"
  by (intro ext) (simp add: cpiSecretDataMap_def frame Let_def cong: case_congs)
lemma createCPISecret_frame [frame]: "createCPISecret (with_configs w f) = createCPISecret w"
  by (intro ext) (simp add: createCPISecret_def frame Let_def cong: case_congs)
lemma updateCPISecret_frame [frame]: "updateCPISecret (with_configs w f) = updateCPISecret w"
  by (intro ext) (simp add: updateCPISecret_def frame Let_def cong: case_congs)
lemma reconcileCPISecret_frame [frame]: "reconcileCPISecret (with_configs w f) = reconcileCPISecret w"
  by (intro ext) (simp add: reconcileCPISecret_def frame Let_def cong: case_congs)
lemma createCPIConfigMap_frame [frame]: "createCPIConfigMap (with_configs w f) = createCPIConfigMap w"
  by (intro ext) (simp add: createCPIConfigMap_def frame Let_def cong: case_congs)
lemma updateCPIConfigMap_frame [frame]: "updateCPIConfigMap (with_configs w f) = updateCPIConfigMap w"
  by (intro ext) (simp add: updateCPIConfigMap_def frame Let_def cong: case_congs)
lemma reconcileConfigMap_frame [frame]: "reconcileConfigMap (with_configs w f) = reconcileConfigMap w"
  by (intro ext) (simp add: reconcileConfigMap_def frame Let_def cong: case_congs)
lemma createCSISecretObj_frame [frame]: "createCSISecretObj (with_configs w f) = createCSISecretObj w"
  by (intro ext) (simp add: createCSISecretObj_def frame Let_def cong: case_congs)
lemma updateCSISecretObj_frame [frame]: "updateCSISecretObj (with_configs w f) = updateCSISecretObj w"
  by (intro ext) (simp add: updateCSISecretObj_def frame Let_def cong: case_congs)
lemma reconcileCSISecret_frame [frame]: "reconcileCSISecret (with_configs w f) = reconcileCSISecret w"
  by (intro ext) (simp add: reconcileCSISecret_def frame Let_def cong: case_congs)
lemma GetVMByIP_frame [frame]: "GetVMByIP (with_configs w f) = GetVMByIP w"
  proof (intro ext)
  have "GetVMByIP (with_configs w f) ip dcs = GetVMByIP w ip dcs" for ip dcs
    by (induction dcs arbitrary: ip) (simp_all add: Let_def)
  then show "GetVMByIP (with_configs w f) ip dcs s = GetVMByIP w ip dcs s" for ip dcs s by simp
qed
lemma checkNodeExistence_frame [frame]: "checkNodeExistence (with_configs w f) = checkNodeExistence w"
  proof (intro ext)
  have "checkNodeExistence (with_configs w f) cs n = checkNodeExistence w cs n" for cs n
    by (induction cs) (simp_all add: frame Let_def cong: case_congs)
  then show "checkNodeExistence (with_configs w f) cs n s = checkNodeExistence w cs n s" for cs n s by simp
qed
lemma nodeStep_frame [frame]: "nodeStep (with_configs w f) = nodeStep w"
  by (intro ext) (simp add: nodeStep_def frame Let_def cong: case_congs)
lemma reconcileNodeProviderID_frame [frame]: "reconcileNodeProviderID (with_configs w f) = reconcileNodeProviderID w"
  by (intro ext) (simp add: reconcileNodeProviderID_def frame Let_def cong: case_congs)
lemma labelStep_frame [frame]: "labelStep (with_configs w f) = labelStep w"
  by (intro ext) (simp add: labelStep_def frame Let_def cong: case_congs)
lemma reconcileNodeLabel_frame [frame]: "reconcileNodeLabel (with_configs w f) = reconcileNodeLabel w"
  by (intro ext) (simp add: reconcileNodeLabel_def frame Let_def cong: case_congs)
lemma fetchDaemonSetPodStatus_frame [frame]: "fetchDaemonSetPodStatus (with_configs w f) = fetchDaemonSetPodStatus w"
  by (intro ext) (simp add: fetchDaemonSetPodStatus_def frame Let_def cong: case_congs)
lemma verifyCSINodeStatus_frame [frame]: "verifyCSINodeStatus (with_configs w f) = verifyCSINodeStatus w"
  by (simp add: verifyCSINodeStatus_def frame Let_def cong: case_congs)
lemma verifyCSIDriverRegisteration_frame [frame]: "verifyCSIDriverRegisteration (with_configs w f) = verifyCSIDriverRegisteration w"
  by (simp add: verifyCSIDriverRegisteration_def frame Let_def cong: case_congs)
lemma reconcileCPIDeploymentStatus_frame [frame]: "reconcileCPIDeploymentStatus (with_configs w f) = reconcileCPIDeploymentStatus w"
  by (simp add: reconcileCPIDeploymentStatus_def frame Let_def cong: case_congs)
lemma reconcileCSIDeploymentStatus_frame [frame]: "reconcileCSIDeploymentStatus (with_configs w f) = reconcileCSIDeploymentStatus w"
  by (simp add: reconcileCSIDeploymentStatus_def frame Let_def cong: case_congs)
lemma updateCSIDaemonSet_frame [frame]: "updateCSIDaemonSet (with_configs w f) = updateCSIDaemonSet w"
  by (intro ext) (simp add: updateCSIDaemonSet_def frame Let_def cong: case_congs)
lemma updateCSIConfigmap_frame [frame]: "updateCSIConfigmap (with_configs w f) = updateCSIConfigmap w"
  by (simp add: updateCSIConfigmap_def frame Let_def cong: case_congs)
lemma requireVerified_frame [frame]: "requireVerified (with_configs w f) = requireVerified w"
  by (intro ext) (simp add: requireVerified_def frame Let_def cong: case_congs)
lemma deployCPI_frame [frame]: "deployCPI (with_configs w f) = deployCPI w"
  by (simp add: deployCPI_def frame Let_def cong: case_congs)
lemma markCPIDeployed_frame [frame]: "markCPIDeployed (with_configs w f) = markCPIDeployed w"
  by (simp add: markCPIDeployed_def frame Let_def cong: case_congs)
lemma syncNodes_frame [frame]: "syncNodes (with_configs w f) = syncNodes w"
  by (intro ext) (simp add: syncNodes_def frame Let_def cong: case_congs)
lemma deployCSI_frame [frame]: "deployCSI (with_configs w f) = deployCSI w"
  by (simp add: deployCSI_def frame Let_def cong: case_congs)
lemma switchCSINodeId_frame [frame]: "switchCSINodeId (with_configs w f) = switchCSINodeId w"
  by (simp add: switchCSINodeId_def frame Let_def cong: case_congs)
lemma moveKubeletPath_frame [frame]: "moveKubeletPath (with_configs w f) = moveKubeletPath w"
  by (simp add: moveKubeletPath_def frame Let_def cong: case_congs)
lemma markCSIDeployed_frame [frame]: "markCSIDeployed (with_configs w f) = markCSIDeployed w"
  by (simp add: markCSIDeployed_def frame Let_def cong: case_congs)

section \<open>Runs that agree\<close>

text \<open>
  \<open>agrees P m n\<close>: from a state whose trace satisfies \<open>P\<close>, \<open>m\<close> and \<open>n\<close> do the same, and \<open>P\<close> holds again at the end.
\<close>

definition agrees :: "(call list \<Rightarrow> bool) \<Rightarrow> 'a M \<Rightarrow> 'a M \<Rightarrow> bool" where
  "agrees P m n \<longleftrightarrow> (\<forall>s. P (trace s) \<longrightarrow> n s = m s \<and> P (trace (snd (m s))))"

named_theorems agrees_intro \<open>rules that prove that two operations agree\<close>

lemma agreesD: "agrees P m n \<Longrightarrow> P (trace s) \<Longrightarrow> m s = (r, t) \<Longrightarrow> n s = (r, t) \<and> P (trace t)"
  by (metis agrees_def snd_conv)

lemma agreesI: "(\<And>s r t. P (trace s) \<Longrightarrow> m s = (r, t) \<Longrightarrow> n s = (r, t) \<and> P (trace t)) \<Longrightarrow> agrees P m n"
  by (auto simp: agrees_def prod_eq_iff)

lemma agrees_bindM [agrees_intro]:
  assumes "agrees P m n" and "\<And>x. agrees P (k x) (l x)"
  shows "agrees P (bindM m k) (bindM n l)"
proof (rule agreesI)
  fix s r t assume P: "P (trace s)" and run: "bindM m k s = (r, t)"
  obtain q u where m: "m s = (q, u)" by force
  from agreesD [OF assms(1) P m] have n: "n s = (q, u)" and Pu: "P (trace u)" by auto
  show "bindM n l s = (r, t) \<and> P (trace t)"
  proof (cases q)
    case (Ok x)
    with run m have "k x u = (r, t)" by (simp add: bindM_def)
    from agreesD [OF assms(2) Pu this] Ok n show ?thesis by (simp add: bindM_def)
  qed (use run m n Pu in \<open>auto simp: bindM_def\<close>)
qed

lemma agrees_thenM [agrees_intro]: "agrees P m n \<Longrightarrow> agrees P k l \<Longrightarrow> agrees P (thenM m k) (thenM n l)"
  unfolding thenM_def by (rule agrees_bindM)

lemma agrees_wrapM [agrees_intro]: "agrees P m n \<Longrightarrow> agrees P (wrapM msg m) (wrapM msg n)"
  by (auto simp: agrees_def snd_wrapM) (simp add: wrapM_def)

lemma agrees_tryM: "agrees P m n \<Longrightarrow> agrees P (tryM m) (tryM n)"
  by (auto simp: agrees_def snd_tryM) (simp add: tryM_def)

lemma agrees_pure [agrees_intro]: "agrees P (ret x) (ret x)" "agrees P (throw e) (throw e)" "agrees P (getS f) (getS f)"
  "agrees P (liftO v) (liftO v)" "agrees P (modCfg h) (modCfg h)" "agrees P (panic p) (panic p)"
  by (simp_all add: agrees_def)

lemma agrees_onErr [agrees_intro]:
  assumes "agrees P m n" and "\<And>e. agrees P (h e) (h e)"
  shows "agrees P (onErr m h) (onErr n h)"
proof -
  have "agrees P (case v of Inl e \<Rightarrow> thenM (h e) (throw e) | Inr x \<Rightarrow> ret x) (case v of Inl e \<Rightarrow> thenM (h e) (throw e) | Inr x \<Rightarrow> ret x)" for v
    using assms(2) by (cases v) (auto intro: agrees_intro)
  then show ?thesis unfolding onErr_def by (intro agrees_bindM agrees_tryM assms(1))
qed

lemma agrees_mapM [agrees_intro]: "(\<And>x. agrees P (f x) (g x)) \<Longrightarrow> agrees P (mapM f xs) (mapM g xs)"
  by (induction xs) (auto intro!: agrees_intro)

lemma agrees_cases [agrees_intro]:
  "(b \<Longrightarrow> agrees P m n) \<Longrightarrow> (\<not> b \<Longrightarrow> agrees P k l) \<Longrightarrow> agrees P (if b then m else k) (if b then n else l)"
  "(\<And>a c. q = (a, c) \<Longrightarrow> agrees P (i a c) (j a c)) \<Longrightarrow> agrees P (case q of (a, c) \<Rightarrow> i a c) (case q of (a, c) \<Rightarrow> j a c)"
  by (auto split: prod.split)

text \<open>What the world shows of the cloud configurations is not changed by what \<open>Reconcile\<close> sends.\<close>

definition frozen :: "'v world \<Rightarrow> bool" where
  "frozen w \<longleftrightarrow> (\<forall>t c. permitted c \<longrightarrow> w_getVCC w (t @ [c]) = w_getVCC w t)"

definition shows_configs :: "'v world \<Rightarrow> (NamespacedName \<Rightarrow> err + VsphereCloudConfig) \<Rightarrow> call list \<Rightarrow> bool" where
  "shows_configs w g t \<longleftrightarrow> w_getVCC w t = g"

lemma frozen_append: "frozen w \<Longrightarrow> list_all permitted cs \<Longrightarrow> w_getVCC w (t @ cs) = w_getVCC w t"
proof (induction cs arbitrary: t)
  case (Cons c cs)
  have "w_getVCC w ((t @ [c]) @ cs) = w_getVCC w (t @ [c])" using Cons by (intro Cons.IH) simp_all
  also have "\<dots> = w_getVCC w t" using Cons.prems by (simp add: frozen_def)
  finally show ?case by simp
qed simp

lemma agrees_same:
  assumes "frozen w" and "keeps (emits permitted) m"
  shows "agrees (shows_configs w g) m m"
proof (rule agreesI)
  fix s r t assume "shows_configs w g (trace s)" and run: "m s = (r, t)"
  from keepsD [OF assms(2) run] obtain cs where "trace t = trace s @ cs" "list_all permitted cs" by (rule emitsE)
  then show "m s = (r, t) \<and> shows_configs w g (trace t)"
    using frozen_append [OF assms(1)] run \<open>shows_configs w g (trace s)\<close> by (simp add: shows_configs_def)
qed

lemma agrees_request:
  assumes "frozen w" and "permitted c" and "\<And>t. shows_configs w g t \<Longrightarrow> f t = h t"
  shows "agrees (shows_configs w g) (ask c f) (ask c h)"
  unfolding agrees_def ask_def using assms by (auto simp: shows_configs_def frozen_def)

lemma permitted_reading: "reading_call c \<Longrightarrow> permitted c"
  by (rule reconcile_permitted) (simp add: reconcile_call_def)

lemma permitted_calls:
  "cpi_call c \<Longrightarrow> permitted c" "csi_call c \<Longrightarrow> permitted c" "check_call c \<Longrightarrow> permitted c"
  by (rule reconcile_permitted, simp add: reconcile_call_def)+

section \<open>Reconcile with its configurations frozen\<close>

text \<open>\<open>g\<close> are the configurations that the world shows when the run starts.\<close>

lemma agrees_fetch:
  assumes "frozen w"
  shows "agrees (shows_configs w g) (fetchVSphereCloudConfig w n ns) (fetchVSphereCloudConfig (with_configs w (\<lambda>t. g)) n ns)"
  unfolding fetchVSphereCloudConfig_def Let_def
  by (intro agrees_intro agrees_request [OF assms] permitted_reading) (simp_all add: shows_configs_def)

lemma agrees_versions:
  assumes "frozen w"
  shows "agrees (shows_configs w g) (FetchVsphereVersions w req) (FetchVsphereVersions (with_configs w (\<lambda>t. g)) req)"
  unfolding FetchVsphereVersions_def Let_def frame
  by (intro agrees_intro agrees_fetch [OF assms] agrees_same [OF assms] keeps_intro permitted_reading)

lemma agrees_check:
  assumes "frozen w"
  shows "agrees (shows_configs w g) (CheckCompatAndRetrieveSpec w req m) (CheckCompatAndRetrieveSpec (with_configs w (\<lambda>t. g)) req m)"
proof -
  have spec: "permitted c" if "spec_call DELETE c" for c
    using that by (intro permitted_calls(3)) (simp add: check_call_def)
  note fetch = cpi_driver.fetch_emits [OF spec] csi_driver.fetch_emits [OF spec]
  have place: "keeps (emits permitted) (placeCSINamespace w)"
    by (rule keeps_emits_mono [OF placeCSINamespace_check permitted_calls(3)])
  show ?thesis
    unfolding CheckCompatAndRetrieveSpec_def frame
    by (intro agrees_intro agrees_versions [OF assms] agrees_same [OF assms] fetch place keeps_intro permitted_reading)
qed

lemma agrees_items:
  assumes "frozen w"
  shows "agrees (shows_configs w g) (fetchVsphereCloudConfigItems w req l)
    (fetchVsphereCloudConfigItems (with_configs w (\<lambda>t. g)) req l)"
proof -
  have "keeps (emits cpi_call) (updateCPIStatusForError w e m)" for e m
    by (intro keeps_intro; simp)
  note status = keeps_emits_mono [OF this permitted_calls(1)]
  show ?thesis
    unfolding fetchVsphereCloudConfigItems_def fetchItem_def frame
    by (intro agrees_intro agrees_fetch [OF assms] agrees_same [OF assms] status)
qed

lemma agrees_CPI:
  assumes "frozen w"
  shows "agrees (shows_configs w g) (reconcileCPIConfiguration w req) (reconcileCPIConfiguration (with_configs w (\<lambda>t. g)) req)"
proof -
  have e: "keeps (emits permitted) m" if "keeps (emits cpi_call) m" for m :: "unit M"
    using keeps_emits_mono [OF that permitted_calls(1)] .
  show ?thesis
    unfolding reconcileCPIConfiguration_def Let_def frame
    by (intro agrees_bindM [OF agrees_pure(3)] agrees_cases(1) agrees_pure agrees_bindM [OF agrees_items [OF assms]]
        agrees_same [OF assms] e) (unfold cpi_parts, intro keeps_intro; simp)
qed

lemma agrees_CSI:
  assumes "frozen w"
  shows "agrees (shows_configs w g) (reconcileCSIConfiguration w req) (reconcileCSIConfiguration (with_configs w (\<lambda>t. g)) req)"
proof -
  have e: "keeps (emits permitted) m" if "keeps (emits csi_call) m" for m :: "unit M"
    using keeps_emits_mono [OF that permitted_calls(2)] .
  have status: "keeps (emits permitted) (updateCPIStatusForError w x m)" for x m
    by (rule e) (intro keeps_intro; simp)
  show ?thesis
    unfolding reconcileCSIConfiguration_def frame
    by (intro agrees_bindM [OF agrees_bindM [OF agrees_pure(3) agrees_onErr [OF agrees_fetch [OF assms]]]]
        agrees_same [OF assms] status e) (unfold csi_parts, intro keeps_intro; simp)
qed

lemma agrees_drivers:
  assumes "frozen w"
  shows "agrees (shows_configs w g) (reconcileDrivers w req) (reconcileDrivers (with_configs w (\<lambda>t. g)) req)"
proof -
  have new: "agrees (shows_configs w g) (ask NewClientset (w_newClientset w)) (ask NewClientset (w_newClientset w))"
    by (rule agrees_request [OF assms permitted_reading]) simp_all
  show ?thesis
    unfolding reconcileDrivers_def
    by (simp, intro agrees_intro agrees_check [OF assms] agrees_CPI [OF assms] agrees_CSI [OF assms] new)
qed

text \<open>A run that starts with the right configurations is a run in a world that always shows them.\<close>

lemma Reconcile_frozen:
  assumes "frozen w"
  shows "Reconcile w req s = Reconcile (with_configs w (\<lambda>t. w_getVCC w (trace s))) req s"
proof -
  let ?P = "shows_configs w (w_getVCC w (trace s))"
  let ?w = "with_configs w (\<lambda>t. w_getVCC w (trace s))"
  have info: "agrees ?P (updateMatrixInfo w req) (updateMatrixInfo w req)"
    by (rule agrees_same [OF assms]) (intro keeps_intro permitted_reading)
  have list: "agrees ?P (ask ListVDOConfigs (w_listVDO w)) (ask ListVDOConfigs (w_listVDO w))"
    by (rule agrees_request [OF assms permitted_reading]) simp_all
  have one: "agrees ?P (case l of [c] \<Rightarrow> thenM (modCfg (\<lambda>_. c)) (case splitRequest req of (n, q) \<Rightarrow>
        if skipNode n c then ret () else reconcileDrivers w q) | _ \<Rightarrow> throw e)
      (case l of [c] \<Rightarrow> thenM (modCfg (\<lambda>_. c)) (case splitRequest req of (n, q) \<Rightarrow>
        if skipNode n c then ret () else reconcileDrivers ?w q) | _ \<Rightarrow> throw e)" for l e
    by (auto split: list.split intro!: agrees_intro agrees_drivers [OF assms])
  have rest: "agrees ?P
    (thenM (updateMatrixInfo w req) (bindM (ask ListVDOConfigs (w_listVDO w)) (\<lambda>l. case l of
        [c] \<Rightarrow> thenM (modCfg (\<lambda>_. c)) (case splitRequest req of (n, q) \<Rightarrow>
          if skipNode n c then ret () else reconcileDrivers w q) | _ \<Rightarrow> throw (Msg ''VDOConfig resource not found''))))
    (thenM (updateMatrixInfo w req) (bindM (ask ListVDOConfigs (w_listVDO w)) (\<lambda>l. case l of
        [c] \<Rightarrow> thenM (modCfg (\<lambda>_. c)) (case splitRequest req of (n, q) \<Rightarrow>
          if skipNode n c then ret () else reconcileDrivers ?w q) | _ \<Rightarrow> throw (Msg ''VDOConfig resource not found''))))"
    by (intro agrees_thenM agrees_bindM info list one)
  have "?P (trace (s\<lparr>VDO_NAMESPACE := n\<rparr>))" for n by (simp add: shows_configs_def)
  from rest [unfolded agrees_def, rule_format, OF this] show ?thesis
    by (simp add: Reconcile_def thenM_def bindM_def frame)
qed

end
