(* ===== verification/Progress.thy ===== *)
theory Progress
  imports Vdo_Phases
begin

text \<open>
  Progress: in a cluster where nothing stands in the way, one run of \<open>Reconcile\<close> brings the drivers from
  whatever phases they are in to Configured and Deployed. The weakest precondition \<open>wp m Q\<close> is that of total
  correctness: the run of \<open>m\<close> ends without an error or a panic, and in a state that satisfies \<open>Q\<close>.
\<close>

section \<open>Weakest preconditions\<close>

definition wp :: "'a M \<Rightarrow> ('a \<Rightarrow> St \<Rightarrow> bool) \<Rightarrow> St \<Rightarrow> bool" where
  "wp m Q s \<longleftrightarrow> (\<exists>x t. m s = (Ok x, t) \<and> Q x t)"

lemma wp_pure [simp]:
  "wp (ret x) Q = Q x" "wp (getS f) Q = (\<lambda>s. Q (f s) s)" "wp (liftO r) Q = (\<lambda>s. \<exists>x. r = Ok x \<and> Q x s)"
  by (auto simp: wp_def)

lemma wp_mod [simp]: "wp (modS g) Q = (\<lambda>s. Q () (g s))" "wp (modCfg h) Q = (\<lambda>s. Q () (s\<lparr>cfg := h (cfg s)\<rparr>))"
  by (auto simp: wp_def)

lemma wp_ask [simp]: "wp (ask c f) Q = (\<lambda>s. \<exists>x. f (trace s) = Inr x \<and> Q x (s\<lparr>trace := trace s @ [c]\<rparr>))"
  by (auto simp: wp_def ask_def)

lemma wp_bindM [simp]: "wp (bindM m k) Q = wp m (\<lambda>x. wp (k x) Q)"
  by (rule ext) (auto simp: wp_def runs)

lemma wp_thenM [simp]: "wp (thenM m k) Q = wp m (\<lambda>_. wp k Q)"
  by (rule ext) (auto simp: wp_def runs)

lemma wp_wrapped [simp]: "wp (wrapM msg m) Q = wp m Q" "wp (onErr m h) Q = wp m Q"
  by (auto simp: wp_def runs)

lemma wp_deferM [simp]: "wp (deferM m k) Q = wp m (\<lambda>x t. Q x (snd (k t)))"
  by (auto simp: wp_def runs fun_eq_iff)

text \<open>A request whose error the code looks at.\<close>

lemma wp_tryM [simp]: "wp (tryM (ask c f)) Q = (\<lambda>s. Q (f (trace s)) (s\<lparr>trace := trace s @ [c]\<rparr>))"
proof
  show "wp (tryM (ask c f)) Q s = Q (f (trace s)) (s\<lparr>trace := trace s @ [c]\<rparr>)" for s
    by (cases "f (trace s)") (auto simp: wp_def tryM_def ask_def)
qed

lemma wp_mono: "wp m P s \<Longrightarrow> (\<And>x t. P x t \<Longrightarrow> Q x t) \<Longrightarrow> wp m Q s"
  by (auto simp: wp_def)

text \<open>What a run leaves alone.\<close>

lemma wp_fixed:
  assumes "wp m P s" and "keeps (fixes_field f) m" and "\<And>x t. P x t \<Longrightarrow> f t = f s \<Longrightarrow> Q x t"
  shows "wp m Q s"
proof -
  from assms(1) obtain x t where run: "m s = (Ok x, t)" "P x t" by (auto simp: wp_def)
  from keepsD [OF assms(2) run(1)] have "f t = f s" by (simp add: fixes_field_def)
  with run assms(3) show ?thesis by (auto simp: wp_def)
qed

lemma wp_forM: "I s \<Longrightarrow> (\<And>x s. x \<in> set xs \<Longrightarrow> I s \<Longrightarrow> wp (f x) (\<lambda>_. I) s) \<Longrightarrow> wp (forM f xs) (\<lambda>_. I) s"
  by (induction xs arbitrary: s) (auto intro: wp_mono)

lemma wp_foldM:
  "I s \<Longrightarrow> (\<And>x acc s. x \<in> set xs \<Longrightarrow> I s \<Longrightarrow> wp (f x acc) (\<lambda>_. I) s) \<Longrightarrow> wp (foldM f xs acc) (\<lambda>_. I) s"
proof (induction xs arbitrary: s acc)
  case (Cons x xs)
  from Cons.prems(2) [OF _ Cons.prems(1)] have "wp (f x acc) (\<lambda>_. I) s" by simp
  then show ?case by (simp, elim wp_mono) (rule Cons.IH, simp_all add: Cons.prems(2))
qed simp

lemma wp_mapM:
  "I s \<Longrightarrow> (\<And>x s. x \<in> set xs \<Longrightarrow> I s \<Longrightarrow> wp (f x) (\<lambda>y t. P y \<and> I t) s) \<Longrightarrow>
   wp (mapM f xs) (\<lambda>ys t. length ys = length xs \<and> (\<forall>y \<in> set ys. P y) \<and> I t) s"
proof (induction xs arbitrary: s)
  case (Cons x xs)
  from Cons.prems(2) [OF _ Cons.prems(1)] have one: "wp (f x) (\<lambda>y t. P y \<and> I t) s" by simp
  have rest: "wp (mapM f xs) (\<lambda>ys t. length ys = length xs \<and> (\<forall>y \<in> set ys. P y) \<and> I t) t" if "I t" for t
    using that by (intro Cons.IH) (simp_all add: Cons.prems(2))
  from one show ?case by (simp, elim wp_mono) (rule wp_mono [OF rest], auto)
qed simp

text \<open>What a driver's run does not change: everything but the trace, the cache and the configuration.\<close>

definition bare :: "St \<Rightarrow> St" where
  "bare s = s\<lparr>trace := [], sessionCache := [], cfg := empty_cfg\<rparr>"

lemma bare_simps [simp]:
  "bare (s\<lparr>trace := l\<rparr>) = bare s" "bare (s\<lparr>cfg := c\<rparr>) = bare s" "bare (s\<lparr>sessionCache := x\<rparr>) = bare s"
  "bare (s\<lparr>cfg := c, trace := l\<rparr>) = bare s"
  by (simp_all add: bare_def)

lemma bareD:
  "bare t = bare s \<Longrightarrow> CsiDeploymentYamls t = CsiDeploymentYamls s \<and> CpiDeploymentYamls t = CpiDeploymentYamls s \<and>
   CurrentCSIDeployedVersion t = CurrentCSIDeployedVersion s \<and> CsiNamespace t = CsiNamespace s \<and> environ t = environ s"
  by (cases s, cases t) (simp add: bare_def)

section \<open>A healthy cluster\<close>

definition accepts :: "(call list \<Rightarrow> 'a \<Rightarrow> err + 'b) \<Rightarrow> bool" where
  "accepts f \<longleftrightarrow> (\<forall>t x. \<exists>y. f t x = Inr y)"

definition accepts_new :: "(call list \<Rightarrow> 'a \<Rightarrow> err + 'b) \<Rightarrow> bool" where
  "accepts_new f \<longleftrightarrow> (\<forall>t x e. f t x = Inl e \<longrightarrow> IsAlreadyExists e)"

definition finds_or_lacks :: "(call list \<Rightarrow> 'a \<Rightarrow> err + 'b) \<Rightarrow> bool" where
  "finds_or_lacks f \<longleftrightarrow> (\<forall>t x e. f t x = Inl e \<longrightarrow> IsNotFound e)"

text \<open>The API server is reachable and lets the operator do what it asks for.\<close>

definition api_up :: "'v world \<Rightarrow> bool" where
  "api_up w \<longleftrightarrow> status_echo w \<and> status_accepts w \<and>
     finds_or_lacks (w_getSecret w) \<and> accepts (w_createSecret w) \<and> accepts (w_updateSecret w) \<and>
     finds_or_lacks (w_getConfigMap w) \<and> accepts_new (w_createConfigMap w) \<and> accepts (w_updateConfigMap w) \<and>
     accepts_new (w_createNamespace w) \<and> finds_or_lacks (w_deleteNamespace w) \<and>
     accepts_new (w_createObject w) \<and> accepts (w_updateNode w) \<and> accepts (w_updateDaemonSet w) \<and>
     (\<forall>t. \<exists>u. w_newClientset w t = Inr u) \<and> (\<forall>t. \<exists>u. w_newDiscovery w t = Inr u) \<and>
     (\<forall>t. \<exists>v. w_serverVersion w t = Inr v)"

text \<open>The drivers' pods run, and every node is initialised and known to the storage driver.\<close>

definition pods_up :: "'v world \<Rightarrow> bool" where
  "pods_up w \<longleftrightarrow>
     (\<forall>t k. \<exists>ds. w_getDaemonSet w t k = Inr ds \<and> NumberUnavailable ds \<le> 0 \<and> host_paths ds) \<and>
     (\<forall>t ns l. \<exists>pods. w_listPods w t ns l = Inr pods \<and> list_all (\<lambda>p. PodPhaseOf p = PodRunning) pods) \<and>
     (\<forall>t. \<exists>nodes. w_listNodes w t = Inr nodes \<and> nodes \<noteq> [] \<and> list_all (\<lambda>n. ProviderID n \<noteq> []) nodes) \<and>
     (\<forall>t. \<exists>names. w_listCSINodes w t = Inr names \<and>
        (\<forall>t nodes. w_listNodes w t = Inr nodes \<longrightarrow> list_all (\<lambda>n. NodeName n \<in> set names) nodes)) \<and>
     (\<forall>t. \<exists>ds. w_listCSIDrivers w t = Inr ds \<and> ds \<noteq> [])"

text \<open>The files of the operator's pod.\<close>

definition files_up :: "'v world \<Rightarrow> bool" where
  "files_up w \<longleftrightarrow> accepts (w_openFile w) \<and> accepts (w_truncateFile w) \<and>
     (\<forall>t f x. \<exists>u. w_writeFile w t f x = Inr u) \<and>
     (\<forall>t. \<exists>c. w_readFile w t CSI_SECRET_CONFIG_FILE = Inr c \<and> p_iniLoad w c = Inr ())"

text \<open>
  A vCenter that lets the operator in: the configuration is verified, its secret exists, its address is a URL.
  \<open>V\<close> are the vSphere versions of the vCenters.
\<close>

definition usable :: "'v world \<Rightarrow> VsphereCloudConfig \<Rightarrow> bool" where
  "usable w c \<longleftrightarrow> ConfigState (VccStatus c) = VsphereConfigVerified \<and> Credentials (VccSpec c) \<noteq> [] \<and>
     (\<forall>t. \<exists>x. w_getSecret w t \<lparr>NnNamespace = VC_CREDS_SECRET_NS, NnName = Credentials (VccSpec c)\<rparr> = Inr x) \<and>
     (\<exists>url. p_parseURL w (VcIP (VccSpec c)) = Inr (Some url))"

definition vcenters_up :: "'v world \<Rightarrow> string set \<Rightarrow> NamespacedName set \<Rightarrow> bool" where
  "vcenters_up w V keys \<longleftrightarrow>
     (\<forall>t. \<forall>k \<in> keys. \<exists>c. w_getVCC w t k = Inr c \<and> usable w c) \<and>
     (\<forall>t url i th. \<exists>c. w_newVimClient w t url i th = Inr c \<and> AboutVersion c \<in> V) \<and>
     (\<forall>t c url. \<exists>u. w_login w t c url = Inr u) \<and> (\<forall>t c n. \<exists>d. w_findDatacenter w t c n = Inr d)"

text \<open>\<open>serves w t path txt\<close>: the spec file or URL has the given content.\<close>

definition serves :: "'v world \<Rightarrow> call list \<Rightarrow> string \<Rightarrow> string \<Rightarrow> bool" where
  "serves w t path txt \<longleftrightarrow>
     (if Contains path ''file://'' then w_readFile w t (Replace1 path ''file:/'' []) = Inr txt
      else (\<exists>r. w_httpGet w t path = Inr r \<and> StatusCode r = 200 \<and> Body r = Inr txt))"

definition specs_up :: "'v world \<Rightarrow> string list \<Rightarrow> bool" where
  "specs_up w paths \<longleftrightarrow> (\<forall>t. \<forall>p \<in> set paths. \<exists>txt. serves w t p txt \<and> decodes w txt)"

definition matrix_up :: "'v world \<Rightarrow> string \<Rightarrow> string \<Rightarrow> CompatMatrix \<Rightarrow> bool" where
  "matrix_up w url content m \<longleftrightarrow>
     url = [] \<and> content \<noteq> [] \<and> p_jsonMatrix w content = Inr m \<or>
     url \<noteq> [] \<and> content = [] \<and> (\<forall>t. \<exists>txt. serves w t url txt \<and> p_jsonMatrix w txt = Inr m)"

text \<open>
  The matrix supports the cluster: for vSphere versions among \<open>V\<close> and every version of Kubernetes that
  the cluster can report it has versions of both drivers, with readable spec files.
\<close>

definition csi_ready :: "'v world \<Rightarrow> string \<Rightarrow> bool" where
  "csi_ready w ver \<longleftrightarrow> (\<exists>b. compareVersions w ''2.3.0'' ver ''100.0.0'' = Inr b) \<and>
     (\<exists>b. compareVersions w ''2.5.0'' ver ''100.0.0'' = Inr b \<and>
        (b \<longrightarrow> (\<forall>t ns. \<exists>cm. w_getConfigMap w t \<lparr>NnNamespace = ns, NnName = CSI_FSS_CONFIGMAP\<rparr> = Inr cm)))"

definition supported :: "'v world \<Rightarrow> CompatMatrix \<Rightarrow> string set \<Rightarrow> bool" where
  "supported w m V \<longleftrightarrow> (\<forall>t major minor vs. w_serverVersion w t = Inr (major, minor) \<and> vs \<noteq> [] \<and> set vs \<subseteq> V \<longrightarrow>
     (\<exists>v. selectCPI w m vs (major @ ''.'' @ minor) = Inr v \<and> v \<noteq> [] \<and> specs_up w (CpiDeploymentPaths (cpiInfo m v))) \<and>
     (\<exists>v. selectCSI w m vs (major @ ''.'' @ minor) = Inr v \<and> v \<noteq> [] \<and> specs_up w (CsiDeploymentPaths (csiInfo m v)) \<and>
        csi_ready w v))"

definition configKeys :: "NamespacedName \<Rightarrow> VDOConfig \<Rightarrow> NamespacedName set" where
  "configKeys req vdo = (\<lambda>n. \<lparr>NnNamespace = NnNamespace req, NnName = n\<rparr>) ` (insert (storage_config vdo) (set (cloud_configs vdo)))"

definition healthy :: "'v world \<Rightarrow> NamespacedName \<Rightarrow> VDOConfig \<Rightarrow> CompatMatrix \<Rightarrow> string set \<Rightarrow> bool" where
  "healthy w req vdo m V \<longleftrightarrow> api_up w \<and> pods_up w \<and> files_up w \<and> vcenters_up w V (configKeys req vdo) \<and> supported w m V"

section \<open>Writing the status\<close>

lemma api_upD:
  assumes "api_up w"
  shows "status_echo w" "\<And>t c. \<exists>c'. w_statusVDO w t c = Inr c'"
    "\<And>t k e. w_getSecret w t k = Inl e \<Longrightarrow> IsNotFound e" "\<And>t x. \<exists>u. w_createSecret w t x = Inr u"
    "\<And>t x. \<exists>u. w_updateSecret w t x = Inr u" "\<And>t k e. w_getConfigMap w t k = Inl e \<Longrightarrow> IsNotFound e"
    "\<And>t x e. w_createConfigMap w t x = Inl e \<Longrightarrow> IsAlreadyExists e" "\<And>t x. \<exists>u. w_updateConfigMap w t x = Inr u"
    "\<And>t x e. w_createNamespace w t x = Inl e \<Longrightarrow> IsAlreadyExists e" "\<And>t x e. w_deleteNamespace w t x = Inl e \<Longrightarrow> IsNotFound e"
    "\<And>t x e. w_createObject w t x = Inl e \<Longrightarrow> IsAlreadyExists e" "\<And>t x. \<exists>u. w_updateNode w t x = Inr u"
    "\<And>t x. \<exists>u. w_updateDaemonSet w t x = Inr u" "\<And>t. \<exists>u. w_newClientset w t = Inr u" "\<And>t. \<exists>u. w_newDiscovery w t = Inr u"
    "\<And>t. \<exists>v. w_serverVersion w t = Inr v"
  using assms by (auto simp: api_up_def status_accepts_def finds_or_lacks_def accepts_def accepts_new_def)

text \<open>Writing a half of the status: the phase is there, the specification and the other half are as they were.\<close>

lemma wp_updateCPI:
  assumes "api_up w"
  shows "wp (updateCPIPhase w p m) (\<lambda>_ t. cpi_phase (cfg t) = p \<and> VdoSpec (cfg t) = VdoSpec (cfg s)) s"
proof -
  obtain r t where run: "updateCPIPhase w p m s = (r, t)" by force
  then have "r = Ok ()"
    using api_upD(2) [OF assms, of "trace s" "setCPIPhase p m (cfg s)"]
    by (auto simp: updateCPIPhase_def thenM_def bindM_def statusUpdateVDO_def)
  with run cpi.upd_written [OF run api_upD(1) [OF assms]] show ?thesis by (simp add: wp_def)
qed

lemma wp_updateCSI:
  assumes "api_up w"
  shows "wp (updateCSIPhase w p m) (\<lambda>_ t. csi_phase (cfg t) = p \<and> VdoSpec (cfg t) = VdoSpec (cfg s) \<and>
    StCPI (VdoStatus (cfg t)) = StCPI (VdoStatus (cfg s))) s"
proof -
  obtain r t where run: "updateCSIPhase w p m s = (r, t)" by force
  then have "r = Ok ()"
    using api_upD(2) [OF assms, of "trace s" "setCSIPhase p m (cfg s)"]
    by (auto simp: updateCSIPhase_def thenM_def bindM_def statusUpdateVDO_def)
  with run csi.upd_written [OF run api_upD(1) [OF assms]] show ?thesis by (simp add: wp_def)
qed

lemma wp_nodeStatus:
  assumes "api_up w"
  shows "wp (updateVdoConfigWithNodeStatus w p m) (\<lambda>_ t. cpi_phase (cfg t) = p \<and> VdoSpec (cfg t) = VdoSpec (cfg s) \<and>
    node_status (cfg t) = m) s"
proof -
  let ?c = "upd_cpi (\<lambda>st. st\<lparr>CpiPhase := p, CpiNodeStatus := m\<rparr>) (cfg s)"
  obtain c' where "w_statusVDO w (trace s) ?c = Inr c'" using api_upD(2) [OF assms] by blast
  moreover from status_echoD [OF api_upD(1) [OF assms] this]
  have "VdoStatus c' = VdoStatus ?c" "VdoSpec c' = VdoSpec ?c" by auto
  ultimately show ?thesis
    by (simp add: wp_def updateVdoConfigWithNodeStatus_def thenM_def bindM_def statusUpdateVDO_def)
qed

section \<open>The secrets and the ConfigMap\<close>

lemma writeCPI:
  "api_up w \<Longrightarrow> (\<And>t. cpi_phase (cfg t) = p \<Longrightarrow> VdoSpec (cfg t) = VdoSpec (cfg s) \<Longrightarrow> Q () t) \<Longrightarrow>
   wp (updateCPIPhase w p m) Q s"
  by (rule wp_mono [OF wp_updateCPI]) auto

lemma writeCSI:
  "api_up w \<Longrightarrow> (\<And>t. csi_phase (cfg t) = p \<Longrightarrow> VdoSpec (cfg t) = VdoSpec (cfg s) \<Longrightarrow>
     StCPI (VdoStatus (cfg t)) = StCPI (VdoStatus (cfg s)) \<Longrightarrow> Q () t) \<Longrightarrow>
   wp (updateCSIPhase w p m) Q s"
  by (rule wp_mono [OF wp_updateCSI]) auto

lemma wp_credentials:
  "usable w c \<Longrightarrow> (\<And>x t. cfg t = cfg s \<Longrightarrow> Q x t) \<Longrightarrow> wp (fetchVcCredentials w c) Q s"
  by (fastforce simp: usable_def fetchVcCredentials_def Let_def)

lemma wp_CPISecret:
  assumes api: "api_up w" and cs: "\<forall>c \<in> set cs. usable w c"
  shows "wp (reconcileCPISecret w cs key) (\<lambda>_ t. VdoSpec (cfg t) = VdoSpec (cfg s)) s"
proof -
  have "wp (cpiSecretDataMap w cs) (\<lambda>_ t. VdoSpec (cfg t) = VdoSpec (cfg s)) s"
    unfolding cpiSecretDataMap_def using cs
    by (intro wp_foldM) (auto simp: addCPISection_def case_prod_unfold intro!: wp_credentials)
  moreover have rest: "wp (case w_getSecret w (trace t) key of
            Inl e \<Rightarrow> if IsNotFound e then createCPISecret w key dta
                     else thenM (updateCPIStatusForError w e ''unable to fetch secret '') (throw e)
          | Inr cpiSecret \<Rightarrow> if DeepEqual_map dta (SecretData cpiSecret) then ret ()
                             else updateCPISecret w dta cpiSecret) (\<lambda>_ t. VdoSpec (cfg t) = VdoSpec (cfg s)) u"
    if "VdoSpec (cfg u) = VdoSpec (cfg s)" for dta t u
    using that api_upD(3,4,5) [OF api]
    by (auto simp: createCPISecret_def updateCPISecret_def Let_def split: sum.split intro!: writeCPI [OF api])
  ultimately show ?thesis unfolding reconcileCPISecret_def by (simp, elim wp_mono) (rule rest, simp)
qed

lemma files_upD:
  assumes "files_up w"
  shows "\<And>t f. \<exists>u. w_openFile w t f = Inr u" "\<And>t f. \<exists>u. w_truncateFile w t f = Inr u" "\<And>t f x. \<exists>u. w_writeFile w t f x = Inr u"
    "\<And>t. \<exists>c. w_readFile w t CSI_SECRET_CONFIG_FILE = Inr c \<and> p_iniLoad w c = Inr ()"
  using assms by (auto simp: files_up_def accepts_def)

lemma wp_ConfigMap:
  assumes api: "api_up w" and files: "files_up w"
  shows "wp (reconcileConfigMap w cs key) (\<lambda>_ t. VdoSpec (cfg t) = VdoSpec (cfg s)) s"
  using api_upD(6,7,8) [OF api] files_upD(1-3) [OF files]
  by (auto simp: reconcileConfigMap_def CreateVsphereConfig_def createCPIConfigMap_def updateCPIConfigMap_def Let_def
      split: sum.split intro!: writeCPI [OF api])

lemma wp_CSIConfig:
  assumes files: "files_up w" and post: "\<And>x t. cfg t = cfg s \<Longrightarrow> Q x t"
  shows "wp (CreateCSISecretConfig w c usr pwd CSI_SECRET_CONFIG_FILE) Q s"
proof -
  have "Q x (snd (ask c f (s\<lparr>trace := l\<rparr>)))" for x c f l
    by (rule post) (simp add: ask_def)
  moreover from files_upD(4) [OF files] obtain g where
    "\<And>t. w_readFile w t CSI_SECRET_CONFIG_FILE = Inr (g t)" "\<And>t. p_iniLoad w (g t) = Inr ()" by metis
  ultimately show ?thesis using files_upD(1,3) [OF files] by (simp add: CreateCSISecretConfig_def)
qed

lemma wp_CSISecret:
  assumes api: "api_up w" and files: "files_up w" and c: "usable w c"
  shows "wp (reconcileCSISecret w c) (\<lambda>_ t. VdoSpec (cfg t) = VdoSpec (cfg s) \<and>
    StCPI (VdoStatus (cfg t)) = StCPI (VdoStatus (cfg s))) s"
proof -
  have rest: "wp (case w_getSecret w (trace t) key of
          Inl e \<Rightarrow> if IsNotFound e then createCSISecretObj w key x else throw e
        | Inr csiSecret \<Rightarrow>
            if \<not> CompareCSISecret csiSecret x then updateCSISecretObj w x csiSecret
            else bindM (getS cfg) (\<lambda>vdo. if csi_phase vdo = PhaseUnset then updateCSIPhase w Configuring [] else ret ()))
      (\<lambda>_ t. VdoSpec (cfg t) = VdoSpec (cfg s) \<and> StCPI (VdoStatus (cfg t)) = StCPI (VdoStatus (cfg s))) u"
    if "cfg u = cfg s" for t u x key
    using that api_upD(3,4,5) [OF api]
    by (auto simp: createCSISecretObj_def updateCSISecretObj_def Let_def split: sum.split intro!: writeCSI [OF api])
  show ?thesis
    unfolding reconcileCSISecret_def case_prod_unfold
    by (simp only: wp_bindM wp_wrapped, intro wp_credentials [OF c], simp only: wp_pure, intro wp_CSIConfig [OF files])
      (simp only: wp_tryM, rule rest, simp)
qed

section \<open>Deploying the spec files\<close>

lemma wp_try: "wp m (\<lambda>x. Q (Inr x)) s \<Longrightarrow> wp (tryM m) Q s"
  by (auto simp: wp_def tryM_def)

lemma wp_readSpec:
  "serves w (trace s) p txt \<Longrightarrow> (\<And>t. cfg t = cfg s \<Longrightarrow> Q txt t) \<Longrightarrow> wp (readSpec w p) Q s"
  by (auto simp: serves_def readSpec_def GenerateYamlFromFilePath_def GenerateYamlFromUrl_def Let_def split: if_splits)

lemma wp_Parse:
  assumes api: "api_up w" and "decodes w txt"
  shows "wp (ParseAndProcessK8sObjects w txt [] CREATE) (\<lambda>_ t. cfg t = cfg s) s"
proof -
  obtain r t where run: "ParseAndProcessK8sObjects w txt [] CREATE s = (r, t)" by force
  have "\<not> refused w CREATE [] x u" for x u
    using api_upD(11) [OF api] by (auto simp: refused_def)
  with ParseAndProcess_attempt [OF run] assms(2) have "\<exists>b. r = Ok b" "cfg t = cfg s"
    by (cases r; auto simp: attempt_def sent_def)+
  with run show ?thesis by (auto simp: wp_def)
qed

lemma wp_applyYaml:
  assumes "api_up w" and "specs_up w ys" and "y \<in> set ys"
  shows "wp (applyYaml w y b CREATE) (\<lambda>_ t. cfg t = cfg s) s"
proof -
  from assms(2,3) obtain body where body: "serves w (trace s) y body" "decodes w body" by (auto simp: specs_up_def)
  show ?thesis
    unfolding applyYaml_def wp_bindM
    by (rule wp_readSpec [OF body(1)], rule wp_try) (rule wp_mono [OF wp_Parse [OF assms(1) body(2)]], simp)
qed

lemma wp_applyAll:
  assumes "api_up w" and "specs_up w ys"
  shows "wp (applyAll w ys) (\<lambda>b t. \<not> b \<and> cfg t = cfg s) s"
proof -
  have "wp (forM (\<lambda>y. thenM (applyYaml w y False CREATE) (ret ())) ys) (\<lambda>_ t. cfg t = cfg s) s"
    by (rule wp_forM) (auto intro: wp_mono [OF wp_applyYaml [OF assms]])
  then show ?thesis by (simp add: applyAll_def Let_def)
qed

lemma wp_deploy:
  assumes "api_up w"
  shows "specs_up w (CpiDeploymentYamls s) \<Longrightarrow> wp (deployCPI w) (\<lambda>_ t. cfg t = cfg s) s"
    and "specs_up w (CsiDeploymentYamls s) \<Longrightarrow> wp (deployCSI w) (\<lambda>_ t. cfg t = cfg s) s"
  by (auto simp: deployCPI_def deployCSI_def reconcileCPIDeployment_def reconcileCSIDeployment_def
      intro: wp_mono [OF wp_applyAll [OF assms]])

section \<open>The state of the drivers\<close>

lemma pods_upD:
  assumes "pods_up w"
  shows "\<And>t k. \<exists>ds. w_getDaemonSet w t k = Inr ds \<and> NumberUnavailable ds \<le> 0 \<and> host_paths ds"
    "\<And>t ns l. \<exists>pods. w_listPods w t ns l = Inr pods \<and> list_all (\<lambda>p. PodPhaseOf p = PodRunning) pods"
    "\<And>t. \<exists>nodes. w_listNodes w t = Inr nodes \<and> nodes \<noteq> [] \<and> list_all (\<lambda>n. ProviderID n \<noteq> []) nodes"
    "\<And>t u nodes. w_listNodes w u = Inr nodes \<Longrightarrow> \<exists>names. w_listCSINodes w t = Inr names \<and> list_all (\<lambda>n. NodeName n \<in> set names) nodes"
    "\<And>t. \<exists>ds. w_listCSIDrivers w t = Inr ds \<and> ds \<noteq> []"
  using assms unfolding pods_up_def by blast+

lemma wp_fetchDaemonSet:
  assumes "pods_up w"
  shows "wp (fetchDaemonSetPodStatus w n ns k) (\<lambda>_ t. cfg t = cfg s) s"
proof -
  let ?key = "\<lparr>NnNamespace = ns, NnName = n\<rparr>"
  obtain ds where "w_getDaemonSet w (trace s) ?key = Inr ds" "NumberUnavailable ds \<le> 0" using pods_upD(1) [OF assms] by blast
  moreover obtain pods where "w_listPods w (trace s @ [GetDaemonSet ?key]) ns k = Inr pods"
    "list_all (\<lambda>p. PodPhaseOf p = PodRunning) pods" using pods_upD(2) [OF assms] by blast
  ultimately show ?thesis by (auto simp: wp_def fetchDaemonSet_Ok)
qed

lemma wp_CSINodes:
  assumes "pods_up w"
  shows "wp (verifyCSINodeStatus w) (\<lambda>_ t. cfg t = cfg s) s"
proof -
  obtain nodes where n: "w_listNodes w (trace s @ [ListCSINodes]) = Inr nodes" using pods_upD(3) [OF assms] by blast
  moreover obtain names where "w_listCSINodes w (trace s) = Inr names" "list_all (\<lambda>n. NodeName n \<in> set names) nodes"
    using pods_upD(4) [OF assms n] by blast
  ultimately show ?thesis by (auto simp: wp_def verifyCSINodes_Ok)
qed

lemma wp_status:
  assumes "pods_up w"
  shows "wp (reconcileCPIDeploymentStatus w) (\<lambda>_ t. cfg t = cfg s) s"
    and "wp (reconcileCSIDeploymentStatus w) (\<lambda>_ t. cfg t = cfg s) s"
proof -
  show "wp (reconcileCPIDeploymentStatus w) (\<lambda>_ t. cfg t = cfg s) s"
    by (simp add: reconcileCPIDeploymentStatus_def wp_fetchDaemonSet [OF assms])
  have "wp (verifyCSIDriverRegisteration w) (\<lambda>_ t. cfg t = cfg s) u" if "cfg u = cfg s" for u
    using that pods_upD(5) [OF assms, of "trace u"] by (auto simp: verifyCSIDriverRegisteration_def)
  then have "wp (verifyCSINodeStatus w) (\<lambda>_. wp (verifyCSIDriverRegisteration w) (\<lambda>_ t. cfg t = cfg s)) u" if "cfg u = cfg s" for u
    using that by (intro wp_mono [OF wp_CSINodes [OF assms]]) simp
  then show "wp (reconcileCSIDeploymentStatus w) (\<lambda>_ t. cfg t = cfg s) s"
    by (simp add: reconcileCSIDeploymentStatus_def) (rule wp_mono [OF wp_fetchDaemonSet [OF assms]], simp)
qed

section \<open>The nodes\<close>

definition nodes_ready :: "'v world \<Rightarrow> VDOConfig \<Rightarrow> bool" where
  "nodes_ready w c \<longleftrightarrow> (\<exists>tr nodes. w_listNodes w tr = Inr nodes \<and>
     (\<forall>n \<in> set nodes. mlookup (node_status c) (NodeName n) = Some NodeStatusReady))"

lemma ready_loop: "list_all (\<lambda>n. ProviderID n \<noteq> []) nodes \<Longrightarrow> foldM (nodeStep w cs) nodes st = ret (fold pureStep nodes st)"
  by (induction nodes arbitrary: st) (auto simp: nodeStep_def pureStep_def)

lemma ready_lookup:
  "list_all (\<lambda>n. ProviderID n \<noteq> []) nodes \<Longrightarrow> k \<in> NodeName ` set nodes \<or> mlookup (LoopStatus st) k = Some NodeStatusReady \<Longrightarrow>
   mlookup (LoopStatus (fold pureStep nodes st)) k = Some NodeStatusReady"
  by (induction nodes arbitrary: st) (auto simp: pureStep_def markReady_def)

lemma ready_all: "list_all (\<lambda>n. ProviderID n \<noteq> []) nodes \<Longrightarrow> \<not> (\<exists>n \<in> set nodes. pending n)"
  by (auto simp: list_all_iff pending_def)

lemma wp_syncNodes:
  assumes api: "api_up w" and pods: "pods_up w"
  shows "wp (syncNodes w items) (\<lambda>_ t. cpi_phase (cfg t) = Configured \<and> nodes_ready w (cfg t) \<and>
    VdoSpec (cfg t) = VdoSpec (cfg s)) s"
proof -
  obtain nodes where nodes: "w_listNodes w (trace s) = Inr nodes" "nodes \<noteq> []" "list_all (\<lambda>n. ProviderID n \<noteq> []) nodes"
    using pods_upD(3) [OF pods] by blast
  let ?st = "fold pureStep nodes \<lparr>LoopStatus = make_map, LoopPhase = PhaseUnset, AllNodesReady = True\<rparr>"
  have look: "mlookup (LoopStatus ?st) (NodeName n) = Some NodeStatusReady" if "n \<in> set nodes" for n
    using that by (intro ready_lookup [OF nodes(3)]) auto
  then have len: "mlen (LoopStatus ?st) \<noteq> 0"
    using nodes(2) by (metis list.set_intros(1) mlen_zero neq_Nil_conv option.distinct(1))
  have phase: "AllNodesReady ?st" using ready_all [OF nodes(3)] by (simp add: fold_pure_ready)
  have ready: "nodes_ready w c" if "\<And>k. mlookup (node_status c) k = mlookup (LoopStatus ?st) k" for c
    using that nodes(1) look by (auto simp: nodes_ready_def)
  show ?thesis
    unfolding syncNodes_def reconcileNodeProviderID_def
    using nodes(1) len phase
    by (auto simp: ready_loop [OF nodes(3)] DeepEqual_map_iff Let_def intro!: ready wp_mono [OF wp_nodeStatus [OF api]])
qed

lemma wp_label:
  assumes api: "api_up w" and pods: "pods_up w"
  shows "wp (reconcileNodeLabel w req) (\<lambda>_ t. cfg t = cfg s) s"
proof -
  obtain nodes where nodes: "w_listNodes w (trace s) = Inr nodes" using pods_upD(3) [OF pods] by blast
  have "wp (labelStep w req n) (\<lambda>_ t. cfg t = cfg s) u" if "cfg u = cfg s" for n u
    using that api_upD(12) [OF api] by (auto simp: labelStep_def)
  then have "wp (forM (labelStep w req) nodes) (\<lambda>_ t. cfg t = cfg s) u" if "cfg u = cfg s" for u
    using that by (intro wp_forM) auto
  with nodes show ?thesis by (simp add: reconcileNodeLabel_def)
qed

section \<open>The cloud configurations\<close>

lemma vcenters_upD:
  assumes "vcenters_up w V keys"
  shows "\<And>t k. k \<in> keys \<Longrightarrow> \<exists>c. w_getVCC w t k = Inr c \<and> usable w c"
    "\<And>t url i th. \<exists>c. w_newVimClient w t url i th = Inr c \<and> AboutVersion c \<in> V"
    "\<And>t c url. \<exists>u. w_login w t c url = Inr u" "\<And>t c n. \<exists>d. w_findDatacenter w t c n = Inr d"
  using assms unfolding vcenters_up_def by blast+

lemma wp_fetchConfig:
  assumes "vcenters_up w V keys" and "\<lparr>NnNamespace = ns, NnName = n\<rparr> \<in> keys"
    and "\<And>c t. usable w c \<Longrightarrow> cfg t = cfg s \<Longrightarrow> sessionCache t = sessionCache s \<Longrightarrow> bare t = bare s \<Longrightarrow> Q c t"
  shows "wp (fetchVSphereCloudConfig w n ns) Q s"
  using vcenters_upD(1) [OF assms(1,2), of "trace s"] assms(3) by (auto simp: fetchVSphereCloudConfig_def Let_def)

lemma usable_verified: "usable w c \<Longrightarrow> verifyVsphereCloudConfig c = None"
  by (simp add: usable_def verify_None_iff)

lemma wp_items:
  assumes "vcenters_up w V keys" and "\<And>n. n \<in> set (cloud_configs (cfg s)) \<Longrightarrow> \<lparr>NnNamespace = NnNamespace req, NnName = n\<rparr> \<in> keys"
  shows "wp (fetchVsphereCloudConfigItems w req (cloud_configs (cfg s)))
    (\<lambda>items t. length items = length (cloud_configs (cfg s)) \<and> (\<forall>c \<in> set items. usable w c) \<and> cfg t = cfg s) s"
proof -
  let ?ns = "cloud_configs (cfg s)"
  have "wp (fetchItem w req i) (\<lambda>c t. usable w c \<and> cfg t = cfg s) u" if "i \<in> set [0 ..< length ?ns]" "cfg u = cfg s" for i u
    using that assms(2) by (auto simp: fetchItem_def intro!: wp_fetchConfig [OF assms(1)])
  then have "wp (mapM (fetchItem w req) [0 ..< length ?ns])
      (\<lambda>items t. length items = length [0 ..< length ?ns] \<and> (\<forall>c \<in> set items. usable w c) \<and> cfg t = cfg s) s"
    by (intro wp_mapM) auto
  then show ?thesis unfolding fetchVsphereCloudConfigItems_def by simp
qed

section \<open>The run for CPI\<close>

lemma fixed_bare:
  "keeps (fixes_field bare) (fetchVsphereCloudConfigItems w req l)" "keeps (fixes_field bare) (reconcileCPISecret w cs key)"
  "keeps (fixes_field bare) (reconcileConfigMap w cs key)" "keeps (fixes_field bare) (reconcileCSISecret w c)"
  "keeps (fixes_field bare) (deployCSI w)" "keeps (fixes_field bare) (reconcileCPIConfiguration w req)"
  by (intro keeps_intro; simp)+

lemma wp_finishCPI:
  assumes api: "api_up w" and pods: "pods_up w" and specs: "specs_up w (CpiDeploymentYamls s)"
  shows "wp (thenM (deployCPI w)
              (thenM (onErr (reconcileCPIDeploymentStatus w)
                       (\<lambda>e. updateCPIStatusForError w e ''Error in reconcile of deployment status for CPI''))
              (thenM (markCPIDeployed w)
              (thenM (syncNodes w items)
                (onErr (reconcileNodeLabel w req) (\<lambda>e. updateCPIStatusForError w e (Error e)))))))
    (\<lambda>_ t. VdoSpec (cfg t) = VdoSpec (cfg s) \<and> cpi_phase (cfg t) = Configured \<and> nodes_ready w (cfg t)) s"
proof -
  have label: "wp (reconcileNodeLabel w req) (\<lambda>_ t. VdoSpec (cfg t) = VdoSpec (cfg s) \<and> cpi_phase (cfg t) = Configured \<and>
      nodes_ready w (cfg t)) u"
    if "VdoSpec (cfg u) = VdoSpec (cfg s)" "cpi_phase (cfg u) = Configured" "nodes_ready w (cfg u)" for u
    using that by (intro wp_mono [OF wp_label [OF api pods]]) simp
  have sync: "wp (syncNodes w items) (\<lambda>_. wp (reconcileNodeLabel w req) (\<lambda>_ t. VdoSpec (cfg t) = VdoSpec (cfg s) \<and>
      cpi_phase (cfg t) = Configured \<and> nodes_ready w (cfg t))) u" if "VdoSpec (cfg u) = VdoSpec (cfg s)" for u
    using that by (intro wp_mono [OF wp_syncNodes [OF api pods]] label) auto
  show ?thesis
    by (simp, rule wp_mono [OF wp_deploy(1) [OF api specs]], rule wp_mono [OF wp_status(1) [OF pods]])
      (auto simp: markCPIDeployed_def intro!: sync writeCPI [OF api])
qed

lemma wp_CPI:
  assumes h: "healthy w req (cfg s) m V" and specs: "cloud_configs (cfg s) \<noteq> [] \<longrightarrow> specs_up w (CpiDeploymentYamls s)"
  shows "wp (reconcileCPIConfiguration w req) (\<lambda>_ t. VdoSpec (cfg t) = VdoSpec (cfg s) \<and>
    (cloud_configs (cfg s) \<noteq> [] \<longrightarrow> cpi_phase (cfg t) = Configured \<and> nodes_ready w (cfg t))) s"
proof (cases "cloud_configs (cfg s) = []")
  case True
  then show ?thesis by (simp add: reconcileCPIConfiguration_def)
next
  case False
  from h have api: "api_up w" and pods: "pods_up w" and files: "files_up w" and vc: "vcenters_up w V (configKeys req (cfg s))"
    by (auto simp: healthy_def)
  have key: "\<lparr>NnNamespace = NnNamespace req, NnName = n\<rparr> \<in> configKeys req (cfg s)" if "n \<in> set (cloud_configs (cfg s))" for n
    using that by (auto simp: configKeys_def)
  have verified: "forM (requireVerified w) items = ret ()" if "\<forall>c \<in> set items. usable w c" for items
    using that by (induction items) (auto simp: requireVerified_def usable_verified)
  let ?k = "\<lparr>NnNamespace = VC_CREDS_SECRET_NS, NnName = SECRET_NAME\<rparr>"
  let ?Q = "\<lambda>_ t. VdoSpec (cfg t) = VdoSpec (cfg s) \<and> cpi_phase (cfg t) = Configured \<and> nodes_ready w (cfg t)"
  have finish: "wp (thenM (deployCPI w)
              (thenM (onErr (reconcileCPIDeploymentStatus w)
                       (\<lambda>e. updateCPIStatusForError w e ''Error in reconcile of deployment status for CPI''))
              (thenM (markCPIDeployed w)
              (thenM (syncNodes w items)
                (onErr (reconcileNodeLabel w req) (\<lambda>e. updateCPIStatusForError w e (Error e))))))) ?Q u"
    if "VdoSpec (cfg u) = VdoSpec (cfg s)" "bare u = bare s" for items u
    using that specs bareD [OF that(2)] False by (intro wp_mono [OF wp_finishCPI [OF api pods]]) simp_all
  have stored: "wp (reconcileCPISecret w items ?k) (\<lambda>_. wp (reconcileConfigMap w items ?k) (\<lambda>_. R)) u"
    if "\<forall>c \<in> set items. usable w c" "cfg u = cfg s" "bare u = bare s"
      and "\<And>v. VdoSpec (cfg v) = VdoSpec (cfg s) \<Longrightarrow> bare v = bare s \<Longrightarrow> R v" for items u R
    by (rule wp_fixed [OF wp_CPISecret [OF api that(1)] fixed_bare(2)],
        rule wp_fixed [OF wp_ConfigMap [OF api files] fixed_bare(3)]) (simp add: that)
  have "wp (reconcileCPIConfiguration w req) ?Q s"
    unfolding reconcileCPIConfiguration_def Let_def
    by (simp add: False, rule wp_fixed [OF wp_items [OF vc key] fixed_bare(1)], assumption)
      (simp add: verified, rule stored, simp_all add: finish [simplified])
  then show ?thesis by (rule wp_mono) simp
qed

section \<open>The run for CSI\<close>

lemma relocateVolumes_Ok:
  "\<forall>v \<in> set vols. VolumeName v \<in> {podVolName, pluginDir, registrationDir} \<longrightarrow> HostPath v \<noteq> None \<Longrightarrow>
   \<exists>r. relocateVolumes k vols = Ok r"
  by (induction vols) auto

lemma wp_kubelet:
  assumes api: "api_up w" and pods: "pods_up w"
  shows "wp (moveKubeletPath w) (\<lambda>_ t. cfg t = cfg s) s"
proof -
  have "wp (updateCSIDaemonSet w k) (\<lambda>_ t. cfg t = cfg s) s" for k
  proof -
    let ?key = "\<lparr>NnNamespace = CsiNamespace s, NnName = CSI_DAEMONSET_NAME\<rparr>"
    obtain ds where ds: "w_getDaemonSet w (trace s) ?key = Inr ds" "host_paths ds" using pods_upD(1) [OF pods] by blast
    from ds(2) obtain vols b where "relocateVolumes k (Volumes ds) = Ok (vols, b)"
      using relocateVolumes_Ok [of "Volumes ds" k] by (auto simp: host_paths_def)
    then obtain ds' c where "relocateDaemonSet k ds = Ok (ds', c)"
      by (cases "relocateContainers k (Containers ds)") (simp add: relocateDaemonSet_def)
    with ds(1) api_upD(13) [OF api] show ?thesis by (simp add: updateCSIDaemonSet_def)
  qed
  then show ?thesis by (simp add: moveKubeletPath_def)
qed

lemma wp_switch:
  assumes api: "api_up w" and "csi_ready w (CurrentCSIDeployedVersion s)"
  shows "wp (switchCSINodeId w) (\<lambda>_ t. cfg t = cfg s) s"
proof -
  from assms(2) obtain b where b: "compareVersions w ''2.5.0'' (CurrentCSIDeployedVersion s) ''100.0.0'' = Inr b"
    "b \<longrightarrow> (\<forall>t ns. \<exists>cm. w_getConfigMap w t \<lparr>NnNamespace = ns, NnName = CSI_FSS_CONFIGMAP\<rparr> = Inr cm)"
    by (auto simp: csi_ready_def)
  show ?thesis
  proof (cases b)
    case True
    with b(2) obtain cm where
      "w_getConfigMap w (trace s) \<lparr>NnNamespace = CsiNamespace s, NnName = CSI_FSS_CONFIGMAP\<rparr> = Inr cm" by blast
    with b(1) True api_upD(8) [OF api] show ?thesis by (auto simp: switchCSINodeId_def updateCSIConfigmap_def Let_def)
  qed (use b(1) in \<open>auto simp: switchCSINodeId_def\<close>)
qed

lemma wp_CSI:
  assumes api: "api_up w" and pods: "pods_up w" and files: "files_up w" and vc: "vcenters_up w V keys"
    and key: "\<lparr>NnNamespace = NnNamespace req, NnName = storage_config (cfg s)\<rparr> \<in> keys"
    and specs: "specs_up w (CsiDeploymentYamls s)" and ready: "csi_ready w (CurrentCSIDeployedVersion s)"
  shows "wp (reconcileCSIConfiguration w req) (\<lambda>_ t. csi_phase (cfg t) = Deployed \<and>
    StCPI (VdoStatus (cfg t)) = StCPI (VdoStatus (cfg s))) s"
proof -
  let ?I = "\<lambda>t. StCPI (VdoStatus (cfg t)) = StCPI (VdoStatus (cfg s))"
  have mark: "wp (markCSIDeployed w) (\<lambda>_ t. csi_phase (cfg t) = Deployed \<and> ?I t) u" if "?I u" for u
    using that by (auto simp: markCSIDeployed_def intro!: writeCSI [OF api])
  have late: "wp (moveKubeletPath w) (\<lambda>_. wp (reconcileCSIDeploymentStatus w) (\<lambda>_. wp (markCSIDeployed w)
      (\<lambda>_ t. csi_phase (cfg t) = Deployed \<and> ?I t))) u" if "?I u" for u
    by (rule wp_mono [OF wp_kubelet [OF api pods]], rule wp_mono [OF wp_status(2) [OF pods]]) (simp add: mark that)
  have middle: "wp (deployCSI w) (\<lambda>_. wp (switchCSINodeId w) (\<lambda>_. wp (moveKubeletPath w) (\<lambda>_. wp (reconcileCSIDeploymentStatus w)
      (\<lambda>_. wp (markCSIDeployed w) (\<lambda>_ t. csi_phase (cfg t) = Deployed \<and> ?I t))))) u"
    if "?I u" "bare u = bare s" for u
  proof (rule wp_fixed [OF wp_deploy(2) [OF api] fixed_bare(5)])
    show "specs_up w (CsiDeploymentYamls u)" using specs bareD [OF that(2)] by simp
    show "wp (switchCSINodeId w) (\<lambda>_. wp (moveKubeletPath w) (\<lambda>_. wp (reconcileCSIDeploymentStatus w)
      (\<lambda>_. wp (markCSIDeployed w) (\<lambda>_ t. csi_phase (cfg t) = Deployed \<and> ?I t)))) v" if v: "cfg v = cfg u" "bare v = bare u" for v
    proof (rule wp_mono [OF wp_switch [OF api]])
      show "csi_ready w (CurrentCSIDeployedVersion v)" using ready bareD [OF \<open>bare u = bare s\<close>] bareD [OF v(2)] by simp
    qed (rule late, simp add: v \<open>?I u\<close>)
  qed
  show ?thesis
    unfolding reconcileCSIConfiguration_def
    by (simp, rule wp_fetchConfig [OF vc key])
      (simp add: requireVerified_def usable_verified, rule wp_fixed [OF wp_CSISecret [OF api files] fixed_bare(4)],
       assumption, simp add: middle)
qed

section \<open>The compatibility check\<close>

definition cache_in :: "string set \<Rightarrow> St \<Rightarrow> bool" where
  "cache_in V s \<longleftrightarrow> (\<forall>e \<in> set (sessionCache s). VsphereVersion (snd e) \<in> V)"

lemma cache_in_upd [simp]: "cache_in V (s\<lparr>trace := l\<rparr>) = cache_in V s" "cache_in V (s\<lparr>cfg := c\<rparr>) = cache_in V s"
  by (simp_all add: cache_in_def)

lemma set_update: "set (AList.update k x xs) \<subseteq> insert (k, x) (set xs)"
  by (induction xs) auto

lemma cache_in_update:
  "cache_in V s \<Longrightarrow> VsphereVersion x \<in> V \<Longrightarrow> cache_in V (s\<lparr>sessionCache := AList.update k x (sessionCache s)\<rparr>)"
  using set_update [of k x "sessionCache s"] by (fastforce simp: cache_in_def)

lemma wp_cached:
  assumes "cache_in V s"
  shows "wp (cachedSession w k dcs) (\<lambda>c t. (\<forall>x. c = Some x \<longrightarrow> VsphereVersion x \<in> V) \<and> cache_in V t \<and> cfg t = cfg s) s"
  using assms
  by (cases "map_of (sessionCache s) k")
    (auto simp: cachedSession_def sessionActive_def cache_in_def dest!: map_of_SomeD split: sum.split)

lemma wp_create:
  assumes vc: "vcenters_up w V keys" and url: "p_parseURL w server = Inr (Some url)" and cache: "cache_in V s"
  shows "wp (createSession w server dcs usr pwd thumb) (\<lambda>x t. VsphereVersion x \<in> V \<and> cache_in V t \<and> cfg t = cfg s) s"
proof -
  have found: "wp (findDatacenters w c names) (\<lambda>_ t. cache_in V t \<and> cfg t = cfg s) u" if "cache_in V u" "cfg u = cfg s" for c names u
    unfolding findDatacenters_def using that vcenters_upD(4) [OF vc] by (intro wp_foldM) auto
  let ?u = "url\<lparr>UrlUser := usr, UrlPassword := pwd\<rparr>"
  obtain c where c: "w_newVimClient w (trace s) ?u (thumb = []) thumb = Inr c" "AboutVersion c \<in> V"
    using vcenters_upD(2) [OF vc] by blast
  have "wp (findDatacenters w (c\<lparr>UserAgent := groupVersion\<rparr>) (entries dcs))
      (\<lambda>d t. AboutVersion c \<in> V \<and> cache_in V t \<and> cfg t = cfg s) u" if "cache_in V u" "cfg u = cfg s" for u
    by (rule wp_mono [OF found [OF that]]) (simp add: c)
  with c url cache vcenters_upD(3) [OF vc] show ?thesis
    by (simp add: createSession_def newClient_def Let_def)
qed

lemma wp_GetOrCreate:
  assumes vc: "vcenters_up w V keys" and url: "p_parseURL w server = Inr (Some url)" and cache: "cache_in V s"
  shows "wp (GetOrCreate w server dcs usr pwd thumb) (\<lambda>x t. VsphereVersion x \<in> V \<and> cache_in V t \<and> cfg t = cfg s) s"
proof -
  let ?Q = "\<lambda>x t. VsphereVersion x \<in> V \<and> cache_in V t \<and> cfg t = cfg s"
  have create: "wp (createSession w server dcs usr pwd thumb)
      (\<lambda>x t. ?Q x (t\<lparr>sessionCache := AList.update k x (sessionCache t)\<rparr>)) u" if "cache_in V u" "cfg u = cfg s" for k u
    by (rule wp_mono [OF wp_create [OF vc url that(1)]]) (simp add: that(2) cache_in_update)
  show ?thesis
    unfolding GetOrCreate_def Let_def wp_bindM
    by (rule wp_mono [OF wp_cached [OF cache]]) (auto simp: create [simplified] split: option.split)
qed

lemma wp_session:
  assumes vc: "vcenters_up w V keys" and c: "usable w c" and cache: "cache_in V s"
  shows "wp (getVcSession w c) (\<lambda>x t. VsphereVersion x \<in> V \<and> cache_in V t \<and> cfg t = cfg s) s"
proof -
  from c obtain url where url: "p_parseURL w (VcIP (VccSpec c)) = Inr (Some url)" by (auto simp: usable_def)
  have get: "wp (GetOrCreate w (VcIP (VccSpec c)) dcs usr pwd thumb) (\<lambda>x t. VsphereVersion x \<in> V \<and> cache_in V t \<and> cfg t = cfg s) u"
    if "cache_in V u" "cfg u = cfg s" for dcs usr pwd thumb u
    using wp_GetOrCreate [OF vc url that(1)] by (simp add: that(2))
  from c obtain sec where "w_getSecret w (trace s) \<lparr>NnNamespace = VC_CREDS_SECRET_NS, NnName = Credentials (VccSpec c)\<rparr> = Inr sec"
    "Credentials (VccSpec c) \<noteq> []" by (auto simp: usable_def)
  then show ?thesis
    by (simp add: getVcSession_def Let_def fetchVcCredentials_def get cache)
qed

lemma wp_versions:
  assumes vc: "vcenters_up w V keys" and cache: "cache_in V s"
    and keys: "\<And>n. n \<in> insert (storage_config (cfg s)) (set (cloud_configs (cfg s))) \<Longrightarrow> \<lparr>NnNamespace = NnNamespace req, NnName = n\<rparr> \<in> keys"
  shows "wp (FetchVsphereVersions w req) (\<lambda>vs t. vs \<noteq> [] \<and> set vs \<subseteq> V \<and> cfg t = cfg s) s"
proof -
  let ?names = "if cloud_configs (cfg s) = [] then [storage_config (cfg s)] else cloud_configs (cfg s)"
  have one: "wp (fetchVSphereCloudConfig w n (NnNamespace req)) (\<lambda>c t. usable w c \<and> cache_in V t \<and> cfg t = cfg s) u"
    if "n \<in> set ?names" "cache_in V u \<and> cfg u = cfg s" for n u
    using that by (intro wp_fetchConfig [OF vc keys]) (auto simp: cache_in_def split: if_splits)
  have two: "wp (bindM (getVcSession w c) (\<lambda>sess. ret (VsphereVersion sess))) (\<lambda>v t. v \<in> V \<and> cache_in V t \<and> cfg t = cfg s) u"
    if "usable w c" "cache_in V u \<and> cfg u = cfg s" for c u
    using that by (simp, intro wp_mono [OF wp_session [OF vc that(1)]]) auto
  have all: "wp (mapM (\<lambda>c. bindM (getVcSession w c) (\<lambda>sess. ret (VsphereVersion sess))) items)
      (\<lambda>vs t. vs \<noteq> [] \<and> set vs \<subseteq> V \<and> cfg t = cfg s) u"
    if "items \<noteq> []" "\<forall>c \<in> set items. usable w c" "cache_in V u \<and> cfg u = cfg s" for items u
    by (rule wp_mono [OF wp_mapM [where I = "\<lambda>t. cache_in V t \<and> cfg t = cfg s", OF that(3) two]]) (use that in auto)
  have fetch: "wp (mapM (\<lambda>n. fetchVSphereCloudConfig w n (NnNamespace req)) ?names)
      (\<lambda>items t. length items = length ?names \<and> (\<forall>c \<in> set items. usable w c) \<and> cache_in V t \<and> cfg t = cfg s) s"
    by (rule wp_mapM [where I = "\<lambda>t. cache_in V t \<and> cfg t = cfg s", OF _ one]) (use cache in simp_all)
  show ?thesis
    unfolding FetchVsphereVersions_def Let_def wp_bindM wp_pure
    by (rule wp_mono [OF fetch], rule all [simplified]) (auto split: if_splits)
qed

lemma wp_k8s:
  assumes api: "api_up w"
  shows "wp (Fetchk8sVersions w) (\<lambda>k t. \<exists>tr major minor. w_serverVersion w tr = Inr (major, minor) \<and> k = major @ ''.'' @ minor \<and>
    cfg t = cfg s) s"
proof -
  obtain major minor where "w_serverVersion w (trace s @ [NewDiscoveryClient]) = Inr (major, minor)"
    using api_upD(16) [OF api] by (metis surj_pair)
  with api_upD(15) [OF api, of "trace s"] show ?thesis
    by (auto simp: Fetchk8sVersions_def)
qed

lemma wp_matrix:
  assumes "matrix_up w (environ s COMPAT_MATRIX_CONFIG_URL) (environ s COMPAT_MATRIX_CONFIG_CONTENT) m"
    and "getMatrixConfig (environ s COMPAT_MATRIX_CONFIG_URL) (environ s COMPAT_MATRIX_CONFIG_CONTENT) = Inr mc"
  shows "wp (readMatrix w mc) (\<lambda>x t. x = m \<and> cfg t = cfg s) s"
proof (cases "environ s COMPAT_MATRIX_CONFIG_URL = []")
  case True
  with assms show ?thesis by (auto simp: matrix_up_def getMatrixConfig_def readMatrix_def split: if_splits)
next
  case False
  with assms(1) obtain body where body: "serves w (trace s) (environ s COMPAT_MATRIX_CONFIG_URL) body" "p_jsonMatrix w body = Inr m"
    unfolding matrix_up_def by blast
  from False assms(2) have mc: "mc = environ s COMPAT_MATRIX_CONFIG_URL" by (simp add: getMatrixConfig_def split: if_splits)
  show ?thesis
    by (simp add: readMatrix_def ParseMatrixYaml_def mc, rule wp_readSpec [OF body(1)]) (simp add: body(2))
qed

lemma matrix_upD: "matrix_up w url content m \<Longrightarrow> \<exists>mc. getMatrixConfig url content = Inr mc"
  by (auto simp: matrix_up_def getMatrixConfig_def)

lemma wp_place:
  assumes api: "api_up w" and "csi_ready w (CurrentCSIDeployedVersion s)"
  shows "wp (placeCSINamespace w) (\<lambda>_ _. True) s"
proof -
  from assms(2) obtain b where "compareVersions w ''2.3.0'' (CurrentCSIDeployedVersion s) ''100.0.0'' = Inr b"
    by (auto simp: csi_ready_def)
  with api_upD(9,10) [OF api] show ?thesis
    by (cases b) (auto simp: placeCSINamespace_def setCsiNamespace_def createCSINamespace_def deleteCSINamespace_def Let_def split: sum.split)
qed

definition installed :: "'v world \<Rightarrow> St \<Rightarrow> bool" where
  "installed w s \<longleftrightarrow> (cloud_configs (cfg s) \<noteq> [] \<longrightarrow> specs_up w (CpiDeploymentYamls s)) \<and>
     specs_up w (CsiDeploymentYamls s) \<and> csi_ready w (CurrentCSIDeployedVersion s)"

lemma wp_fetchCSI:
  assumes "selectCSI w m vs k = Inr v" "v \<noteq> []" "specs_up w (CsiDeploymentPaths (csiInfo m v))" "csi_ready w v"
  shows "wp (FetchCsiDeploymentYamls w m vs k) (\<lambda>_ t. specs_up w (CsiDeploymentYamls t) \<and> csi_ready w (CurrentCSIDeployedVersion t) \<and>
    CpiDeploymentYamls t = CpiDeploymentYamls s \<and> cfg t = cfg s) s"
proof -
  have run: "wp (FetchCsiDeploymentYamls w m vs k) (\<lambda>_ t. specs_up w (CsiDeploymentYamls t) \<and> csi_ready w (CurrentCSIDeployedVersion t)) s"
    using assms by (simp add: wp_def csi_driver.fetch_run)
  have "keeps (fixes_field (\<lambda>s. (CpiDeploymentYamls s, cfg s))) (FetchCsiDeploymentYamls w m vs k)"
    by (rule csi_driver.fetch_fixed) simp_all
  from wp_fixed [OF run this] show ?thesis by simp
qed

lemma wp_fetchCPI:
  assumes "selectCPI w m vs k = Inr v" "v \<noteq> []" "specs_up w (CpiDeploymentPaths (cpiInfo m v))"
  shows "wp (FetchCpiDeploymentYamls w m vs k) (\<lambda>_ t. specs_up w (CpiDeploymentYamls t) \<and> cfg t = cfg s) s"
proof -
  have run: "wp (FetchCpiDeploymentYamls w m vs k) (\<lambda>_ t. specs_up w (CpiDeploymentYamls t)) s"
    using assms by (simp add: wp_def cpi_driver.fetch_run)
  have "keeps (fixes_field cfg) (FetchCpiDeploymentYamls w m vs k)"
    by (rule cpi_driver.fetch_fixed) simp_all
  from wp_fixed [OF run this] show ?thesis by simp
qed

lemma wp_check:
  assumes h: "healthy w req (cfg s) m V" and cache: "cache_in V s"
    and m: "matrix_up w (environ s COMPAT_MATRIX_CONFIG_URL) (environ s COMPAT_MATRIX_CONFIG_CONTENT) m"
    and mc: "getMatrixConfig (environ s COMPAT_MATRIX_CONFIG_URL) (environ s COMPAT_MATRIX_CONFIG_CONTENT) = Inr mc"
  shows "wp (CheckCompatAndRetrieveSpec w req mc) (\<lambda>_ t. installed w t \<and> cfg t = cfg s) s"
proof -
  from h have api: "api_up w" and vc: "vcenters_up w V (configKeys req (cfg s))" and sup: "supported w m V"
    by (auto simp: healthy_def)
  have place: "wp (placeCSINamespace w) (\<lambda>_ t. installed w t \<and> cfg t = cfg s) u" if "installed w u" "cfg u = cfg s" for u
  proof -
    have "wp (placeCSINamespace w) (\<lambda>_ _. True) u" using that by (intro wp_place [OF api]) (simp add: installed_def)
    moreover have "keeps (fixes_field (\<lambda>s. (cfg s, CpiDeploymentYamls s, CsiDeploymentYamls s, CurrentCSIDeployedVersion s))) (placeCSINamespace w)"
      by (rule placeCSINamespace_fixed) simp_all
    ultimately show ?thesis by (rule wp_fixed) (use that in \<open>simp add: installed_def\<close>)
  qed
  have fetch: "wp (if cloud_configs (cfg s) \<noteq> [] then FetchCpiDeploymentYamls w m vs k else ret ())
      (\<lambda>_. wp (FetchCsiDeploymentYamls w m vs k) (\<lambda>_. wp (placeCSINamespace w) (\<lambda>_ t. installed w t \<and> cfg t = cfg s))) u"
    if u: "cfg u = cfg s" and vs: "vs \<noteq> []" "set vs \<subseteq> V" and k: "w_serverVersion w tr = Inr (major, minor)" "k = major @ ''.'' @ minor"
    for vs k tr major minor u
  proof -
    from sup vs k obtain a where a: "selectCPI w m vs k = Inr a" "a \<noteq> []" "specs_up w (CpiDeploymentPaths (cpiInfo m a))"
      unfolding supported_def by blast
    from sup vs k obtain b where b: "selectCSI w m vs k = Inr b" "b \<noteq> []" "specs_up w (CsiDeploymentPaths (csiInfo m b))" "csi_ready w b"
      unfolding supported_def by blast
    have csi: "wp (FetchCsiDeploymentYamls w m vs k) (\<lambda>_. wp (placeCSINamespace w) (\<lambda>_ t. installed w t \<and> cfg t = cfg s)) v"
      if "cfg v = cfg s" "cloud_configs (cfg s) \<noteq> [] \<longrightarrow> specs_up w (CpiDeploymentYamls v)" for v
      by (rule wp_mono [OF wp_fetchCSI [OF b]], rule place) (use that in \<open>simp_all add: installed_def\<close>)
    show ?thesis
    proof (cases "cloud_configs (cfg s) = []")
      case False
      then show ?thesis by (simp, intro wp_mono [OF wp_fetchCPI [OF a]] csi) (simp_all add: u)
    qed (simp add: csi u)
  qed
  have key: "\<lparr>NnNamespace = NnNamespace req, NnName = n\<rparr> \<in> configKeys req (cfg s)" if "n \<in> insert (storage_config (cfg s)) (set (cloud_configs (cfg s)))" for n
    using that by (auto simp: configKeys_def)
  let ?R = "\<lambda>m vs k. \<lambda>u. wp (if cloud_configs (cfg u) \<noteq> [] then FetchCpiDeploymentYamls w m vs k else ret ())
      (\<lambda>_. wp (FetchCsiDeploymentYamls w m vs k) (\<lambda>_. wp (placeCSINamespace w) (\<lambda>_ t. installed w t \<and> cfg t = cfg s))) u"
  have matrix: "wp (readMatrix w mc) (\<lambda>m. ?R m vs k) u"
    if "cfg u = cfg s" "environ u = environ s" "vs \<noteq> []" "set vs \<subseteq> V" "w_serverVersion w tr = Inr (major, minor)" "k = major @ ''.'' @ minor"
    for vs k tr major minor u
  proof (rule wp_mono [OF wp_matrix])
    show "matrix_up w (environ u COMPAT_MATRIX_CONFIG_URL) (environ u COMPAT_MATRIX_CONFIG_CONTENT) m"
      "getMatrixConfig (environ u COMPAT_MATRIX_CONFIG_URL) (environ u COMPAT_MATRIX_CONFIG_CONTENT) = Inr mc"
      using m mc that(2) by simp_all
    show "?R x vs k t" if "x = m \<and> cfg t = cfg u" for x t
    proof -
      have t: "cfg t = cfg s" "x = m" using that \<open>cfg u = cfg s\<close> by simp_all
      show ?thesis unfolding t
        by (rule fetch) (rule t \<open>vs \<noteq> []\<close> \<open>set vs \<subseteq> V\<close> \<open>w_serverVersion w tr = Inr (major, minor)\<close> \<open>k = major @ ''.'' @ minor\<close>)+
    qed
  qed
  have versions: "wp (FetchVsphereVersions w req) (\<lambda>vs. wp (readMatrix w mc) (\<lambda>m. ?R m vs k)) u"
    if u: "cfg u = cfg s" "environ u = environ s" "cache_in V u" and k: "w_serverVersion w tr = Inr (major, minor)" "k = major @ ''.'' @ minor"
    for k tr major minor u
  proof (rule wp_fixed [OF wp_versions [OF vc u(3)] FetchVsphereVersions_fixed [where f = environ]])
    show "\<lparr>NnNamespace = NnNamespace req, NnName = n\<rparr> \<in> configKeys req (cfg s)"
      if "n \<in> insert (storage_config (cfg u)) (set (cloud_configs (cfg u)))" for n
      using key that u by simp
    show "wp (readMatrix w mc) (\<lambda>m. ?R m vs k) t" if "vs \<noteq> [] \<and> set vs \<subseteq> V \<and> cfg t = cfg u" "environ t = environ u" for vs t
      by (rule matrix [OF _ _ _ _ k]) (use that u in simp_all)
  qed simp_all
  have "wp (Fetchk8sVersions w) (\<lambda>k. wp (FetchVsphereVersions w req) (\<lambda>vs. wp (readMatrix w mc) (\<lambda>m. ?R m vs k))) s"
  proof (rule wp_fixed [OF wp_k8s [OF api] request_fixed(3) [where f = "\<lambda>s. (environ s, sessionCache s)"]])
    fix k and t :: St
    assume k: "\<exists>tr major minor. w_serverVersion w tr = Inr (major, minor) \<and> k = major @ ''.'' @ minor \<and> cfg t = cfg s"
      and t: "(environ t, sessionCache t) = (environ s, sessionCache s)"
    from k obtain tr major minor where "w_serverVersion w tr = Inr (major, minor)" "k = major @ ''.'' @ minor" by blast
    moreover have "cfg t = cfg s" "environ t = environ s" "cache_in V t" using k t cache by (auto simp: cache_in_def)
    ultimately show "wp (FetchVsphereVersions w req) (\<lambda>vs. wp (readMatrix w mc) (\<lambda>m. ?R m vs k)) t" by (intro versions)
  qed simp
  then show ?thesis by (simp add: CheckCompatAndRetrieveSpec_def)
qed

section \<open>The run of the reconciler\<close>

lemma wp_drivers:
  assumes h: "healthy w req (cfg s) m V" and cache: "cache_in V s"
    and m: "matrix_up w (environ s COMPAT_MATRIX_CONFIG_URL) (environ s COMPAT_MATRIX_CONFIG_CONTENT) m"
  shows "wp (reconcileDrivers w req) (\<lambda>_ t. csi_phase (cfg t) = Deployed \<and>
    (cloud_configs (cfg s) \<noteq> [] \<longrightarrow> cpi_phase (cfg t) = Configured \<and> nodes_ready w (cfg t))) s"
proof -
  let ?Q = "\<lambda>_ t. csi_phase (cfg t) = Deployed \<and>
    (cloud_configs (cfg s) \<noteq> [] \<longrightarrow> cpi_phase (cfg t) = Configured \<and> nodes_ready w (cfg t))"
  from h have api: "api_up w" and pods: "pods_up w" and files: "files_up w" and vc: "vcenters_up w V (configKeys req (cfg s))"
    by (auto simp: healthy_def)
  from matrix_upD [OF m] obtain mc where
    mc: "getMatrixConfig (environ s COMPAT_MATRIX_CONFIG_URL) (environ s COMPAT_MATRIX_CONFIG_CONTENT) = Inr mc" by blast
  have ready: "nodes_ready w c = nodes_ready w d" if "StCPI (VdoStatus c) = StCPI (VdoStatus d)" for c d
    using that by (simp add: nodes_ready_def)
  have csi: "wp (reconcileCSIConfiguration w req) ?Q u"
    if "installed w u" "VdoSpec (cfg u) = VdoSpec (cfg s)"
      "cloud_configs (cfg s) \<noteq> [] \<longrightarrow> cpi_phase (cfg u) = Configured \<and> nodes_ready w (cfg u)" for u
  proof (rule wp_mono [OF wp_CSI [OF api pods files vc]])
    show "specs_up w (CsiDeploymentYamls u)" "csi_ready w (CurrentCSIDeployedVersion u)" using that by (simp_all add: installed_def)
    show "\<lparr>NnNamespace = NnNamespace req, NnName = storage_config (cfg u)\<rparr> \<in> configKeys req (cfg s)"
      using that by (simp add: configKeys_def)
    show "?Q () t" if "csi_phase (cfg t) = Deployed \<and> StCPI (VdoStatus (cfg t)) = StCPI (VdoStatus (cfg u))" for t
    proof -
      have "cpi_phase (cfg t) = cpi_phase (cfg u)" "nodes_ready w (cfg t) = nodes_ready w (cfg u)"
        using that ready [of "cfg t" "cfg u"] by simp_all
      with that \<open>cloud_configs (cfg s) \<noteq> [] \<longrightarrow> cpi_phase (cfg u) = Configured \<and> nodes_ready w (cfg u)\<close> show ?thesis by simp
    qed
  qed
  have both: "wp (reconcileCPIConfiguration w req) (\<lambda>_. wp (reconcileCSIConfiguration w req) ?Q) u"
    if "installed w u" "cfg u = cfg s" for u
  proof (rule wp_fixed [OF wp_CPI fixed_bare(6)])
    show "healthy w req (cfg u) m V" using h that by simp
    show "wp (reconcileCSIConfiguration w req) ?Q t"
      if "VdoSpec (cfg t) = VdoSpec (cfg u) \<and> (cloud_configs (cfg u) \<noteq> [] \<longrightarrow> cpi_phase (cfg t) = Configured \<and> nodes_ready w (cfg t))"
        "bare t = bare u" for t
      using that \<open>installed w u\<close> \<open>cfg u = cfg s\<close> bareD [OF that(2)] by (intro csi) (simp_all add: installed_def)
    show "cloud_configs (cfg u) \<noteq> [] \<longrightarrow> specs_up w (CpiDeploymentYamls u)" using that by (simp add: installed_def)
  qed
  have check: "wp (CheckCompatAndRetrieveSpec w req mc) (\<lambda>_. wp (reconcileCPIConfiguration w req) (\<lambda>_. wp (reconcileCSIConfiguration w req) ?Q)) u"
    if "cfg u = cfg s" "environ u = environ s" "cache_in V u" for u
    by (rule wp_mono [OF wp_check]) (use h m mc that both in auto)
  obtain v where "w_newClientset w (trace s) = Inr v" using api_upD(14) [OF api] by blast
  then show ?thesis by (simp add: reconcileDrivers_def mc check cache)
qed

text \<open>The statement is that of the property below.\<close>

lemma Reconcile_progress_run:
  assumes "healthy w (snd (splitRequest req)) vdo m V" and "w_listVDO w (trace s) = Inr [vdo]"
    and "matrix_up w (environ s COMPAT_MATRIX_CONFIG_URL) (environ s COMPAT_MATRIX_CONFIG_CONTENT) m"
    and "environ s ''VDO_NAMESPACE'' \<noteq> []" and "NnName req \<noteq> CM_NAME"
    and "\<not> skipNode (fst (splitRequest req)) vdo" and "cache_in V s"
  shows "\<exists>t. Reconcile w req s = (Ok (), t) \<and> csi_phase (cfg t) = Deployed \<and>
    (cloud_configs vdo \<noteq> [] \<longrightarrow> cpi_phase (cfg t) = Configured \<and> nodes_ready w (cfg t))"
proof -
  let ?u = "s\<lparr>VDO_NAMESPACE := environ s ''VDO_NAMESPACE'', trace := trace s @ [ListVDOConfigs], cfg := vdo\<rparr>"
  have "cache_in V ?u" using assms(7) by (simp add: cache_in_def)
  then have "wp (reconcileDrivers w (snd (splitRequest req))) (\<lambda>_ t. csi_phase (cfg t) = Deployed \<and>
    (cloud_configs vdo \<noteq> [] \<longrightarrow> cpi_phase (cfg t) = Configured \<and> nodes_ready w (cfg t))) ?u"
    using wp_drivers [of w "snd (splitRequest req)" ?u m V] assms(1,3) by simp
  then have "wp (Reconcile w req) (\<lambda>_ t. csi_phase (cfg t) = Deployed \<and>
    (cloud_configs vdo \<noteq> [] \<longrightarrow> cpi_phase (cfg t) = Configured \<and> nodes_ready w (cfg t))) s"
    using assms(2,4,5,6) by (simp add: Reconcile_def updateMatrixInfo_def case_prod_unfold)
  then show ?thesis by (auto simp: wp_def)
qed

text \<open>
  C4. One run is enough. In a healthy cluster - the API server takes what the operator writes, the pods of the drivers
  run, every node is initialised, the vCenters let the operator in, and the matrix has versions for them whose
  spec files can be read - a run of \<open>Reconcile\<close> for the one \<^verbatim>\<open>VDOConfig\<close> succeeds from whatever state the
  operator and the phases are in: it leaves the storage driver Deployed, and with a cloud provider in the
  specification the cloud provider Configured and every node of a listing Ready. It does not hang in between:
  no step needs a second event.
\<close>

theorem Reconcile_progress:
  assumes "healthy w (snd (splitRequest req)) vdo m V" and "w_listVDO w (trace s) = Inr [vdo]"
    and "matrix_up w (environ s COMPAT_MATRIX_CONFIG_URL) (environ s COMPAT_MATRIX_CONFIG_CONTENT) m"
    and "environ s ''VDO_NAMESPACE'' \<noteq> []" and "NnName req \<noteq> CM_NAME"
    and "\<not> skipNode (fst (splitRequest req)) vdo" and "cache_in V s"
  shows "\<exists>t. Reconcile w req s = (Ok (), t) \<and> csi_phase (cfg t) = Deployed \<and>
    (cloud_configs vdo \<noteq> [] \<longrightarrow> cpi_phase (cfg t) = Configured \<and> nodes_ready w (cfg t))"
  using Reconcile_progress_run [OF assms] .

text \<open>A cluster of one node and one vCenter, with the laboratory's matrix.\<close>

definition healthy_world :: "nat list world" where
  "healthy_world = full_world\<lparr>w_updateSecret := \<lambda>t x. Inr (), w_updateConfigMap := \<lambda>t x. Inr (),
     w_deleteNamespace := \<lambda>t n. Inr (), w_updateDaemonSet := \<lambda>t d. Inr (),
     w_sessionIsActive := \<lambda>t c. Inr False, w_statusVCC := \<lambda>t c. Inr c\<rparr>"

lemma healthy_world_sel [simp]:
  "w_updateSecret healthy_world = (\<lambda>t x. Inr ())" "w_updateConfigMap healthy_world = (\<lambda>t x. Inr ())"
  "w_deleteNamespace healthy_world = (\<lambda>t n. Inr ())" "w_updateDaemonSet healthy_world = (\<lambda>t d. Inr ())"
  "w_sessionIsActive healthy_world = (\<lambda>t c. Inr False)" "w_statusVCC healthy_world = (\<lambda>t c. Inr c)"
  "w_listVDO healthy_world = (\<lambda>t. Inr [lab_cfg])" "w_newClientset healthy_world = (\<lambda>t. Inr ())"
  "w_updateNode healthy_world = (\<lambda>t n. Inr ())" "w_createObject healthy_world = (\<lambda>t x. Inr ())"
  "w_httpGet healthy_world = (\<lambda>t u. Inr \<lparr>StatusCode = 200, Body = Inr ''conf''\<rparr>)"
  "w_getDaemonSet healthy_world = (\<lambda>t k. Inr lab_ds)" "w_listPods healthy_world = (\<lambda>t ns l. Inr [\<lparr>PodName = ''csi'', PodPhaseOf = PodRunning\<rparr>])"
  "w_listNodes healthy_world = (\<lambda>t. Inr [lab_node])" "w_listCSINodes healthy_world = (\<lambda>t. Inr [NodeName lab_node])"
  "w_listCSIDrivers healthy_world = (\<lambda>t. Inr [''csi.vsphere.vmware.com''])" "w_getSecret healthy_world = w_getSecret store_world"
  "w_createSecret healthy_world = (\<lambda>t x. Inr ())" "w_getConfigMap healthy_world = (\<lambda>t k. Inl (ApiErr NotFound ''none''))"
  "w_createConfigMap healthy_world = (\<lambda>t x. Inr ())" "w_statusVDO healthy_world = (\<lambda>t c. Inr c)"
  "w_openFile healthy_world = (\<lambda>t f. Inr ())" "w_truncateFile healthy_world = (\<lambda>t f. Inr ())"
  "w_writeFile healthy_world = (\<lambda>t f x. Inr ())" "w_readFile healthy_world = (\<lambda>t f. Inr ''conf'')"
  "p_iniLoad healthy_world = (\<lambda>x. Inr ())" "w_getVCC healthy_world = (\<lambda>t k. Inr lab_vcc)"
  "w_newVimClient healthy_world = (\<lambda>_ _ _ _. Inr lab_client)" "w_login healthy_world = (\<lambda>_ _ _. Inr ())"
  "w_findDatacenter healthy_world = (\<lambda>_ _ n. Inr (Some \<lparr>DcId = 1, InventoryPath = n\<rparr>))"
  "w_newDiscovery healthy_world = (\<lambda>_. Inr ())" "w_serverVersion healthy_world = (\<lambda>_. Inr (''1'', ''21+''))"
  "p_jsonMatrix healthy_world = (\<lambda>_. Inr sample_matrix)" "w_createNamespace healthy_world = (\<lambda>_ _. Inr ())"
  "p_newVersion healthy_world = sample_newVersion" "p_versionCompare healthy_world = sample_compare"
  "p_parseURL healthy_world = p_parseURL down_world" "p_yamlDocuments healthy_world = p_yamlDocuments down_world"
  "p_yamlKind healthy_world = p_yamlKind down_world" "p_yamlObject healthy_world = p_yamlObject down_world"
  by (simp_all add: healthy_world_def)

lemma selectVersion_same:
  "vs \<noteq> [] \<Longrightarrow> set vs \<subseteq> {x} \<Longrightarrow> selectVersion ok vl [x] d = Inr v \<Longrightarrow> v \<noteq> d \<Longrightarrow> selectVersion ok vl vs d = Inr v"
proof (induction vs arbitrary: d)
  case (Cons y ys)
  then have y: "y = x" and f: "firstMatch (ok x) (rev vl) = Inr (Some v)" by (auto split: sum.splits option.splits)
  have "selectVersion ok vl ys v = Inr v"
    using Cons.prems(2) f by (induction ys) auto
  then show ?case by (simp add: y f)
qed simp

lemma conf_decodes: "decodes healthy_world ''conf''"
proof -
  have "Split ''conf'' (CHR '';'') = [''conf'']" by code_simp
  then show ?thesis by (simp add: decodes_def docItems_def)
qed

lemma healthy_specs: "specs_up healthy_world ys"
proof -
  have "serves healthy_world t p ''conf''" for t p by (simp add: serves_def)
  then show ?thesis using conf_decodes unfolding specs_up_def by blast
qed

lemma healthy_supported: "supported healthy_world sample_matrix {''7.0''}"
proof -
  have csi: "selectCSI healthy_world sample_matrix vs ''1.21+'' = Inr ''2.4.0''" if "vs \<noteq> []" "set vs \<subseteq> {''7.0''}" for vs
    unfolding selectCSI_def by (rule selectVersion_same [OF that lab_select(1) [unfolded selectCSI_def]]) simp_all
  have cpi: "selectCPI healthy_world sample_matrix vs ''1.21+'' = Inr ''1.21.0''" if "vs \<noteq> []" "set vs \<subseteq> {''7.0''}" for vs
    unfolding selectCPI_def by (rule selectVersion_same [OF that lab_select(2) [unfolded selectCPI_def]]) simp_all
  have "csi_ready healthy_world ''2.4.0''"
    by (auto simp: csi_ready_def compareVersions_def sample_newVersion_def sample_field_def)
  with csi cpi have "(\<exists>v. selectCPI healthy_world sample_matrix vs ''1.21+'' = Inr v \<and> v \<noteq> [] \<and>
        specs_up healthy_world (CpiDeploymentPaths (cpiInfo sample_matrix v))) \<and>
     (\<exists>v. selectCSI healthy_world sample_matrix vs ''1.21+'' = Inr v \<and> v \<noteq> [] \<and>
        specs_up healthy_world (CsiDeploymentPaths (csiInfo sample_matrix v)) \<and> csi_ready healthy_world v)"
    if "vs \<noteq> []" "set vs \<subseteq> {''7.0''}" for vs
    using that healthy_specs by (intro conjI exI [of _ "''1.21.0''"] exI [of _ "''2.4.0''"]) auto
  then show ?thesis unfolding supported_def by simp
qed

lemma healthy_lab: "healthy healthy_world lab_req lab_cfg sample_matrix {''7.0''}"
proof -
  have "api_up healthy_world"
    by (simp add: api_up_def status_echo_def status_accepts_def finds_or_lacks_def accepts_def accepts_new_def)
  moreover have "pods_up healthy_world"
    by (simp add: pods_up_def host_paths_def lab_ds_def)
  moreover have "files_up healthy_world" by (simp add: files_up_def accepts_def)
  moreover have "vcenters_up healthy_world {''7.0''} (configKeys lab_req lab_cfg)"
    by (simp add: vcenters_up_def usable_def)
  ultimately show ?thesis using healthy_supported by (simp add: healthy_def)
qed

theorem Reconcile_progress_witness:
  "\<exists>t. Reconcile healthy_world lab_req run_St = (Ok (), t) \<and> csi_phase (cfg t) = Deployed \<and> cpi_phase (cfg t) = Configured"
  using Reconcile_progress [of healthy_world lab_req lab_cfg sample_matrix "{''7.0''}" run_St] healthy_lab
  by (auto simp: matrix_up_def skipNode_def cache_in_def)

end
