(* ===== verification/Startup.thy ===== *)
theory Startup
  imports Operator
begin

text \<open>
  The start of the operator (\<^verbatim>\<open>main.go\<close>): the flags, the steps up to \<^verbatim>\<open>mgr.Start\<close> with the exit code, and what
  the three \<^verbatim>\<open>SetupWithManager\<close> functions make of an event of the cluster. Klog, zap and the manager of
  controller-runtime are outside the repository: \<open>foreign\<close> says which further flags they define, and \<open>host\<close>
  answers each step.
\<close>

section \<open>Flags\<close>

text \<open>
  The variables of \<^verbatim>\<open>main\<close>. A flag of another package is boolean or not, and accepts a value or not.
\<close>

record Flags =
  metricsAddr :: string
  probeAddr :: string
  enableLeaderElection :: bool

definition defaultFlags :: Flags where
  "defaultFlags = \<lparr>metricsAddr = '':8080'', probeAddr = '':8081'', enableLeaderElection = False\<rparr>"

type_synonym foreign = "string \<Rightarrow> (bool \<times> (string \<Rightarrow> bool)) option"

text \<open>\<^verbatim>\<open>strconv.ParseBool\<close>.\<close>

definition ParseBool :: "string \<Rightarrow> bool option" where
  "ParseBool s =
     (if s \<in> {''1'', ''t'', ''T'', ''TRUE'', ''true'', ''True''} then Some True
      else if s \<in> {''0'', ''f'', ''F'', ''FALSE'', ''false'', ''False''} then Some False else None)"

definition isBoolFlag :: "foreign \<Rightarrow> string \<Rightarrow> bool option" where
  "isBoolFlag foreign name =
     (if name = ''metrics-bind-address'' \<or> name = ''health-probe-bind-address'' then Some False
      else if name = ''leader-elect'' then Some True
      else map_option fst (foreign name))"

text \<open>\<^verbatim>\<open>Value.Set\<close> of the flag; None is the error.\<close>

definition setFlag :: "foreign \<Rightarrow> string \<Rightarrow> string \<Rightarrow> Flags \<Rightarrow> Flags option" where
  "setFlag foreign name value flags =
     (if name = ''metrics-bind-address'' then Some (flags\<lparr>metricsAddr := value\<rparr>)
      else if name = ''health-probe-bind-address'' then Some (flags\<lparr>probeAddr := value\<rparr>)
      else if name = ''leader-elect'' then map_option (\<lambda>b. flags\<lparr>enableLeaderElection := b\<rparr>) (ParseBool value)
      else (case foreign name of Some (b, accepts) \<Rightarrow> if accepts value then Some flags else None | None \<Rightarrow> None))"

text \<open>
  \<^verbatim>\<open>flag.Parse\<close>. The name of a flag ends at the first equals sign; the flag set of the command line exits with
  code 0 after a request for help and with code 2 after an error.
\<close>

datatype parsed = Parsed Flags "string list" | FlagHelp | BadFlags string

definition flagName :: "string \<Rightarrow> string" where
  "flagName s = (if HasPrefix s ''--'' then drop 2 s else drop 1 s)"

definition splitFlag :: "string \<Rightarrow> string \<times> string option" where
  "splitFlag name = (takeWhile (\<lambda>c. c \<noteq> CHR ''='') name,
     if CHR ''='' \<in> set name then Some (tl (dropWhile (\<lambda>c. c \<noteq> CHR ''='') name)) else None)"

fun parseFlags :: "foreign \<Rightarrow> string list \<Rightarrow> Flags \<Rightarrow> parsed" where
  "parseFlags foreign [] flags = Parsed flags []"
| "parseFlags foreign (s # args) flags =
     (if length s < 2 \<or> hd s \<noteq> CHR ''-'' then Parsed flags (s # args)
      else if s = ''--'' then Parsed flags args
      else if flagName s = [] \<or> hd (flagName s) = CHR ''-'' \<or> hd (flagName s) = CHR ''=''
      then BadFlags (''bad flag syntax: '' @ s)
      else (case splitFlag (flagName s) of (name, given) \<Rightarrow>
        (case isBoolFlag foreign name of
           None \<Rightarrow> if name = ''help'' \<or> name = ''h'' then FlagHelp
                   else BadFlags (''flag provided but not defined: -'' @ name)
         | Some True \<Rightarrow>
             (case setFlag foreign name (case given of Some v \<Rightarrow> v | None \<Rightarrow> ''true'') flags of
                Some flags1 \<Rightarrow> parseFlags foreign args flags1
              | None \<Rightarrow> BadFlags (''invalid boolean value for -'' @ name))
         | Some False \<Rightarrow>
             (case given of
                Some v \<Rightarrow> (case setFlag foreign name v flags of
                    Some flags1 \<Rightarrow> parseFlags foreign args flags1
                  | None \<Rightarrow> BadFlags (''invalid value for flag -'' @ name))
              | None \<Rightarrow> (case args of [] \<Rightarrow> BadFlags (''flag needs an argument: -'' @ name)
                  | v # rest \<Rightarrow> (case setFlag foreign name v flags of
                      Some flags1 \<Rightarrow> parseFlags foreign rest flags1
                    | None \<Rightarrow> BadFlags (''invalid value for flag -'' @ name)))))))"

section \<open>The steps of the start\<close>

record ManagerOptions =
  MetricsBindAddress :: string
  ManagerPort :: int
  HealthProbeBindAddress :: string
  LeaderElection :: bool
  LeaderElectionID :: string

datatype Controller = VsphereCloudConfigController | CompatibilityConfigController | VDOConfigController

datatype step =
    AddClientGoScheme
  | AddVdoScheme
  | SetLogLevel string
  | GetConfig
  | NewManager ManagerOptions
  | SetupController Controller
  | AddHealthzCheck string
  | AddReadyzCheck string
  | StartManager

type_synonym host = "step list \<Rightarrow> step \<Rightarrow> err option"

text \<open>\<open>ExitCode 0\<close> is also what a return of \<^verbatim>\<open>main\<close> gives. A panic exits with code 2.\<close>

datatype exit = ExitCode nat | Panicked err

text \<open>The steps one after the other, up to the first that fails and the end that it brings.\<close>

fun runSteps :: "host \<Rightarrow> (step \<times> (err \<Rightarrow> exit)) list \<Rightarrow> step list \<Rightarrow> step list \<times> exit" where
  "runSteps h [] past = (past, ExitCode 0)"
| "runSteps h ((x, failed) # xs) past =
     (case h past x of None \<Rightarrow> runSteps h xs (past @ [x]) | Some e \<Rightarrow> (past @ [x], failed e))"

definition managerOptions :: "Flags \<Rightarrow> ManagerOptions" where
  "managerOptions flags = \<lparr>MetricsBindAddress = metricsAddr flags, ManagerPort = 9443,
     HealthProbeBindAddress = probeAddr flags, LeaderElection = enableLeaderElection flags,
     LeaderElectionID = ''540e4412.vmware.com''\<rparr>"

text \<open>\<^verbatim>\<open>init\<close>, and \<^verbatim>\<open>main\<close> up to the parsing of the flags; \<^verbatim>\<open>klog.Fatalf\<close> exits with code 255.\<close>

definition initSteps :: "(step \<times> (err \<Rightarrow> exit)) list" where
  "initSteps = [(AddClientGoScheme, Panicked), (AddVdoScheme, Panicked), (SetLogLevel ''4'', \<lambda>_. ExitCode 255)]"

definition managerSteps :: "Flags \<Rightarrow> (step \<times> (err \<Rightarrow> exit)) list" where
  "managerSteps flags =
     map (\<lambda>x. (x, \<lambda>_. ExitCode 1))
       [GetConfig, NewManager (managerOptions flags),
        SetupController VsphereCloudConfigController, SetupController CompatibilityConfigController,
        SetupController VDOConfigController, AddHealthzCheck ''healthz'', AddReadyzCheck ''readyz'', StartManager]"

definition operator_main :: "host \<Rightarrow> foreign \<Rightarrow> string list \<Rightarrow> step list \<times> exit" where
  "operator_main h foreign args =
     (case runSteps h initSteps [] of
        (past, ExitCode 0) \<Rightarrow>
          (case parseFlags foreign args defaultFlags of
             Parsed flags rest \<Rightarrow> runSteps h (managerSteps flags) past
           | FlagHelp \<Rightarrow> (past, ExitCode 0)
           | BadFlags m \<Rightarrow> (past, ExitCode 2))
      | stopped \<Rightarrow> stopped)"

section \<open>Events\<close>

text \<open>The objects that the controllers watch, and the requests that an event of each gives rise to.\<close>

datatype object = VccObject VsphereCloudConfig | CompatObject CompatibilityConfig | VdoObject VDOConfig
  | NodeObject Node | ConfigMapObject ConfigMap

definition watchVcc :: "object \<Rightarrow> NamespacedName list" where
  "watchVcc x = (case x of VccObject c \<Rightarrow> [\<lparr>NnNamespace = VccNamespace c, NnName = VccName c\<rparr>] | _ \<Rightarrow> [])"

definition watchCompat :: "string \<Rightarrow> object \<Rightarrow> NamespacedName list" where
  "watchCompat vdoNamespace x =
     (case x of CompatObject c \<Rightarrow> \<lparr>NnNamespace = CcNamespace c, NnName = CcName c\<rparr> # compatRequests vdoNamespace c | _ \<Rightarrow> [])"

definition watchVdo :: "string \<Rightarrow> object \<Rightarrow> NamespacedName list" where
  "watchVdo vdoNamespace x =
     (case x of VdoObject c \<Rightarrow> [\<lparr>NnNamespace = VdoNamespace c, NnName = VdoName c\<rparr>]
      | NodeObject n \<Rightarrow> validateNode vdoNamespace (Some n)
      | ConfigMapObject cm \<Rightarrow> configMapRequests vdoNamespace (CmKey cm) | _ \<Rightarrow> [])"

text \<open>The events that an object puts into the queues of the three controllers, in the state of the process.\<close>

definition notify :: "object \<Rightarrow> St \<Rightarrow> event list" where
  "notify x s = map VccEvent (watchVcc x) @ map CompatEvent (watchCompat (VDO_NAMESPACE s) x) @
     map VdoEvent (watchVdo (VDO_NAMESPACE s) x)"

text \<open>A sequence of runs, each with the world it meets.\<close>

fun handles :: "('v world \<times> event) list \<Rightarrow> St \<Rightarrow> St" where
  "handles [] s = s"
| "handles ((w, e) # es) s = handles es (snd (handle w e s))"

section \<open>The order of the start\<close>

lemma runSteps_split:
  "runSteps h xs past = (all, x) \<Longrightarrow>
   (all = past @ map fst xs \<and> x = ExitCode 0 \<and> (\<forall>i < length xs. h (past @ map fst (take i xs)) (fst (xs ! i)) = None)) \<or>
   (\<exists>n < length xs. \<exists>e. all = past @ map fst (take (Suc n) xs) \<and> x = snd (xs ! n) e \<and>
      h (past @ map fst (take n xs)) (fst (xs ! n)) = Some e \<and>
      (\<forall>i < n. h (past @ map fst (take i xs)) (fst (xs ! i)) = None))"
proof (induction h xs past rule: runSteps.induct)
  case (2 h y failed xs past)
  show ?case
  proof (cases "h past y")
    case None
    with 2 show ?thesis by (force simp: nth_Cons less_Suc_eq_0_disj split: nat.split)
  next
    case (Some e)
    with 2 show ?thesis by (intro disjI2 exI [of _ 0]) auto
  qed
qed simp

lemma runSteps_append:
  "\<forall>(y, f) \<in> set xs. \<forall>e. f e \<noteq> ExitCode 0 \<Longrightarrow>
   runSteps h (xs @ ys) past = (case runSteps h xs past of (p, ExitCode 0) \<Rightarrow> runSteps h ys p | stopped \<Rightarrow> stopped)"
  by (induction h xs past rule: runSteps.induct) (auto split: option.split exit.split nat.split)

lemma main_steps:
  "parseFlags foreign args defaultFlags = Parsed flags rest \<Longrightarrow>
   operator_main h foreign args = runSteps h (initSteps @ managerSteps flags) []"
  by (subst runSteps_append) (auto simp: initSteps_def operator_main_def split: prod.split exit.split nat.split)

text \<open>The steps in their order; the last is the start of the manager.\<close>

definition allSteps :: "Flags \<Rightarrow> step list" where
  "allSteps flags = map fst (initSteps @ managerSteps flags)"

lemma allSteps_eq:
  "allSteps flags = [AddClientGoScheme, AddVdoScheme, SetLogLevel ''4'', GetConfig, NewManager (managerOptions flags),
     SetupController VsphereCloudConfigController, SetupController CompatibilityConfigController,
     SetupController VDOConfigController, AddHealthzCheck ''healthz'', AddReadyzCheck ''readyz'', StartManager]"
  by (simp add: allSteps_def initSteps_def managerSteps_def)

lemma start_last: "StartManager \<in> set (take n (allSteps flags)) \<Longrightarrow> 11 \<le> n"
  by (rule ccontr) (auto simp: allSteps_eq take_Cons numeral_eq_Suc less_Suc_eq split: nat.splits)

lemma step_fails: "n < 11 \<Longrightarrow> snd ((initSteps @ managerSteps flags) ! n) e \<noteq> ExitCode 0"
  by (auto simp: initSteps_def managerSteps_def nth_Cons numeral_eq_Suc less_Suc_eq split: nat.splits)

lemma no_start_in_init:
  assumes "runSteps h initSteps [] = (past, x)"
  shows "StartManager \<notin> set past"
  using runSteps_split [OF assms] by (auto simp: initSteps_def take_Cons split: nat.splits)

text \<open>
  C12. The manager is started only as the last step of a start in which everything before was accepted: both schemes were
  added, the command line was parsed, the manager was created with the parsed addresses and leader election, each of the
  three controllers was set up once and in this order, and the two health checks were added. The exit code then says
  whether the manager ended without an error, and without a start of the manager the code is 0 only when help was
  asked for.
\<close>

theorem main_order:
  assumes "operator_main h foreign args = (past, x)"
  shows "(StartManager \<in> set past \<longrightarrow> (\<exists>flags rest. parseFlags foreign args defaultFlags = Parsed flags rest \<and>
      past = [AddClientGoScheme, AddVdoScheme, SetLogLevel ''4'', GetConfig,
        NewManager \<lparr>MetricsBindAddress = metricsAddr flags, ManagerPort = 9443, HealthProbeBindAddress = probeAddr flags,
          LeaderElection = enableLeaderElection flags, LeaderElectionID = ''540e4412.vmware.com''\<rparr>,
        SetupController VsphereCloudConfigController, SetupController CompatibilityConfigController,
        SetupController VDOConfigController, AddHealthzCheck ''healthz'', AddReadyzCheck ''readyz'', StartManager] \<and>
      (\<forall>i < 10. h (take i past) (past ! i) = None) \<and>
      x = (if h (take 10 past) StartManager = None then ExitCode 0 else ExitCode 1))) \<and>
    (StartManager \<notin> set past \<longrightarrow> x = ExitCode 0 \<longrightarrow> parseFlags foreign args defaultFlags = FlagHelp)"
proof (cases "parseFlags foreign args defaultFlags")
  case (Parsed flags rest)
  let ?xs = "initSteps @ managerSteps flags"
  have len: "length ?xs = 11" "length (allSteps flags) = 11" by (simp_all add: initSteps_def managerSteps_def allSteps_eq)
  have tk: "map fst (take n ?xs) = take n (allSteps flags)" for n by (simp add: allSteps_def take_map)
  have nth: "fst (?xs ! i) = allSteps flags ! i" if "i < 11" for i using that len(1) unfolding allSteps_def by (simp only: nth_map)
  have last: "allSteps flags ! 10 = StartManager" "StartManager \<in> set (allSteps flags)"
    by (simp_all add: allSteps_eq numeral_eq_Suc)
  have full: "StartManager \<in> set past \<Longrightarrow> past = allSteps flags \<and> (\<forall>i < 10. h (take i past) (past ! i) = None) \<and>
      x = (if h (take 10 past) StartManager = None then ExitCode 0 else ExitCode 1)"
    and none: "StartManager \<notin> set past \<Longrightarrow> x \<noteq> ExitCode 0"
  proof -
    have run: "runSteps h ?xs [] = (past, x)" using assms main_steps [OF Parsed] by simp
    from runSteps_split [OF run, unfolded append_Nil tk len]
    consider "past = allSteps flags" "x = ExitCode 0" "\<forall>i < 11. h (take i (allSteps flags)) (fst (?xs ! i)) = None"
      | n e where "n < 11" "past = take (Suc n) (allSteps flags)" "x = snd (?xs ! n) e" "h (take n (allSteps flags)) (fst (?xs ! n)) = Some e"
        "\<forall>i < n. h (take i (allSteps flags)) (fst (?xs ! i)) = None"
      unfolding map_append [symmetric] allSteps_def [symmetric] by blast
    then have both: "(StartManager \<in> set past \<longrightarrow> past = allSteps flags \<and> (\<forall>i < 10. h (take i past) (past ! i) = None) \<and>
      x = (if h (take 10 past) StartManager = None then ExitCode 0 else ExitCode 1)) \<and> (StartManager \<notin> set past \<longrightarrow> x \<noteq> ExitCode 0)"
    proof cases
      case 1
      have "h (take i (allSteps flags)) (allSteps flags ! i) = None" if "i < 11" for i
        using 1(3) that unfolding nth [OF that, symmetric] by blast
      from this [of 10] this 1(1,2) last show ?thesis by simp
    next
      case 2
      show ?thesis
      proof (cases "n = 10")
        case True
        have "x = ExitCode 1" using 2(3) True by (simp add: initSteps_def managerSteps_def numeral_eq_Suc)
        moreover have "past = allSteps flags" using 2(2) True len by simp
        ultimately show ?thesis using 2(4,5) True nth last by simp
      next
        case False
        with 2 have "StartManager \<notin> set past" using start_last [of "Suc n" flags] by auto
        with 2(1,3) step_fails show ?thesis by simp
      qed
    qed
    show "StartManager \<in> set past \<Longrightarrow> past = allSteps flags \<and> (\<forall>i < 10. h (take i past) (past ! i) = None) \<and>
      x = (if h (take 10 past) StartManager = None then ExitCode 0 else ExitCode 1)"
      by (rule mp [OF conjunct1 [OF both]])
    show "StartManager \<notin> set past \<Longrightarrow> x \<noteq> ExitCode 0" by (rule mp [OF conjunct2 [OF both]])
  qed
  have started: "\<exists>flags rest. parseFlags foreign args defaultFlags = Parsed flags rest \<and> past = allSteps flags \<and>
      (\<forall>i < 10. h (take i past) (past ! i) = None) \<and> x = (if h (take 10 past) StartManager = None then ExitCode 0 else ExitCode 1)"
    if "StartManager \<in> set past"
    by (rule exI [of _ flags], rule exI [of _ rest], rule conjI [OF Parsed full [OF that]])
  show ?thesis
    by (intro conjI impI started [unfolded allSteps_eq managerOptions_def]) (assumption, drule none, simp)
next
  case FlagHelp
  then show ?thesis using assms no_start_in_init [of h]
    by (auto simp: operator_main_def split: prod.splits exit.splits nat.splits)
next
  case (BadFlags m)
  then show ?thesis using assms no_start_in_init [of h]
    by (auto simp: operator_main_def split: prod.splits exit.splits nat.splits)
qed

definition up_host :: host where
  "up_host past x = None"

definition deployedArgs :: "string \<Rightarrow> string \<Rightarrow> string list" where
  "deployedArgs probe metrics = [''--health-probe-bind-address='' @ probe, ''--metrics-bind-address='' @ metrics, ''--leader-elect'']"

lemma flag_sel [simp]:
  "HasPrefix (CHR ''-'' # CHR ''-'' # s) ''--''" "flagName (CHR ''-'' # CHR ''-'' # s) = s"
  by (simp_all add: flagName_def)

lemma deployed_flags:
  "parseFlags foreign (deployedArgs probe metrics) flags =
     Parsed \<lparr>metricsAddr = metrics, probeAddr = probe, enableLeaderElection = True\<rparr> []"
  by (cases flags) (simp add: deployedArgs_def splitFlag_def isBoolFlag_def setFlag_def ParseBool_def)

definition renderFlags :: "Flags \<Rightarrow> string list" where
  "renderFlags flags = [''--metrics-bind-address='' @ metricsAddr flags, ''--health-probe-bind-address='' @ probeAddr flags,
     ''--leader-elect='' @ FormatBool (enableLeaderElection flags)]"

text \<open>
  Flags that are written in Go's form are read back: any addresses (an empty one, one with an equals sign or a dash) and any
  answer about leader election, in front of arguments that are no flags or come behind two dashes. In particular the arguments
  of the deployment give the manager the two addresses and leader election.
\<close>

theorem flags_roundtrip:
  "parseFlags foreign (renderFlags flags @ ''--'' # rest) old = Parsed flags rest \<and>
   parseFlags foreign (renderFlags flags) old = Parsed flags [] \<and>
   parseFlags foreign (deployedArgs probe metrics) old = Parsed \<lparr>metricsAddr = metrics, probeAddr = probe, enableLeaderElection = True\<rparr> []"
  by (cases flags; cases old)
    (simp add: deployed_flags renderFlags_def splitFlag_def isBoolFlag_def setFlag_def ParseBool_def FormatBool_def)

theorem main_order_witness:
  "StartManager \<in> set (fst (operator_main up_host (\<lambda>_. None) (deployedArgs '':8081'' ''127.0.0.1:8089''))) \<and>
   snd (operator_main up_host (\<lambda>_. None) (deployedArgs '':8081'' ''127.0.0.1:8089'')) = ExitCode 0"
proof -
  let ?m = "operator_main up_host (\<lambda>_. None) (deployedArgs '':8081'' ''127.0.0.1:8089'')"
  have "StartManager \<in> set (fst ?m)"
    by (simp add: operator_main_def initSteps_def up_host_def deployed_flags managerSteps_def)
  with main_order [of up_host "\<lambda>_. None" "deployedArgs '':8081'' ''127.0.0.1:8089''" "fst ?m" "snd ?m"] show ?thesis
    by (auto simp: up_host_def)
qed

section \<open>Events of the matrix\<close>

text \<open>What no run but one of \<open>Reconcile\<close> does to the namespace that the filters compare with.\<close>

lemma other_namespace:
  "keeps (fixes_field (\<lambda>s. (VDO_NAMESPACE s, environ s ''VDO_NAMESPACE''))) (ReconcileVcc w req)"
  "keeps (fixes_field (\<lambda>s. (VDO_NAMESPACE s, environ s ''VDO_NAMESPACE''))) (ReconcileCompat w req)"
  unfolding ReconcileVcc_def reconcileVCCredentials_def vccCredentials_def checkSession_def ReconcileCompat_def Let_def
  by (intro keeps_intro; simp)+

definition ns_set :: "St \<Rightarrow> St \<Rightarrow> bool" where
  "ns_set s t \<longleftrightarrow> environ t ''VDO_NAMESPACE'' = environ s ''VDO_NAMESPACE'' \<and>
     (VDO_NAMESPACE s = environ s ''VDO_NAMESPACE'' \<longrightarrow> VDO_NAMESPACE t = environ t ''VDO_NAMESPACE'')"

interpretation ns: step_relation ns_set
  by unfold_locales (auto simp: ns_set_def)

lemma ns_fixed: "keeps (fixes_field (\<lambda>s. (VDO_NAMESPACE s, environ s ''VDO_NAMESPACE''))) m \<Longrightarrow> keeps ns_set m"
  by (auto simp: keeps_def fixes_field_def ns_set_def)

lemma env_key [simp]: "COMPAT_MATRIX_CONFIG_URL \<noteq> ''VDO_NAMESPACE''" "COMPAT_MATRIX_CONFIG_CONTENT \<noteq> ''VDO_NAMESPACE''"
  by (simp_all add: COMPAT_MATRIX_CONFIG_URL_def COMPAT_MATRIX_CONFIG_CONTENT_def)

lemma ns_info: "keeps ns_set (updateMatrixInfo w req)"
proof -
  have env: "keeps ns_set (setEnvVariables k v)" if "k \<noteq> ''VDO_NAMESPACE''" for k v
    unfolding setEnvVariables_def by (rule ns.keeps_modS) (use that in \<open>simp add: ns_set_def\<close>)
  show ?thesis
    unfolding updateMatrixInfo_def
    by (intro ns.keeps_bindM ns.keeps_thenM ns.keeps_tryM ns.keeps_pure keeps_if keeps_case_sum keeps_case_option env
        ns_fixed keeps_intro; simp)
qed

lemma ns_drivers: "keeps ns_set (reconcileDrivers w req)"
proof (rule ns_fixed)
  let ?f = "\<lambda>s. (VDO_NAMESPACE s, environ s ''VDO_NAMESPACE'')"
  have "keeps (fixes_field ?f) (CheckCompatAndRetrieveSpec w req m)" for m by (rule CheckCompat_fixed) simp_all
  moreover have "keeps (fixes_field ?f) (reconcileCPIConfiguration w req)" "keeps (fixes_field ?f) (reconcileCSIConfiguration w req)"
    by (rule drivers_fixed; simp)+
  ultimately show "keeps (fixes_field ?f) (reconcileDrivers w req)"
    unfolding reconcileDrivers_def by (intro keeps_intro; simp)
qed

text \<open>Every run of \<open>Reconcile\<close> sets the namespace to that of the process environment.\<close>

lemma Reconcile_sets_namespace:
  assumes "Reconcile w req s = (r, t)"
  shows "VDO_NAMESPACE t = environ t ''VDO_NAMESPACE'' \<and> environ t ''VDO_NAMESPACE'' = environ s ''VDO_NAMESPACE''"
proof -
  let ?s = "s\<lparr>VDO_NAMESPACE := environ s ''VDO_NAMESPACE''\<rparr>"
  let ?m = "bindM (getS VDO_NAMESPACE)
        (\<lambda>ns. if ns = [] then throw (Msg ''Unable to determine operator namespace'')
          else thenM (updateMatrixInfo w req)
            (bindM (ask ListVDOConfigs (\<lambda>t. w_listVDO w t))
              (\<lambda>vdoConfigList. case vdoConfigList of
                 [vdoConfig] \<Rightarrow>
                   thenM (modCfg (\<lambda>_. vdoConfig))
                    (case splitRequest req of (nodeName, req1) \<Rightarrow>
                       if skipNode nodeName vdoConfig then ret () else reconcileDrivers w req1)
               | _ \<Rightarrow> throw (Msg ''VDOConfig resource not found''))))"
  have cfg: "keeps ns_set (modCfg g)" for g by (rule ns_fixed) (intro keeps_intro; simp)
  have ask: "keeps ns_set (ask c f)" for c :: call and f :: "call list \<Rightarrow> err + VDOConfig list"
    by (rule ns_fixed) (intro keeps_intro; simp)
  have "keeps ns_set ?m"
    by (intro ns.keeps_bindM ns.keeps_thenM ns.keeps_pure keeps_if ns_info ask)
      (auto split: list.split intro!: ns.keeps_thenM ns.keeps_pure cfg keeps_if keeps_case_prod ns_drivers)
  moreover have "?m ?s = (r, t)" using assms by (simp add: Reconcile_def thenM_def bindM_def)
  ultimately have "ns_set ?s t" by (rule keepsD)
  then show ?thesis by (simp add: ns_set_def)
qed

lemma handle_namespace:
  "handle w e s = (r, t) \<Longrightarrow> environ t ''VDO_NAMESPACE'' = environ s ''VDO_NAMESPACE'' \<and>
   VDO_NAMESPACE t = (case e of VdoEvent q \<Rightarrow> environ s ''VDO_NAMESPACE'' | _ \<Rightarrow> VDO_NAMESPACE s)"
proof (cases e)
  case (VdoEvent q)
  assume "handle w e s = (r, t)"
  with VdoEvent Reconcile_sets_namespace [of w q s r t] show ?thesis by simp
next
  case (VccEvent q)
  assume "handle w e s = (r, t)"
  with VccEvent keepsD [OF other_namespace(1), of w q s r t] show ?thesis by (simp add: fixes_field_def)
next
  case (CompatEvent q)
  assume "handle w e s = (r, t)"
  with CompatEvent keepsD [OF other_namespace(2), of w q s r t] show ?thesis by (simp add: fixes_field_def)
qed

lemma handles_namespace:
  "environ (handles es s) ''VDO_NAMESPACE'' = environ s ''VDO_NAMESPACE'' \<and>
   VDO_NAMESPACE (handles es s) =
     (if \<exists>w q. (w, VdoEvent q) \<in> set es then environ s ''VDO_NAMESPACE'' else VDO_NAMESPACE s)"
proof (induction es arbitrary: s)
  case (Cons we es)
  obtain w e where we: "we = (w, e)" by force
  from handle_namespace [OF prod.collapse [symmetric], of w e s] Cons.IH [of "snd (handle w e s)"] show ?case
    by (cases e) (auto simp: we)
qed simp

text \<open>
  C32. An event of the matrix ConfigMap reaches the operator only after some run of the reconciler of \<^verbatim>\<open>VDOConfig\<close>: the
  filter compares with the namespace of the operator, which only that reconciler sets. As long as no \<^verbatim>\<open>VDOConfig\<close> has been
  handled, whatever else has, the event of the ConfigMap is dropped; afterwards it becomes a request for the matrix, exactly
  if the ConfigMap has its name and lies in the namespace of the operator.
\<close>

theorem matrix_event_delivery:
  assumes "s = handles es (init_St\<lparr>environ := env\<rparr>)" and "NnNamespace (CmKey cm) \<noteq> []"
  shows "notify (ConfigMapObject cm) s =
    (if (\<exists>w q. (w, VdoEvent q) \<in> set es) \<and> CmKey cm = \<lparr>NnNamespace = env ''VDO_NAMESPACE'', NnName = CM_NAME\<rparr>
     then [VdoEvent (CmKey cm)] else [])"
proof -
  let ?known = "\<exists>w q. (w, VdoEvent q) \<in> set es"
  have ns: "VDO_NAMESPACE s = (if ?known then env ''VDO_NAMESPACE'' else [])"
    using handles_namespace [of es "init_St\<lparr>environ := env\<rparr>"] assms(1) by simp
  have run: "notify (ConfigMapObject cm) s = map VdoEvent (configMapRequests (VDO_NAMESPACE s) (CmKey cm))"
    by (simp add: notify_def watchVcc_def watchCompat_def watchVdo_def)
  show ?thesis
  proof (cases ?known)
    case True
    then have "VDO_NAMESPACE s = env ''VDO_NAMESPACE''" using ns by (simp only: if_True)
    then show ?thesis unfolding run using True by (cases "CmKey cm") (simp add: configMapRequests_def)
  next
    case False
    then have "VDO_NAMESPACE s = []" using ns by (simp only: if_False)
    then show ?thesis unfolding run using False assms(2) by (simp add: configMapRequests_def)
  qed
qed

theorem matrix_event_delivery_witness:
  "notify (ConfigMapObject content_map) (handles ([] :: (nat list world \<times> event) list) (init_St\<lparr>environ := environ run_St\<rparr>)) = [] \<and>
   notify (ConfigMapObject content_map) (handles [(run_world, VdoEvent lab_req)] (init_St\<lparr>environ := environ run_St\<rparr>)) = [VdoEvent cm_req]"
proof -
  have k: "CmKey content_map = cm_req" "cm_req = \<lparr>NnNamespace = ''vmware-system-vdo'', NnName = CM_NAME\<rparr>"
    by (simp_all add: content_map_def cm_req_def)
  have "NnNamespace (CmKey content_map) \<noteq> []" by (simp add: k)
  note d = matrix_event_delivery [OF refl this]
  have env: "environ run_St ''VDO_NAMESPACE'' = ''vmware-system-vdo''" by simp
  have "\<exists>w q. (w, VdoEvent q) \<in> set [(run_world, VdoEvent lab_req)]" by auto
  then have "notify (ConfigMapObject content_map) (handles [(run_world, VdoEvent lab_req)] (init_St\<lparr>environ := environ run_St\<rparr>)) = [VdoEvent cm_req]"
    unfolding d unfolding k env by (simp only: simp_thms if_True)
  moreover have "notify (ConfigMapObject content_map) (handles ([] :: (nat list world \<times> event) list) (init_St\<lparr>environ := environ run_St\<rparr>)) = []"
    unfolding d by (simp only: list.set empty_iff simp_thms if_False)
  ultimately show ?thesis by (rule conjI [rotated])
qed

end
