(* ===== verification/Convergence.thy ===== *)
theory Convergence
  imports Frame Progress Startup
begin

text \<open>
  The reconcilers in a closed loop. The status that the reconciler of \<^verbatim>\<open>VsphereCloudConfig\<close> writes is what the
  reconciler of \<^verbatim>\<open>VDOConfig\<close> reads later: here the API server keeps the cloud configurations, with the status of
  the last update, and the two reconcilers meet through it. In a cluster where nothing stands in the way the drivers
  are deployed whatever the order in which the events arrive.
\<close>

section \<open>The configurations that the API server keeps\<close>

definition vccKey :: "VsphereCloudConfig \<Rightarrow> NamespacedName" where
  "vccKey c = \<lparr>NnNamespace = VccNamespace c, NnName = VccName c\<rparr>"

text \<open>The status after the requests of a trace, for a resource that has \<open>st\<close> before them.\<close>

fun recorded :: "call list \<Rightarrow> NamespacedName \<Rightarrow> VsphereCloudConfigStatus \<Rightarrow> VsphereCloudConfigStatus" where
  "recorded [] k st = st"
| "recorded (StatusUpdateVCC c # t) k st = recorded t k (if vccKey c = k then VccStatus c else st)"
| "recorded (_ # t) k st = recorded t k st"

definition stored :: "'v world \<Rightarrow> (NamespacedName \<Rightarrow> err + VsphereCloudConfig) \<Rightarrow> bool" where
  "stored w base \<longleftrightarrow> (\<forall>k c. base k = Inr c \<longrightarrow> vccKey c = k) \<and>
     (\<forall>t k. w_getVCC w t k = map_sum id (\<lambda>c. c\<lparr>VccStatus := recorded t k (VccStatus c)\<rparr>) (base k))"

definition status_free :: "call \<Rightarrow> bool" where
  "status_free c \<longleftrightarrow> (case c of StatusUpdateVCC _ \<Rightarrow> False | _ \<Rightarrow> True)"

lemma recorded_append [simp]: "recorded (t @ u) k st = recorded u k (recorded t k st)"
  by (induction t k st rule: recorded.induct) simp_all

lemma recorded_free: "list_all status_free t \<Longrightarrow> recorded t k st = st"
  by (induction t k st rule: recorded.induct) (simp_all add: status_free_def)

lemma permitted_free: "permitted c \<Longrightarrow> status_free c"
  by (cases c) (simp_all add: permitted_def status_free_def)

lemma reading_free: "reading_call c \<Longrightarrow> status_free c"
  by (rule permitted_free [OF permitted_reading])

text \<open>Only a status update changes what the server shows.\<close>

lemma stored_frozen: "stored w base \<Longrightarrow> frozen w"
  using recorded_free [of "[c]" for c] by (simp add: stored_def frozen_def fun_eq_iff permitted_free)

text \<open>The configuration \<open>k\<close>, if it exists, is verified after the requests of a trace.\<close>

definition verified :: "(NamespacedName \<Rightarrow> err + VsphereCloudConfig) \<Rightarrow> NamespacedName \<Rightarrow> call list \<Rightarrow> bool" where
  "verified base k t \<longleftrightarrow> (\<forall>c. base k = Inr c \<longrightarrow> ConfigState (recorded t k (VccStatus c)) = VsphereConfigVerified)"

lemma verified_free: "verified base k t \<Longrightarrow> list_all status_free u \<Longrightarrow> verified base k (t @ u)"
  by (simp add: verified_def recorded_free)

lemma verified_emits: "emits status_free s t \<Longrightarrow> verified base k (trace s) \<Longrightarrow> verified base k (trace t)"
  by (auto elim!: emitsE intro: verified_free)

section \<open>A cluster where nothing stands in the way\<close>

definition reachable :: "'v world \<Rightarrow> VsphereCloudConfig \<Rightarrow> bool" where
  "reachable w c \<longleftrightarrow> Credentials (VccSpec c) \<noteq> [] \<and>
     (\<forall>t. \<exists>x. w_getSecret w t \<lparr>NnNamespace = VC_CREDS_SECRET_NS, NnName = Credentials (VccSpec c)\<rparr> = Inr x) \<and>
     (\<exists>url. p_parseURL w (VcIP (VccSpec c)) = Inr (Some url))"

text \<open>
  As \<open>healthy\<close>, with the store of the API server in the place of configurations that are verified from the start.
  The one \<^verbatim>\<open>VDOConfig\<close> has the specification \<open>spec\<close>; its status is any.
\<close>

definition ready_cluster :: "'v world \<Rightarrow> (NamespacedName \<Rightarrow> err + VsphereCloudConfig) \<Rightarrow> NamespacedName \<Rightarrow> VDOConfig \<Rightarrow>
    CompatMatrix \<Rightarrow> string set \<Rightarrow> bool" where
  "ready_cluster w base req vdo m V \<longleftrightarrow> api_up w \<and> pods_up w \<and> files_up w \<and> supported w m V \<and> vcenters_up w V {} \<and>
     (\<forall>t c. \<exists>b. w_sessionIsActive w t c = Inr b) \<and> accepts (w_statusVCC w) \<and> stored w base \<and>
     (\<forall>k \<in> configKeys req vdo. \<exists>c. base k = Inr c \<and> reachable w c) \<and>
     (\<forall>t. \<exists>vdo1. w_listVDO w t = Inr [vdo1] \<and> VdoSpec vdo1 = VdoSpec vdo)"

text \<open>An event that does not bring another matrix.\<close>

definition calm :: "event \<Rightarrow> bool" where
  "calm e \<longleftrightarrow> (case e of VdoEvent q \<Rightarrow> NnName q \<noteq> CM_NAME | _ \<Rightarrow> True)"

section \<open>What no event changes\<close>

text \<open>The sessions are those of vCenters with the versions \<open>V\<close>.\<close>

definition keeps_versions :: "'v world \<Rightarrow> string set \<Rightarrow> St \<Rightarrow> St \<Rightarrow> bool" where
  "keeps_versions w V s t \<longleftrightarrow> vcenters_up w V {} \<and> cache_in V s \<longrightarrow> cache_in V t"

interpretation versions_step: step_relation "keeps_versions w V" for w V
  by unfold_locales (auto simp: keeps_versions_def)

lemma versions_other: "keeps (fixes_field sessionCache) m \<Longrightarrow> keeps (keeps_versions w V) m"
  by (simp add: keeps_def fixes_field_def keeps_versions_def cache_in_def)

lemma versions_created:
  assumes "createSession w server dcs usr pwd thumb s = (Ok sess, t)" and "vcenters_up w V {}"
  shows "VsphereVersion sess \<in> V"
proof -
  obtain i c url u where "w_newVimClient w u url i thumb = Inr c" "VsphereVersion sess = AboutVersion c"
    using assms(1) by (cases "p_parseURL w server")
      (auto simp: createSession_def newClient_def ask_def runs Let_def split: option.splits sum.splits)
  with vcenters_upD(2) [OF assms(2), of u url i thumb] show ?thesis by auto
qed

lemma versions_session: "keeps (keeps_versions w V) (GetOrCreate w server dcs usr pwd thumb)"
  unfolding GetOrCreate_def Let_def
proof (rule versions_step.keeps_bindM)
  show "keeps (keeps_versions w V) (cachedSession w (server @ usr) dcs)"
    unfolding cachedSession_def sessionActive_def by (intro versions_other keeps_intro; simp)
next
  fix hit s t
  have new: "keeps (keeps_versions w V) (createSession w server dcs usr pwd thumb)"
    unfolding createSession_def newClient_def findDatacenters_def Let_def by (intro versions_other keeps_intro; simp)
  have store: "keeps (keeps_versions w V) (modS (\<lambda>s. s\<lparr>sessionCache := AList.update k sess (sessionCache s)\<rparr>))"
    if "createSession w server dcs usr pwd thumb u = (Ok sess, v)" for k sess u v
    using versions_created [OF that] by (intro versions_step.keeps_modS) (auto simp: keeps_versions_def cache_in_update)
  show "keeps (keeps_versions w V) (case hit of None \<Rightarrow> bindM (createSession w server dcs usr pwd thumb)
      (\<lambda>sess. thenM (modS (\<lambda>s. s\<lparr>sessionCache := AList.update (server @ usr) sess (sessionCache s)\<rparr>)) (ret sess))
    | Some c \<Rightarrow> ret c)"
    by (intro keeps_case_option versions_step.keeps_bindM versions_step.keeps_thenM versions_step.keeps_pure new store)
qed

interpretation versions: process_relation "keeps_versions w V" w for w V
proof unfold_locales
  show "keeps_versions w V s t" if "wf_fields t = wf_fields s" for s t
    using that by (simp add: keeps_versions_def wf_fields_def cache_in_def)
  show "keeps (keeps_versions w V) (FetchCsiDeploymentYamls w m vs k)" for m vs k
    by (rule versions_other) (rule csi_driver.fetch_fixed, simp_all)
  show "keeps (keeps_versions w V) (FetchCpiDeploymentYamls w m vs k)" for m vs k
    by (rule versions_other) (rule cpi_driver.fetch_fixed, simp_all)
  show "keeps (keeps_versions w V) (setCsiNamespace ns)" for ns
    unfolding setCsiNamespace_def by (rule versions_other) (intro keeps_intro; simp)
qed (rule versions_session)

text \<open>The environment, and with it the matrix.\<close>

lemma Reconcile_environ: "NnName req \<noteq> CM_NAME \<Longrightarrow> keeps (fixes_field environ) (Reconcile w req)"
proof -
  assume "NnName req \<noteq> CM_NAME"
  then have info: "updateMatrixInfo w req = ret ()" by (simp add: updateMatrixInfo_def fun_eq_iff bindM_def)
  have "keeps (fixes_field environ) (CheckCompatAndRetrieveSpec w q m)" for q m by (rule CheckCompat_fixed) simp_all
  moreover have "keeps (fixes_field environ) (reconcileCPIConfiguration w q)" "keeps (fixes_field environ) (reconcileCSIConfiguration w q)" for q
    by (rule drivers_fixed; simp)+
  ultimately have "keeps (fixes_field environ) (reconcileDrivers w q)" for q
    unfolding reconcileDrivers_def by (intro keeps_intro; simp)
  then show ?thesis
    unfolding Reconcile_def info by (intro keeps_intro) (auto split: list.split intro!: keeps_intro)
qed

lemma other_environ: "keeps (fixes_field environ) (ReconcileVcc w q)" "keeps (fixes_field environ) (ReconcileCompat w q)"
  unfolding ReconcileVcc_def reconcileVCCredentials_def vccCredentials_def checkSession_def ReconcileCompat_def Let_def
  by (intro keeps_intro; simp)+

lemma handle_environ: "calm e \<Longrightarrow> keeps (fixes_field environ) (handle w e)"
  by (cases e) (simp_all add: calm_def Reconcile_environ other_environ)

section \<open>A run for a cloud configuration\<close>

lemma ready_clusterD:
  assumes "ready_cluster w base req vdo m V"
  shows "api_up w" "pods_up w" "files_up w" "supported w m V" "vcenters_up w V {}" "\<And>t c. \<exists>b. w_sessionIsActive w t c = Inr b"
    "\<And>t c. \<exists>x. w_statusVCC w t c = Inr x" "stored w base" "\<And>k. k \<in> configKeys req vdo \<Longrightarrow> \<exists>c. base k = Inr c \<and> reachable w c"
    "\<And>t. \<exists>vdo1. w_listVDO w t = Inr [vdo1] \<and> VdoSpec vdo1 = VdoSpec vdo"
  using assms by (simp_all add: ready_cluster_def accepts_def)

lemma wp_vccCredentials:
  assumes "ready_cluster w base req vdo m V" and "reachable w c" and "cache_in V s"
  shows "wp (reconcileVCCredentials w c) (\<lambda>x t. x = (setVccStatus VsphereConfigVerified [] c, None)) s"
proof -
  note ready = ready_clusterD [OF assms(1)]
  from assms(2) obtain sec url where secret: "Credentials (VccSpec c) \<noteq> []"
    "w_getSecret w (trace s) \<lparr>NnNamespace = VC_CREDS_SECRET_NS, NnName = Credentials (VccSpec c)\<rparr> = Inr sec"
    and url: "p_parseURL w (VcIP (VccSpec c)) = Inr (Some url)" unfolding reachable_def by blast
  have check: "wp (checkSession w c sess) (\<lambda>x t. x = (setVccStatus VsphereConfigVerified [] c, None)) u" for sess u
    using ready(6) [of "trace u" "SessClient sess"] by (auto simp: checkSession_def Let_def)
  have session: "wp (tryM (GetOrCreate w (VcIP (VccSpec c)) dcs usr pwd thumb))
      (\<lambda>r. wp (case r of Inl e \<Rightarrow> ret (f e) | Inr sess \<Rightarrow> checkSession w c sess)
        (\<lambda>x t. x = (setVccStatus VsphereConfigVerified [] c, None))) u" if "cache_in V u" for dcs usr pwd thumb u f
    by (rule wp_try [OF wp_mono [OF wp_GetOrCreate [OF ready(5) url that]]]) (simp add: check)
  have creds: "wp (vccCredentials w c) (\<lambda>r t. (\<exists>usr pwd. r = Inr (usr, pwd)) \<and> cache_in V t) s"
    using secret assms(3) by (auto simp: vccCredentials_def Let_def intro!: wp_try)
  show ?thesis
    unfolding reconcileVCCredentials_def wp_bindM Let_def
    by (rule wp_mono [OF creds]) (auto simp: session)
qed

lemma Verified_after:
  assumes "ready_cluster w base req vdo m V" and "k \<in> configKeys req vdo" and "cache_in V s"
  shows "verified base k (trace (snd (ReconcileVcc w k s)))"
proof -
  note ready = ready_clusterD [OF assms(1)]
  from ready(9) [OF assms(2)] obtain c where c: "base k = Inr c" "reachable w c" by blast
  let ?c = "c\<lparr>VccStatus := recorded (trace s) k (VccStatus c)\<rparr>"
  have get: "w_getVCC w (trace s) k = Inr ?c" and key: "vccKey c = k" using ready(8) c by (simp_all add: stored_def)
  have "reachable w ?c" using c(2) by (simp add: reachable_def)
  from wp_vccCredentials [OF assms(1) this, of "s\<lparr>trace := trace s @ [GetVCC k]\<rparr>"] assms(3)
  have "wp (ReconcileVcc w k) (\<lambda>_ t. verified base k (trace t)) s"
    using ready(7) c(1) key
    by (auto simp: ReconcileVcc_def get verified_def setVccStatus_def vccKey_def elim!: wp_mono)
  then show ?thesis by (auto simp: wp_def)
qed

section \<open>A configuration stays verified\<close>

lemma Compat_free: "keeps (emits status_free) (ReconcileCompat w q)"
  unfolding ReconcileCompat_def Let_def by (intro keeps_intro; simp add: status_free_def)

lemma verified_kept:
  assumes "ready_cluster w base req vdo m V" and "k \<in> configKeys req vdo" and "cache_in V s" and "verified base k (trace s)"
  shows "verified base k (trace (snd (handle w e s)))"
proof (cases e)
  case (VdoEvent q)
  have "keeps (emits status_free) (Reconcile w q)"
    by (rule keeps_emits_mono [OF Reconcile_emits permitted_free [OF reconcile_permitted]])
  then have "emits status_free s (snd (Reconcile w q s))" by (simp add: keeps_def)
  with assms(4) show ?thesis by (simp add: VdoEvent verified_emits)
next
  case (CompatEvent q)
  have "emits status_free s (snd (ReconcileCompat w q s))" using Compat_free [of w q] by (simp add: keeps_def)
  with assms(4) show ?thesis by (simp add: CompatEvent verified_emits)
next
  case (VccEvent q)
  have stored: "stored w base" by (rule ready_clusterD [OF assms(1)])
  show ?thesis
  proof (cases "q = k")
    case True
    with Verified_after [OF assms(1-3)] show ?thesis by (simp add: VccEvent)
  next
    case other: False
    show ?thesis
    proof (cases "base q")
      case (Inl err)
      then have "w_getVCC w (trace s) q = Inl err" using stored by (simp add: stored_def)
      then have "trace (snd (ReconcileVcc w q s)) = trace s @ [GetVCC q]"
        by (simp add: ReconcileVcc_def bindM_def wrapM_def ask_def)
      then show ?thesis using verified_free [OF assms(4), of "[GetVCC q]"] by (simp add: VccEvent status_free_def)
    next
      case (Inr c)
      let ?c = "c\<lparr>VccStatus := recorded (trace s) q (VccStatus c)\<rparr>"
      have get: "w_getVCC w (trace s) q = Inr ?c" and key: "vccKey c = q" using stored Inr by (simp_all add: stored_def)
      obtain r t where run: "ReconcileVcc w q s = (r, t)" by force
      from ReconcileVcc_run [OF run get] obtain cs config' failure where
        t: "trace t = trace s @ GetVCC q # cs @ [StatusUpdateVCC config']" and cs: "list_all reading_call cs"
        and v: "verdict w ?c config' failure" by blast
      have "vccKey config' = q" using v key by (auto simp: verdict_def setVccStatus_def vccKey_def)
      moreover have "list_all status_free (GetVCC q # cs)" using cs reading_free by (auto simp: list_all_iff status_free_def)
      ultimately have "recorded (trace t) k st = recorded (trace s) k st" for st
        using other recorded_free [of "GetVCC q # cs" k] by (simp add: t)
      with assms(4) run show ?thesis by (simp add: VccEvent verified_def)
    qed
  qed
qed

section \<open>After the events\<close>

lemma handles_append: "handles (xs @ ys) s = handles ys (handles xs s)"
  by (induction xs s rule: handles.induct) simp_all

lemma after_events:
  assumes "ready_cluster w base req vdo m V" and "cache_in V s" and "list_all calm es"
  shows "cache_in V (handles (map (Pair w) es) s) \<and> environ (handles (map (Pair w) es) s) = environ s \<and>
    (\<forall>k \<in> configKeys req vdo. VccEvent k \<in> set es \<or> verified base k (trace s) \<longrightarrow>
       verified base k (trace (handles (map (Pair w) es) s)))"
  using assms(3)
proof (induction es rule: rev_induct)
  case Nil
  with assms(2) show ?case by simp
next
  case (snoc e es)
  let ?s = "handles (map (Pair w) es) s"
  obtain r t where run: "handle w e ?s = (r, t)" by force
  from snoc have cache: "cache_in V ?s" and env: "environ ?s = environ s" by simp_all
  have "keeps_versions w V ?s t" by (rule keepsD [OF versions.handle_keeps run])
  then have "cache_in V t" using cache ready_clusterD(5) [OF assms(1)] by (simp add: keeps_versions_def)
  moreover have "calm e" using snoc by simp
  then have "environ t = environ s" using env keepsD [OF handle_environ run] by (simp add: fixes_field_def)
  moreover have "verified base k (trace t)" if "k \<in> configKeys req vdo" "VccEvent k \<in> set (es @ [e]) \<or> verified base k (trace s)" for k
  proof (cases "e = VccEvent k")
    case True
    then show ?thesis using Verified_after [OF assms(1) that(1) cache] run by simp
  next
    case False
    then have "VccEvent k \<in> set es \<or> verified base k (trace s)" using that by simp
    then have "verified base k (trace ?s)" using snoc that(1) by simp blast
    from verified_kept [OF assms(1) that(1) cache this, of e] run show ?thesis by simp
  qed
  ultimately show ?case using run by (simp add: handles_append)
qed

lemma verified_usable: "reachable w c \<Longrightarrow> usable w c \<longleftrightarrow> ConfigState (VccStatus c) = VsphereConfigVerified"
  by (auto simp: usable_def reachable_def)

lemma planRaws_frame [frame]: "planRaws (with_configs w f) raws = planRaws w raws"
  by (induction raws) (simp_all cong: case_congs)

lemma planDocs_frame [frame]: "planDocs (with_configs w f) bufs = planDocs w bufs"
  by (induction bufs) (simp_all add: docItems_def frame cong: case_congs)

lemma cluster_frame [frame]:
  "serves (with_configs w f) = serves w" "decodes (with_configs w f) = decodes w"
  by (intro ext, simp add: serves_def decodes_def frame cong: case_congs)+

lemma specs_frame [frame]: "specs_up (with_configs w f) = specs_up w"
  by (intro ext) (simp add: specs_up_def frame)

lemma matrix_frame [frame]: "matrix_up (with_configs w f) = matrix_up w"
  by (intro ext) (simp add: matrix_up_def frame)

lemma supported_frame [frame]: "supported (with_configs w f) = supported w"
  by (intro ext) (simp add: supported_def csi_ready_def frame)

lemma parts_frame [frame]:
  "api_up (with_configs w f) = api_up w" "pods_up (with_configs w f) = pods_up w" "files_up (with_configs w f) = files_up w"
  by (simp_all add: api_up_def pods_up_def files_up_def status_echo_def status_accepts_def)

text \<open>The configurations as the server shows them after the events make the cluster healthy.\<close>

lemma healthy_after:
  assumes "ready_cluster w base req vdo m V" and "\<And>k. k \<in> configKeys req vdo \<Longrightarrow> verified base k (trace s)"
    and "VdoSpec vdo1 = VdoSpec vdo"
  shows "healthy (with_configs w (\<lambda>t. w_getVCC w (trace s))) req vdo1 m V"
proof -
  let ?w = "with_configs w (\<lambda>t. w_getVCC w (trace s))"
  note ready = ready_clusterD [OF assms(1)]
  have keys: "configKeys req vdo1 = configKeys req vdo" using assms(3) by (simp add: configKeys_def)
  have "\<exists>c. w_getVCC w (trace s) k = Inr c \<and> usable ?w c" if "k \<in> configKeys req vdo" for k
  proof -
    from ready(9) [OF that] obtain c where c: "base k = Inr c" "reachable w c" by blast
    let ?c = "c\<lparr>VccStatus := recorded (trace s) k (VccStatus c)\<rparr>"
    have "w_getVCC w (trace s) k = Inr ?c" using ready(8) c by (simp add: stored_def)
    moreover have "usable ?w ?c"
      using assms(2) [OF that] c by (auto simp: verified_def usable_def reachable_def)
    ultimately show ?thesis by blast
  qed
  then have "vcenters_up ?w V (configKeys req vdo1)"
    using ready(5) by (simp add: vcenters_up_def keys)
  moreover have "api_up ?w" "pods_up ?w" "files_up ?w" using ready(1-3) by (simp_all add: frame)
  moreover have "supported ?w m V"
    using ready(4) by (simp add: frame)
  ultimately show ?thesis by (simp add: healthy_def)
qed

text \<open>
  C1. Whatever the order of the events, the drivers get deployed. The API server keeps the cloud configurations with the
  status of their last update, none of them need be verified at the start, and nothing else stands in the way: the
  vCenters let the operator in, the server takes what the operator writes, the pods of the drivers run and the matrix
  supports the cluster. The operator starts and handles any events in any order and any number of times - failed runs
  for the \<^verbatim>\<open>VDOConfig\<close> that came too early, other resources, nodes - among them one for each cloud configuration that the
  \<^verbatim>\<open>VDOConfig\<close> names, and none that brings another matrix. Then the next run for the \<^verbatim>\<open>VDOConfig\<close> succeeds, and leaves
  the storage driver Deployed and, with a cloud provider in the specification, the cloud provider Configured and every
  listed node Ready.
\<close>

theorem any_order_deploys:
  assumes "ready_cluster w base (snd (splitRequest req)) vdo m V"
    and "matrix_up w (env COMPAT_MATRIX_CONFIG_URL) (env COMPAT_MATRIX_CONFIG_CONTENT) m" and "env ''VDO_NAMESPACE'' \<noteq> []"
    and "list_all calm es" and "\<And>k. k \<in> configKeys (snd (splitRequest req)) vdo \<Longrightarrow> VccEvent k \<in> set es"
    and "calm (VdoEvent req)" and "fst (splitRequest req) = []"
  shows "\<exists>t. Reconcile w req (handles (map (Pair w) es) (init_St\<lparr>environ := env\<rparr>)) = (Ok (), t) \<and>
    csi_phase (cfg t) = Deployed \<and>
    (cloud_configs vdo \<noteq> [] \<longrightarrow> cpi_phase (cfg t) = Configured \<and> nodes_ready w (cfg t))"
proof -
  let ?s = "handles (map (Pair w) es) (init_St\<lparr>environ := env\<rparr>)"
  let ?w = "with_configs w (\<lambda>t. w_getVCC w (trace ?s))"
  note ready = ready_clusterD [OF assms(1)]
  have "cache_in V (init_St\<lparr>environ := env\<rparr>)" by (simp add: cache_in_def)
  from after_events [OF assms(1) this assms(4)] assms(5)
  have cache: "cache_in V ?s" and env: "environ ?s = env"
    and ver: "\<And>k. k \<in> configKeys (snd (splitRequest req)) vdo \<Longrightarrow> verified base k (trace ?s)" by simp_all
  obtain vdo1 where vdo1: "w_listVDO w (trace ?s) = Inr [vdo1]" "VdoSpec vdo1 = VdoSpec vdo" using ready(10) by blast
  have "matrix_up ?w (env COMPAT_MATRIX_CONFIG_URL) (env COMPAT_MATRIX_CONFIG_CONTENT) m"
    using assms(2) by (simp add: frame)
  with Reconcile_progress_run [OF healthy_after [OF assms(1) ver vdo1(2)], where s = "?s"] assms(3,6,7) cache env vdo1(1)
  obtain t where t: "Reconcile ?w req ?s = (Ok (), t)" "csi_phase (cfg t) = Deployed"
    "cloud_configs vdo1 \<noteq> [] \<longrightarrow> cpi_phase (cfg t) = Configured \<and> nodes_ready ?w (cfg t)"
    by (auto simp: calm_def skipNode_def)
  have "Reconcile w req ?s = (Ok (), t)" using t(1) Reconcile_frozen [OF stored_frozen [OF ready(8)]] by simp
  with t vdo1(2) show ?thesis by (simp add: nodes_ready_def)
qed

text \<open>The laboratory with its configuration not looked at yet; the \<^verbatim>\<open>VDOConfig\<close> is handled too early.\<close>

definition lab_store :: "NamespacedName \<Rightarrow> err + VsphereCloudConfig" where
  "lab_store k = (if k = \<lparr>NnNamespace = ''vmware-system-vdo'', NnName = ''vc1''\<rparr>
     then Inr (setVccStatus ConfigUnset [] lab_vcc) else Inl (ApiErr NotFound ''none''))"

definition loop_world :: "nat list world" where
  "loop_world = with_configs healthy_world (\<lambda>t k. map_sum id (\<lambda>c. c\<lparr>VccStatus := recorded t k (VccStatus c)\<rparr>) (lab_store k))"

lemma loop_ready: "ready_cluster loop_world lab_store lab_req lab_cfg sample_matrix {''7.0''}"
proof -
  from healthy_lab have h: "api_up healthy_world" "pods_up healthy_world" "files_up healthy_world"
    "supported healthy_world sample_matrix {''7.0''}" by (simp_all add: healthy_def)
  have "stored loop_world lab_store"
    by (auto simp: stored_def loop_world_def lab_store_def vccKey_def setVccStatus_def lab_vcc_def)
  moreover have "\<exists>c. lab_store k = Inr c \<and> reachable loop_world c" if "k \<in> configKeys lab_req lab_cfg" for k
    using that by (auto simp: configKeys_def lab_store_def reachable_def loop_world_def setVccStatus_def)
  moreover have "\<exists>b. w_sessionIsActive loop_world t c = Inr b" for t c
    by (rule exI [of _ False]) (simp add: loop_world_def)
  moreover have "api_up loop_world" "pods_up loop_world" "files_up loop_world" "supported loop_world sample_matrix {''7.0''}"
    using h by (simp_all add: loop_world_def frame)
  moreover have "vcenters_up loop_world {''7.0''} {}" "accepts (w_statusVCC loop_world)"
    "\<exists>vdo1. w_listVDO loop_world t = Inr [vdo1] \<and> VdoSpec vdo1 = VdoSpec lab_cfg" for t
    by (simp_all add: loop_world_def vcenters_up_def accepts_def)
  ultimately show ?thesis unfolding ready_cluster_def by blast
qed

theorem any_order_deploys_witness:
  "\<exists>t. Reconcile loop_world lab_req (handles (map (Pair loop_world)
       [VdoEvent lab_req, VccEvent \<lparr>NnNamespace = ''vmware-system-vdo'', NnName = ''vc1''\<rparr>, VdoEvent lab_req])
       (init_St\<lparr>environ := environ run_St\<rparr>)) = (Ok (), t) \<and> csi_phase (cfg t) = Deployed \<and> cpi_phase (cfg t) = Configured"
proof -
  let ?es = "[VdoEvent lab_req, VccEvent \<lparr>NnNamespace = ''vmware-system-vdo'', NnName = ''vc1''\<rparr>, VdoEvent lab_req]"
  have req: "splitRequest lab_req = ([], lab_req)" by code_simp
  have calm: "calm (VdoEvent lab_req)" by (simp add: calm_def lab_req_def CM_NAME_def)
  have ready: "ready_cluster loop_world lab_store (snd (splitRequest lab_req)) lab_cfg sample_matrix {''7.0''}"
    using loop_ready by (simp add: req)
  have matrix: "matrix_up loop_world (environ run_St COMPAT_MATRIX_CONFIG_URL) (environ run_St COMPAT_MATRIX_CONFIG_CONTENT) sample_matrix"
    by (simp add: loop_world_def frame matrix_up_def)
  have keys: "VccEvent k \<in> set ?es" if "k \<in> configKeys (snd (splitRequest lab_req)) lab_cfg" for k
    using that by (auto simp: configKeys_def req)
  have "list_all calm ?es" using calm by (simp add: calm_def)
  from any_order_deploys [OF ready matrix _ this keys calm] show ?thesis by (auto simp: req)
qed

end
