(* ===== verification/Settled.thy ===== *)
theory Settled
  imports Progress
begin

text \<open>
  A settled cluster: the phases are final, and what the operator would write is what the API server has. A run of
  \<open>Reconcile\<close> there looks at everything and changes nothing. \<open>idles Q P m R\<close> is partial correctness: a run of \<open>m\<close> from
  a state that satisfies \<open>P\<close> that returns a value makes only requests that satisfy \<open>Q\<close>, and ends as \<open>R\<close> says.
  That the run returns one in a healthy cluster is the subject of \<^verbatim>\<open>Progress\<close>.
\<close>

section \<open>Runs that idle\<close>

definition idles :: "(call \<Rightarrow> bool) \<Rightarrow> (St \<Rightarrow> bool) \<Rightarrow> 'a M \<Rightarrow> ('a \<Rightarrow> St \<Rightarrow> bool) \<Rightarrow> bool" where
  "idles Q P m R \<longleftrightarrow> (\<forall>s x t. P s \<and> m s = (Ok x, t) \<longrightarrow> emits Q s t \<and> R x t)"

lemma idlesI: "(\<And>s x t. P s \<Longrightarrow> m s = (Ok x, t) \<Longrightarrow> emits Q s t \<and> R x t) \<Longrightarrow> idles Q P m R"
  unfolding idles_def by blast

lemma idlesD: "idles Q P m R \<Longrightarrow> P s \<Longrightarrow> m s = (Ok x, t) \<Longrightarrow> emits Q s t \<and> R x t"
  by (simp add: idles_def)

lemma idles_bindM:
  assumes "idles Q P m R" and "\<And>x. idles Q (R x) (k x) S"
  shows "idles Q P (bindM m k) S"
proof (rule idlesI)
  fix s y t assume P: "P s" and run: "bindM m k s = (Ok y, t)"
  from run obtain x u where x: "m s = (Ok x, u)" "k x u = (Ok y, t)" by (auto simp: runs)
  from idlesD [OF assms(1) P x(1)] have su: "emits Q s u" and R: "R x u" by auto
  from idlesD [OF assms(2) R x(2)] su show "emits Q s t \<and> S y t" by (blast intro: emits.R_trans)
qed

lemma idles_thenM: "idles Q P m (\<lambda>_. R) \<Longrightarrow> idles Q R k S \<Longrightarrow> idles Q P (thenM m k) S"
  unfolding thenM_def by (rule idles_bindM)

lemma idles_onErr: "idles Q P m R \<Longrightarrow> idles Q P (onErr m h) R"
  by (simp add: idles_def runs)

lemma idles_wrapM: "idles Q P m R \<Longrightarrow> idles Q P (wrapM msg m) R"
  by (simp add: idles_def runs)

lemma idles_ret: "(\<And>s. P s \<Longrightarrow> R x s) \<Longrightarrow> idles Q P (ret x) R"
  by (simp add: idles_def emits.R_refl)

lemma idles_getS: "(\<And>s. P s \<Longrightarrow> R (f s) s) \<Longrightarrow> idles Q P (getS f) R"
  by (simp add: idles_def emits.R_refl)

lemma idles_modS: "(\<And>s. P s \<Longrightarrow> trace (f s) = trace s) \<Longrightarrow> (\<And>s. P s \<Longrightarrow> R () (f s)) \<Longrightarrow> idles Q P (modS f) R"
  by (auto simp: idles_def intro!: emitsI [where cs = "[]"])

lemma idles_liftO: "(\<And>s x. P s \<Longrightarrow> r = Ok x \<Longrightarrow> R x s) \<Longrightarrow> idles Q P (liftO r) R"
  by (auto simp: idles_def emits.R_refl)

lemma idles_throw: "idles Q P (throw e) R"
  by (simp add: idles_def)

lemma idles_ask:
  assumes "Q c" and "\<And>s x. P s \<Longrightarrow> f (trace s) = Inr x \<Longrightarrow> R x (s\<lparr>trace := trace s @ [c]\<rparr>)"
  shows "idles Q P (ask c f) R"
  using assms by (auto simp: idles_def runs intro!: emitsI [where cs = "[c]"])

lemma idles_tryM_ask:
  assumes "Q c" and "\<And>s. P s \<Longrightarrow> R (f (trace s)) (s\<lparr>trace := trace s @ [c]\<rparr>)"
  shows "idles Q P (tryM (ask c f)) R"
proof (rule idlesI)
  fix s x t assume "P s" "tryM (ask c f) s = (Ok x, t)"
  then show "emits Q s t \<and> R x t"
    using assms by (cases "f (trace s)") (auto simp: tryM_def ask_def intro!: emitsI [where cs = "[c]"])
qed

lemma idles_mono:
  "idles Q P m R \<Longrightarrow> (\<And>s. P' s \<Longrightarrow> P s) \<Longrightarrow> (\<And>x s. R x s \<Longrightarrow> R' x s) \<Longrightarrow> idles Q P' m R'"
  unfolding idles_def by blast

lemma idles_assume: "(A \<Longrightarrow> idles Q P m R) \<Longrightarrow> idles Q (\<lambda>s. P s \<and> A) m R"
  unfolding idles_def by blast

lemma idles_if: "(b \<Longrightarrow> idles Q P m R) \<Longrightarrow> (\<not> b \<Longrightarrow> idles Q P k R) \<Longrightarrow> idles Q P (if b then m else k) R"
  by simp

lemma idles_mapM:
  assumes "\<And>x. x \<in> set xs \<Longrightarrow> idles Q P (f x) (\<lambda>y t. P t \<and> p x y)"
  shows "idles Q P (mapM f xs) (\<lambda>ys t. P t \<and> list_all2 p xs ys)"
  using assms
proof (induction xs)
  case (Cons x xs)
  have rest: "idles Q P (mapM f xs) (\<lambda>ys t. P t \<and> list_all2 p xs ys)" using Cons by simp
  have "idles Q (\<lambda>t. P t \<and> p x y) (bindM (mapM f xs) (\<lambda>ys. ret (y # ys))) (\<lambda>ys t. P t \<and> list_all2 p (x # xs) ys)" for y
  proof (cases "p x y")
    case True
    then show ?thesis by (intro idles_bindM [OF idles_mono [OF rest]] idles_ret) auto
  qed (simp add: idles_def)
  then show ?case by (simp add: idles_bindM [OF Cons.prems])
qed (auto intro: idles_ret)

lemma idles_forM: "(\<And>x. x \<in> set xs \<Longrightarrow> idles Q P (f x) (\<lambda>_. P)) \<Longrightarrow> idles Q P (forM f xs) (\<lambda>_. P)"
  by (induction xs) (auto intro: idles_ret idles_thenM)

text \<open>Operations that only read, and leave a field of the state alone.\<close>

lemma idles_reads:
  assumes "keeps (emits Q) m" and "keeps (fixes_field f) m"
  shows "idles Q (\<lambda>s. p (f s)) m (\<lambda>_ s. p (f s))"
proof (rule idlesI)
  fix s x t assume "p (f s)" and run: "m s = (Ok x, t)"
  with keepsD [OF assms(1) run] keepsD [OF assms(2) run] show "emits Q s t \<and> p (f t)" by (simp add: fixes_field_def)
qed

text \<open>In a state with the configuration \<open>c\<close>.\<close>

abbreviation at :: "VDOConfig \<Rightarrow> St \<Rightarrow> bool" where
  "at c s \<equiv> cfg s = c"

section \<open>A settled cluster\<close>

text \<open>
  The requests of a run there: reading, the temporary files of the operator's pod, the namespace of the storage driver,
  and from version 2.5.0 of the storage driver the switch in its ConfigMap, which every run sets again.
\<close>

definition switched :: "'v world \<Rightarrow> ConfigMap \<Rightarrow> bool" where
  "switched w cm \<longleftrightarrow> (\<exists>t ns cm0. w_getConfigMap w t \<lparr>NnNamespace = ns, NnName = CSI_FSS_CONFIGMAP\<rparr> = Inr cm0 \<and>
     cm = cm0\<lparr>CmData := mput (CmData cm0) CSI_NODE_ID ''true''\<rparr>)"

definition idle_call :: "'v world \<Rightarrow> call \<Rightarrow> bool" where
  "idle_call w c \<longleftrightarrow> reading_call c \<or> conf_file_call c \<or> tmp_call CSI_SECRET_CONFIG_FILE c \<or>
     (\<exists>n. c = CreateNamespace n \<or> c = DeleteNamespace n) \<or> (\<exists>cm. c = UpdateConfigMapReq cm \<and> switched w cm)"

lemma idle_calls [simp]:
  "reading_call c \<Longrightarrow> idle_call w c" "conf_file_call c \<Longrightarrow> idle_call w c" "tmp_call CSI_SECRET_CONFIG_FILE c \<Longrightarrow> idle_call w c"
  "idle_call w (CreateNamespace n)" "idle_call w (DeleteNamespace n)" "idle_call w (UpdateConfigMapReq cm) = switched w cm"
  by (auto simp: idle_call_def reading_call_def session_call_def readonly_call_def conf_file_call_def tmp_call_def)

abbreviation idle :: "'v world \<Rightarrow> (St \<Rightarrow> bool) \<Rightarrow> 'a M \<Rightarrow> ('a \<Rightarrow> St \<Rightarrow> bool) \<Rightarrow> bool" where
  "idle w \<equiv> idles (idle_call w)"

definition shown :: "'v world \<Rightarrow> string \<Rightarrow> string \<Rightarrow> VsphereCloudConfig \<Rightarrow> bool" where
  "shown w ns n v \<longleftrightarrow> (\<exists>t. w_getVCC w t \<lparr>NnNamespace = ns, NnName = n\<rparr> = Inr v)"

text \<open>
  What the API server has for the cloud provider: the secret with the credentials of the cloud configurations, the
  ConfigMap with their rendering, and the nodes, all of them initialised, labelled and Ready in the status.
\<close>

definition cpi_settled :: "'v world \<Rightarrow> string \<Rightarrow> VDOConfig \<Rightarrow> bool" where
  "cpi_settled w ns c \<longleftrightarrow> cpi_phase c = Configured \<and> node_status c \<noteq> None \<and>
     (\<forall>items. list_all2 (shown w ns) (cloud_configs c) items \<longrightarrow>
        (\<forall>creds t. map fst creds = items \<and> (\<forall>(v, login) \<in> set creds. login_of w v login) \<longrightarrow>
           (\<exists>x. w_getSecret w t \<lparr>NnNamespace = VC_CREDS_SECRET_NS, NnName = SECRET_NAME\<rparr> = Inr x \<and>
              DeepEqual_map (secretData creds make_map) (SecretData x))) \<and>
        (\<forall>t. \<exists>x. w_getConfigMap w t \<lparr>NnNamespace = VC_CREDS_SECRET_NS, NnName = CONFIGMAP_NAME\<rparr> = Inr x \<and>
           DeepEqual_map (mput make_map VSPHERECONFIG (p_yamlCpiConfig w
             (cpiConfigOf c items \<lparr>NnNamespace = VC_CREDS_SECRET_NS, NnName = SECRET_NAME\<rparr>))) (CmData x))) \<and>
     (\<forall>t nodes. w_listNodes w t = Inr nodes \<longrightarrow>
        mlookup (node_status c) = (\<lambda>k. if k \<in> NodeName ` set nodes then Some NodeStatusReady else None) \<and>
        list_all (\<lambda>n. ProviderID n \<noteq> [] \<and> mlookup (NodeLabels n) VDO_NODE_LABEL_KEY \<noteq> None) nodes)"

text \<open>
  For the storage driver: the secret holds the configuration as the temporary file gives it back, and the kubelet path
  of the specification is already in the daemon set.
\<close>

definition csi_settled :: "'v world \<Rightarrow> string \<Rightarrow> VDOConfig \<Rightarrow> bool" where
  "csi_settled w ns c \<longleftrightarrow> csi_phase c = Deployed \<and>
     (\<forall>v usr pwd old t d ns1 t1. shown w ns (storage_config c) v \<and> login_of w v (usr, pwd) \<and>
        w_readFile w (t @ [WriteFile CSI_SECRET_CONFIG_FILE (p_iniText w old (csiSettings c v usr pwd))]) CSI_SECRET_CONFIG_FILE = Inr d \<longrightarrow>
        (\<exists>x. w_getSecret w t1 \<lparr>NnNamespace = ns1, NnName = CSI_SECRET_NAME\<rparr> = Inr x \<and> CompareCSISecret x d)) \<and>
     (CustomKubeletPath (StorageProvider (VdoSpec c)) = [] \<or>
        (\<forall>t k ds ds1 b. w_getDaemonSet w t k = Inr ds \<and>
           relocateDaemonSet (CustomKubeletPath (StorageProvider (VdoSpec c))) ds = Ok (ds1, b) \<longrightarrow> \<not> b))"

section \<open>The run for CPI\<close>

lemma idle_items:
  "idle w (at c) (fetchVsphereCloudConfigItems w req (cloud_configs c))
    (\<lambda>items t. at c t \<and> list_all2 (shown w (NnNamespace req)) (cloud_configs c) items)"
proof -
  let ?p = "\<lambda>i v. i < length (cloud_configs c) \<and> shown w (NnNamespace req) (cloud_configs c ! i) v"
  have "idle w (at c) (fetchItem w req i) (\<lambda>v t. at c t \<and> ?p i v)" for i
    unfolding fetchItem_def fetchVSphereCloudConfig_def Let_def
    by (rule idlesI) (auto simp: runs shown_def split: if_splits intro!: emitsI)
  from idles_mapM [where p = ?p, OF this]
  show ?thesis
    unfolding fetchVsphereCloudConfigItems_def
    by (rule idles_mono) (auto simp: list_all2_conv_all_nth)
qed

lemma idle_verified: "idle w P (forM (requireVerified w) items) (\<lambda>_. P)"
  by (rule idles_forM) (auto simp: requireVerified_def runs idles_def emits.R_refl split: option.splits)

text \<open>A stored object that is as it is wanted is read and left alone.\<close>

context stored_object begin

lemma recon_idle:
  assumes "idles Q P (want w c) (\<lambda>(k, d). W k d)"
    and "\<And>k d. idles Q (W k d) (tryM (read w k)) (\<lambda>r t. R t \<and> (\<exists>x. r = Inr x \<and> same d x))"
    and "idles Q R (settled w) S"
  shows "idles Q P (recon w c) S"
proof -
  have "idles Q (\<lambda>t. R t \<and> (\<exists>x. r = Inr x \<and> same d x))
      (case r of Inl e \<Rightarrow> if IsNotFound e then create w k d else thenM (fail w e) (throw e)
        | Inr x \<Rightarrow> if same d x then settled w else update w d x) S" for r k d
  proof (cases r)
    case (Inr x)
    with idles_mono [OF assms(3)] show ?thesis by (cases "same d x") (auto simp: idles_def)
  qed (simp add: idles_def)
  then have "idles Q (W k d) (bindM (tryM (read w k))
      (\<lambda>r. case r of Inl e \<Rightarrow> if IsNotFound e then create w k d else thenM (fail w e) (throw e)
        | Inr x \<Rightarrow> if same d x then settled w else update w d x)) S" for k d
    by (rule idles_bindM [OF assms(2)])
  then have "idles Q (case y of (k, d) \<Rightarrow> W k d) (case y of (k, d) \<Rightarrow> bindM (tryM (read w k))
      (\<lambda>r. case r of Inl e \<Rightarrow> if IsNotFound e then create w k d else thenM (fail w e) (throw e)
        | Inr x \<Rightarrow> if same d x then settled w else update w d x)) S" for y
    by (cases y) simp
  with assms(1) show ?thesis unfolding recon_eq by (rule idles_bindM)
qed

end

lemma at_trace: "t = s\<lparr>trace := l\<rparr> \<Longrightarrow> cfg t = cfg s"
  by simp

abbreviation "cpiKey \<equiv> \<lparr>NnNamespace = VC_CREDS_SECRET_NS, NnName = SECRET_NAME\<rparr>"

lemma idle_CPISecret:
  assumes "cpi_settled w ns c" and "list_all2 (shown w ns) (cloud_configs c) items"
  shows "idle w (at c) (reconcileCPISecret w items cpiKey) (\<lambda>_. at c)"
proof -
  let ?W = "\<lambda>k d t. at c t \<and> k = cpiKey \<and> (\<forall>t. \<exists>x. w_getSecret w t cpiKey = Inr x \<and> DeepEqual_map d (SecretData x))"
  have "idle w (at c) (wantCPISecret w (items, cpiKey)) (\<lambda>(k, d). ?W k d)"
  proof (rule idlesI)
    fix s y t assume "at c s" and run: "wantCPISecret w (items, cpiKey) s = (Ok y, t)"
    then obtain d where d: "cpiSecretDataMap w items s = (Ok d, t)" "y = (cpiKey, d)" by (auto simp: wantCPISecret_def runs)
    from cpiSecretDataMap_Ok [OF d(1)] obtain creds where creds: "map fst creds = items" "d = secretData creds make_map"
      "\<forall>(v, login) \<in> set creds. login_of w v login" and t: "t = s\<lparr>trace := trace t\<rparr>" "emits reading_call s t" by blast
    have "\<exists>x. w_getSecret w t cpiKey = Inr x \<and> DeepEqual_map d (SecretData x)" for t
      using assms creds unfolding cpi_settled_def by blast
    moreover have "emits (idle_call w) s t" using t(2) by (rule emits_mono) simp
    ultimately show "emits (idle_call w) s t \<and> (case y of (k, d) \<Rightarrow> ?W k d) t"
      using \<open>at c s\<close> at_trace [OF t(1)] d(2) by simp
  qed
  moreover have "idle w (?W k d) (tryM (readSecret w k)) (\<lambda>r t. at c t \<and> (\<exists>x. r = Inr x \<and> DeepEqual_map d (SecretData x)))" for k d
    unfolding readSecret_def by (rule idles_tryM_ask) auto
  moreover have "idle w (at c) (ret ()) (\<lambda>_. at c)" by (rule idles_ret) simp
  ultimately have "idle w (at c) (reconcileCPISecret w (fst (items, cpiKey)) (snd (items, cpiKey))) (\<lambda>_. at c)"
    by (rule cpi_secret.recon_idle)
  then show ?thesis by simp
qed

lemma idle_ConfigMap:
  assumes "cpi_settled w ns c" and "list_all2 (shown w ns) (cloud_configs c) items"
  shows "idle w (at c) (reconcileConfigMap w items cpiKey) (\<lambda>_. at c)"
proof -
  let ?key = "\<lparr>NnNamespace = VC_CREDS_SECRET_NS, NnName = CONFIGMAP_NAME\<rparr>"
  let ?W = "\<lambda>k d t. at c t \<and> k = ?key \<and> (\<forall>t. \<exists>x. w_getConfigMap w t ?key = Inr x \<and> DeepEqual_map d (CmData x))"
  have "idle w (at c) (wantConfigMap w (items, cpiKey)) (\<lambda>(k, d). ?W k d)"
  proof (rule idlesI)
    fix s y t assume "at c s" and run: "wantConfigMap w (items, cpiKey) s = (Ok y, t)"
    then obtain d where d: "CreateVsphereConfig w items cpiKey s = (Ok d, t)" "y = (?key, d)"
      by (auto simp: wantConfigMap_def runs)
    have "emits conf_file_call s t" by (rule keepsD [OF CreateVsphereConfig_emits d(1)])
    then have "emits (idle_call w) s t" by (rule emits_mono) simp
    moreover have "fixes_field cfg s t" by (rule keepsD [OF CreateVsphereConfig_fixed d(1)]) simp_all
    moreover have "\<exists>x. w_getConfigMap w t ?key = Inr x \<and> DeepEqual_map d (CmData x)" for t
      using assms CreateVsphereConfig_Ok [OF d(1)] \<open>at c s\<close> unfolding cpi_settled_def by blast
    ultimately show "emits (idle_call w) s t \<and> (case y of (k, d) \<Rightarrow> ?W k d) t"
      using \<open>at c s\<close> d(2) by (simp add: fixes_field_def)
  qed
  moreover have "idle w (?W k d) (tryM (readConfigMap w k)) (\<lambda>r t. at c t \<and> (\<exists>x. r = Inr x \<and> DeepEqual_map d (CmData x)))" for k d
    unfolding readConfigMap_def by (rule idles_tryM_ask) auto
  moreover have "idle w (at c) (ret ()) (\<lambda>_. at c)" by (rule idles_ret) simp
  ultimately have "idle w (at c) (reconcileConfigMap w (fst (items, cpiKey)) (snd (items, cpiKey))) (\<lambda>_. at c)"
    by (rule cpi_config_map.recon_idle)
  then show ?thesis by simp
qed

lemma loop_not_nil: "LoopStatus st \<noteq> None \<Longrightarrow> LoopStatus (fold pureStep nodes st) \<noteq> None"
proof (induction nodes arbitrary: st)
  case (Cons n nodes)
  then have "LoopStatus (pureStep n st) \<noteq> None"
    by (simp add: pureStep_def markReady_def markPending_def mput_not_nil del: not_None_eq)
  from Cons.IH [OF this] show ?case by simp
qed simp

lemma idle_nodes:
  assumes "cpi_settled w ns c"
  shows "idle w (at c) (syncNodes w items) (\<lambda>_. at c)"
proof (rule idlesI)
  fix s t :: St and x :: unit assume c: "at c s" and run: "syncNodes w items s = (Ok x, t)"
  let ?s = "s\<lparr>trace := trace s @ [ListNodes]\<rparr>"
  let ?st = "\<lparr>LoopStatus = make_map, LoopPhase = PhaseUnset, AllNodesReady = True\<rparr>"
  show "emits (idle_call w) s t \<and> at c t"
  proof (cases "w_listNodes w (trace s)")
    case (Inl e)
    with run show ?thesis by (simp add: syncNodes_def reconcileNodeProviderID_def runs)
  next
    case (Inr nodes)
    with assms have ready: "list_all (\<lambda>n. ProviderID n \<noteq> []) nodes" and known: "cpi_phase c = Configured" "node_status c \<noteq> None"
      "mlookup (node_status c) = (\<lambda>k. if k \<in> NodeName ` set nodes then Some NodeStatusReady else None)"
      by (auto simp: cpi_settled_def list_all_iff)
    let ?f = "fold pureStep nodes ?st"
    have "mlookup (LoopStatus ?f) k = (if k \<in> NodeName ` set nodes then Some NodeStatusReady else None)" for k
      using ready_lookup [OF ready, of k ?st] fold_pure_other [of k nodes ?st] by (simp add: mlookup_make_map)
    then have "DeepEqual_map (node_status c) (LoopStatus ?f)"
      using known(2,3) loop_not_nil [of ?st nodes] by (auto simp: DeepEqual_map_iff fun_eq_iff make_map_def)
    moreover have "AllNodesReady ?f" using ready_all [OF ready] by (simp add: fold_pure_ready)
    ultimately have "reconcileNodeProviderID w items s = (Ok False, ?s)"
      using Inr c known(1) by (simp add: reconcileNodeProviderID_def ready_loop [OF ready] bindM_def wrapM_def ask_def Let_def)
    with run have "t = ?s" by (auto simp: syncNodes_def runs)
    then show ?thesis using c by (auto intro!: emitsI)
  qed
qed

lemma idle_labels:
  assumes "cpi_settled w ns c"
  shows "idle w (at c) (reconcileNodeLabel w req) (\<lambda>_. at c)"
  unfolding reconcileNodeLabel_def
proof (rule idles_bindM)
  show "idle w (at c) (wrapM ''unable to fetch list of nodes'' (ask ListNodes (\<lambda>t. w_listNodes w t)))
    (\<lambda>nodes t. at c t \<and> (\<forall>n \<in> set nodes. mlookup (NodeLabels n) VDO_NODE_LABEL_KEY \<noteq> None))"
    using assms by (intro idles_wrapM idles_ask) (auto simp: cpi_settled_def list_all_iff)
next
  fix nodes
  have "idle w (at c) (labelStep w req n) (\<lambda>_. at c)" if "mlookup (NodeLabels n) VDO_NODE_LABEL_KEY \<noteq> None" for n
    using that unfolding labelStep_def by (intro idles_bindM [OF idles_getS [where R = "\<lambda>_. at c"]] idles_if idles_ret) auto
  then have "idle w (at c) (forM (labelStep w req) nodes) (\<lambda>_. at c)"
    if "\<forall>n \<in> set nodes. mlookup (NodeLabels n) VDO_NODE_LABEL_KEY \<noteq> None"
    using that by (intro idles_forM) simp
  then show "idle w (\<lambda>t. at c t \<and> (\<forall>n \<in> set nodes. mlookup (NodeLabels n) VDO_NODE_LABEL_KEY \<noteq> None))
    (forM (labelStep w req) nodes) (\<lambda>_. at c)"
    unfolding idles_def by blast
qed

lemma getS_run: "bindM (getS f) k s = k (f s) s"
  by (simp add: bindM_def)

lemma idle_CPI:
  assumes "cloud_configs c \<noteq> [] \<longrightarrow> cpi_settled w (NnNamespace req) c"
  shows "idle w (at c) (reconcileCPIConfiguration w req) (\<lambda>_. at c)"
proof (cases "cloud_configs c = []")
  case True
  then show ?thesis by (auto simp: idles_def reconcileCPIConfiguration_def runs emits.R_refl)
next
  case False
  with assms have set: "cpi_settled w (NnNamespace req) c" and phase: "cpi_phase c = Configured" by (auto simp: cpi_settled_def)
  have deploy: "idle w (at c) (deployCPI w) (\<lambda>_. at c)" "idle w (at c) (markCPIDeployed w) (\<lambda>_. at c)"
    using phase by (auto simp: idles_def deployCPI_def markCPIDeployed_def bindM_def emits.R_refl)
  have status: "idle w (at c) (reconcileCPIDeploymentStatus w) (\<lambda>_. at c)"
    by (rule idles_reads [where f = cfg and p = "\<lambda>x. x = c"]) (intro keeps_intro; simp)+
  let ?rest = "\<lambda>items. thenM (forM (requireVerified w) items)
      (let cpiSecretKey = cpiKey in
       thenM (onErr (reconcileCPISecret w items cpiSecretKey)
               (\<lambda>e. updateCPIStatusForError w e ''Error in reconcile of secret for CPI configuration''))
      (thenM (onErr (reconcileConfigMap w items cpiSecretKey)
               (\<lambda>e. updateCPIStatusForError w e ''Error in reconcile of configmap for CPI configuration''))
      (thenM (deployCPI w)
      (thenM (onErr (reconcileCPIDeploymentStatus w)
               (\<lambda>e. updateCPIStatusForError w e ''Error in reconcile of deployment status for CPI''))
      (thenM (markCPIDeployed w)
      (thenM (syncNodes w items)
        (onErr (reconcileNodeLabel w req) (\<lambda>e. updateCPIStatusForError w e (Error e)))))))))"
  have rest: "idle w (at c) (?rest items) (\<lambda>_. at c)"
    if "list_all2 (shown w (NnNamespace req)) (cloud_configs c) items" for items
    unfolding Let_def
    by (intro idles_thenM [OF idle_verified] idles_thenM [OF idles_onErr [OF idle_CPISecret [OF set that]]]
        idles_thenM [OF idles_onErr [OF idle_ConfigMap [OF set that]]] idles_thenM [OF deploy(1)]
        idles_thenM [OF idles_onErr [OF status]] idles_thenM [OF deploy(2)] idles_thenM [OF idle_nodes [OF set]]
        idles_onErr idle_labels [OF set])
  have "idle w (\<lambda>t. at c t \<and> list_all2 (shown w (NnNamespace req)) (cloud_configs c) items) (?rest items) (\<lambda>_. at c)" for items
  proof (cases "list_all2 (shown w (NnNamespace req)) (cloud_configs c) items")
    case True
    show ?thesis by (rule idles_mono [OF rest [OF True]]) simp_all
  qed (simp add: idles_def)
  note run = idlesD [OF idles_bindM [OF idle_items this]]
  show ?thesis
  proof (rule idlesI)
    fix s t :: St and x :: unit assume "at c s" and "reconcileCPIConfiguration w req s = (Ok x, t)"
    then have "bindM (fetchVsphereCloudConfigItems w req (cloud_configs c)) ?rest s = (Ok x, t)"
      using False by (simp only: reconcileCPIConfiguration_def getS_run if_False)
    from run [OF \<open>at c s\<close> this] show "emits (idle_call w) s t \<and> at c t" .
  qed
qed

section \<open>The run for CSI\<close>

lemma idle_CSISecret:
  assumes "csi_settled w ns c" and "shown w ns (storage_config c) v"
  shows "idle w (at c) (reconcileCSISecret w v) (\<lambda>_. at c)"
proof -
  let ?W = "\<lambda>k d t. at c t \<and> NnName k = CSI_SECRET_NAME \<and>
    (\<forall>t. \<exists>x. w_getSecret w t k = Inr x \<and> CompareCSISecret x d)"
  have "idle w (at c) (wantCSISecret w v) (\<lambda>(k, d). ?W k d)"
  proof (rule idlesI)
    fix s y t assume "at c s" and run: "wantCSISecret w v s = (Ok y, t)"
    then obtain usr pwd u d where u: "fetchVcCredentials w v s = (Ok (usr, pwd), u)"
      and d: "CreateCSISecretConfig w v usr pwd CSI_SECRET_CONFIG_FILE u = (Ok d, t)"
      and y: "y = (\<lparr>NnNamespace = CsiNamespace u, NnName = CSI_SECRET_NAME\<rparr>, d)"
      by (auto simp: wantCSISecret_def runs)
    note creds = fetchVcCredentials_Ok [OF u]
    have "cfg u = c" using \<open>at c s\<close> at_trace [OF creds(2)] by simp
    moreover have "fixes_field cfg u t" by (rule keepsD [OF CreateCSISecretConfig_fixed d]) simp_all
    ultimately have c: "at c t" by (simp add: fixes_field_def)
    have "emits (tmp_call CSI_SECRET_CONFIG_FILE) u t" by (rule keepsD [OF CreateCSISecretConfig_emits d])
    then have "emits (idle_call w) u t" by (rule emits_mono) simp
    moreover have "emits (idle_call w) s u" using creds(3) by (rule emits_mono) simp
    ultimately have "emits (idle_call w) s t" by (blast intro: emits.R_trans)
    moreover from d \<open>cfg u = c\<close> have "\<exists>old. w_readFile w ((trace u @ [OpenFile CSI_SECRET_CONFIG_FILE, ReadFile CSI_SECRET_CONFIG_FILE]) @
        [WriteFile CSI_SECRET_CONFIG_FILE (p_iniText w old (csiSettings c v usr pwd))]) CSI_SECRET_CONFIG_FILE = Inr d"
      by (auto simp: CreateCSISecretConfig_def runs)
    with assms creds(1) have "\<exists>x. w_getSecret w t1 \<lparr>NnNamespace = ns1, NnName = CSI_SECRET_NAME\<rparr> = Inr x \<and> CompareCSISecret x d" for t1 ns1
      unfolding csi_settled_def by blast
    ultimately show "emits (idle_call w) s t \<and> (case y of (k, d) \<Rightarrow> ?W k d) t" using c y by simp
  qed
  moreover have "idle w (?W k d) (tryM (readSecret w k)) (\<lambda>r t. at c t \<and> (\<exists>x. r = Inr x \<and> CompareCSISecret x d))" for k d
    unfolding readSecret_def by (rule idles_tryM_ask) auto
  moreover have "idle w (at c) (settleCSI w) (\<lambda>_. at c)"
    using assms(1) by (auto simp: csi_settled_def idles_def settleCSI_def bindM_def emits.R_refl)
  ultimately show ?thesis by (rule csi_secret.recon_idle)
qed

lemma idle_switch: "idle w (at c) (updateCSIConfigmap w) (\<lambda>_. at c)"
proof (rule idlesI)
  fix s t :: St and x :: unit assume c: "at c s" and run: "updateCSIConfigmap w s = (Ok x, t)"
  let ?key = "\<lparr>NnNamespace = CsiNamespace s, NnName = CSI_FSS_CONFIGMAP\<rparr>"
  let ?upd = "\<lambda>cm. cm\<lparr>CmData := mput (CmData cm) CSI_NODE_ID ''true''\<rparr>"
  from run obtain cm where cm: "w_getConfigMap w (trace s) ?key = Inr cm"
    and t: "t = s\<lparr>trace := trace s @ GetConfigMap ?key # (if CmData cm \<noteq> None then [UpdateConfigMapReq (?upd cm)] else [])\<rparr>"
    by (auto simp: updateCSIConfigmap_def runs Let_def split: if_splits)
  from cm have "switched w (?upd cm)" unfolding switched_def by blast
  with t c show "emits (idle_call w) s t \<and> at c t" by (auto intro!: emitsI)
qed

lemma idle_kubelet:
  fixes c :: VDOConfig
  defines "path \<equiv> CustomKubeletPath (StorageProvider (VdoSpec c))"
  assumes "path = [] \<or> (\<forall>t k ds ds1 b. w_getDaemonSet w t k = Inr ds \<and> relocateDaemonSet path ds = Ok (ds1, b) \<longrightarrow> \<not> b)"
  shows "idle w (at c) (moveKubeletPath w) (\<lambda>_. at c)"
proof (rule idlesI)
  fix s t :: St and x :: unit assume c: "at c s" and run: "moveKubeletPath w s = (Ok x, t)"
  show "emits (idle_call w) s t \<and> at c t"
  proof (cases "path = []")
    case True
    with c run show ?thesis by (auto simp: path_def moveKubeletPath_def runs emits.R_refl)
  next
    case False
    let ?key = "\<lparr>NnNamespace = CsiNamespace s, NnName = CSI_DAEMONSET_NAME\<rparr>"
    from False c run obtain ds ds1 b where ds: "w_getDaemonSet w (trace s) ?key = Inr ds" "relocateDaemonSet path ds = Ok (ds1, b)"
      and t: "(if b then ask (UpdateDaemonSet ds1) (\<lambda>t. w_updateDaemonSet w t ds1) else ret ())
        (s\<lparr>trace := trace s @ [GetDaemonSet ?key]\<rparr>) = (Ok x, t)"
      by (auto simp: path_def moveKubeletPath_def updateCSIDaemonSet_def runs simp del: if_split)
    have "\<not> b" using assms(2) False ds by blast
    with t c show ?thesis by (auto intro!: emitsI)
  qed
qed

lemma idle_CSI:
  assumes "csi_settled w (NnNamespace req) c"
  shows "idle w (at c) (reconcileCSIConfiguration w req) (\<lambda>_. at c)"
proof -
  from assms have phase: "csi_phase c = Deployed" by (simp add: csi_settled_def)
  have deploy: "idle w (at c) (deployCSI w) (\<lambda>_. at c)" "idle w (at c) (markCSIDeployed w) (\<lambda>_. at c)"
    using phase by (auto simp: idles_def deployCSI_def markCSIDeployed_def bindM_def emits.R_refl)
  have status: "idle w (at c) (reconcileCSIDeploymentStatus w) (\<lambda>_. at c)"
    by (rule idles_reads [where f = cfg and p = "\<lambda>x. x = c"]) (intro keeps_intro; simp)+
  have switch: "idle w (at c) (switchCSINodeId w) (\<lambda>_. at c)"
    unfolding switchCSINodeId_def
    by (rule idles_bindM [OF idles_getS [where R = "\<lambda>_. at c"]], simp,
        rule idles_bindM [OF idles_liftO [where R = "\<lambda>_. at c"]], simp)
      (intro idles_if idle_switch idles_ret)
  have kubelet: "idle w (at c) (moveKubeletPath w) (\<lambda>_. at c)"
    by (rule idle_kubelet) (use assms in \<open>unfold csi_settled_def, blast\<close>)
  have fetch: "idle w (at c) (bindM (getS (\<lambda>s. storage_config (cfg s)))
      (\<lambda>name. onErr (fetchVSphereCloudConfig w name (NnNamespace req))
         (\<lambda>e. updateCPIStatusForError w e ''Unable to fetch vSphereCLoudConfig resource'')))
      (\<lambda>v t. at c t \<and> shown w (NnNamespace req) (storage_config c) v)"
    unfolding fetchVSphereCloudConfig_def Let_def
    by (rule idlesI) (auto simp: runs shown_def intro!: emitsI)
  have rest: "idle w (\<lambda>t. at c t \<and> shown w (NnNamespace req) (storage_config c) v) (thenM (requireVerified w v)
      (thenM (onErr (reconcileCSISecret w v) (\<lambda>e. updateCSIStatusForError w e ''Error in reconcile of secret for CSI configuration''))
      (thenM (deployCSI w) (thenM (switchCSINodeId w) (thenM (moveKubeletPath w)
      (thenM (onErr (reconcileCSIDeploymentStatus w)
           (\<lambda>e. updateCSIStatusForError w e ''Error in reconcile of deployment status for CSI''))
        (markCSIDeployed w))))))) (\<lambda>_. at c)" for v
  proof (cases "shown w (NnNamespace req) (storage_config c) v")
    case True
    have verified: "idle w (\<lambda>t. at c t \<and> shown w (NnNamespace req) (storage_config c) v) (requireVerified w v) (\<lambda>_. at c)"
      by (auto simp: requireVerified_def idles_def emits.R_refl thenM_def bindM_def split: option.splits prod.splits outcome.splits)
    show ?thesis
      by (intro idles_thenM [OF verified] idles_thenM [OF idles_onErr [OF idle_CSISecret [OF assms True]]] idles_thenM [OF deploy(1)]
          idles_thenM [OF switch] idles_thenM [OF kubelet] idles_thenM [OF idles_onErr [OF status]] deploy(2))
  qed (simp add: idles_def)
  show ?thesis unfolding reconcileCSIConfiguration_def by (rule idles_bindM [OF fetch rest])
qed

section \<open>The compatibility check\<close>

text \<open>
  The versions that the matrix gives are those that are installed, or the operator has just started and knows of none.
\<close>

definition versions_settled :: "'v world \<Rightarrow> CompatMatrix \<Rightarrow> string set \<Rightarrow> string \<Rightarrow> string \<Rightarrow> bool" where
  "versions_settled w m V csi cpi \<longleftrightarrow> (\<forall>t major minor vs v. w_serverVersion w t = Inr (major, minor) \<and> vs \<noteq> [] \<and> set vs \<subseteq> V \<longrightarrow>
     (selectCSI w m vs (major @ ''.'' @ minor) = Inr v \<longrightarrow> csi = [] \<or> csi = v) \<and>
     (selectCPI w m vs (major @ ''.'' @ minor) = Inr v \<longrightarrow> cpi = [] \<or> cpi = v))"

lemma idle_fetch:
  assumes "\<And>v. selectCPI w m vs k = Inr v \<Longrightarrow> cpi = [] \<or> cpi = v" and "\<And>v. selectCSI w m vs k = Inr v \<Longrightarrow> csi = [] \<or> csi = v"
  shows "idle w (\<lambda>s. at c s \<and> CurrentCPIDeployedVersion s = cpi \<and> CurrentCSIDeployedVersion s = csi)
      (FetchCpiDeploymentYamls w m vs k) (\<lambda>_ s. at c s \<and> CurrentCSIDeployedVersion s = csi)"
    and "idle w (\<lambda>s. at c s \<and> CurrentCSIDeployedVersion s = csi) (FetchCsiDeploymentYamls w m vs k) (\<lambda>_. at c)"
proof -
  show "idle w (\<lambda>s. at c s \<and> CurrentCPIDeployedVersion s = cpi \<and> CurrentCSIDeployedVersion s = csi)
      (FetchCpiDeploymentYamls w m vs k) (\<lambda>_ s. at c s \<and> CurrentCSIDeployedVersion s = csi)"
  proof (rule idlesI)
    fix s t :: St and x :: unit
    assume P: "at c s \<and> CurrentCPIDeployedVersion s = cpi \<and> CurrentCSIDeployedVersion s = csi"
      and run: "FetchCpiDeploymentYamls w m vs k s = (Ok x, t)"
    then obtain v where v: "selectCPI w m vs k = Inr v" by (auto simp: FetchCpiDeploymentYamls_def runs outcome_of_Ok)
    with P run assms(1) [OF v] show "emits (idle_call w) s t \<and> at c t \<and> CurrentCSIDeployedVersion t = csi"
      by (elim disjE) (auto simp: FetchCpiDeploymentYamls_def runs outcome_of_Ok split: if_splits intro!: emitsI [where cs = "[]"])
  qed
  show "idle w (\<lambda>s. at c s \<and> CurrentCSIDeployedVersion s = csi) (FetchCsiDeploymentYamls w m vs k) (\<lambda>_. at c)"
  proof (rule idlesI)
    fix s t :: St and x :: unit
    assume P: "at c s \<and> CurrentCSIDeployedVersion s = csi" and run: "FetchCsiDeploymentYamls w m vs k s = (Ok x, t)"
    then obtain v where v: "selectCSI w m vs k = Inr v" by (auto simp: FetchCsiDeploymentYamls_def runs outcome_of_Ok)
    with P run assms(2) [OF v] show "emits (idle_call w) s t \<and> at c t"
      by (elim disjE) (auto simp: FetchCsiDeploymentYamls_def runs outcome_of_Ok split: if_splits intro!: emitsI [where cs = "[]"])
  qed
qed

lemma idle_check:
  assumes h: "healthy w req c m V" and url: "url = env COMPAT_MATRIX_CONFIG_URL" "content = env COMPAT_MATRIX_CONFIG_CONTENT"
    and m: "matrix_up w url content m" and mc: "getMatrixConfig url content = Inr mc"
    and versions: "versions_settled w m V csi cpi"
  shows "idle w (\<lambda>s. at c s \<and> environ s = env \<and> cache_in V s \<and> CurrentCPIDeployedVersion s = cpi \<and> CurrentCSIDeployedVersion s = csi)
    (CheckCompatAndRetrieveSpec w req mc) (\<lambda>_. at c)"
proof -
  let ?f = "\<lambda>s. (cfg s, environ s, CurrentCPIDeployedVersion s, CurrentCSIDeployedVersion s)"
  let ?P = "\<lambda>s. ?f s = (c, env, cpi, csi)"
  from h have api: "api_up w" and vc: "vcenters_up w V (configKeys req c)" by (simp_all add: healthy_def)
  have k8s: "idle w (\<lambda>s. ?P s \<and> cache_in V s) (Fetchk8sVersions w)
      (\<lambda>k s. (?P s \<and> cache_in V s) \<and> (\<exists>t major minor. w_serverVersion w t = Inr (major, minor) \<and> k = major @ ''.'' @ minor))"
  proof (rule idlesI)
    fix s k t assume P: "?P s \<and> cache_in V s" and run: "Fetchk8sVersions w s = (Ok k, t)"
    have quiet: "keeps (emits (idle_call w)) (Fetchk8sVersions w)" by (intro keeps_intro; simp)
    have "fixes_field (\<lambda>s. (?f s, sessionCache s)) s t" by (rule keepsD [OF request_fixed(3) run]) simp_all
    moreover have "emits (idle_call w) s t" by (rule keepsD [OF quiet run])
    moreover from wp_k8s [OF api, of s] run
    have "\<exists>t major minor. w_serverVersion w t = Inr (major, minor) \<and> k = major @ ''.'' @ minor" by (auto simp: wp_def)
    ultimately show "emits (idle_call w) s t \<and> (?P t \<and> cache_in V t) \<and>
        (\<exists>t major minor. w_serverVersion w t = Inr (major, minor) \<and> k = major @ ''.'' @ minor)"
      using P by (simp add: fixes_field_def cache_in_def)
  qed
  have vs: "idle w (\<lambda>s. ?P s \<and> cache_in V s) (FetchVsphereVersions w req) (\<lambda>vs s. ?P s \<and> vs \<noteq> [] \<and> set vs \<subseteq> V)"
  proof (rule idlesI)
    fix s vs t assume P: "?P s \<and> cache_in V s" and run: "FetchVsphereVersions w req s = (Ok vs, t)"
    have quiet: "keeps (emits (idle_call w)) (FetchVsphereVersions w req)" by (intro keeps_intro; simp)
    have "fixes_field ?f s t" by (rule keepsD [OF FetchVsphereVersions_fixed run]) simp_all
    moreover have "emits (idle_call w) s t" by (rule keepsD [OF quiet run])
    moreover have "wp (FetchVsphereVersions w req) (\<lambda>vs t. vs \<noteq> [] \<and> set vs \<subseteq> V \<and> cfg t = cfg s) s"
      by (rule wp_versions [OF vc]) (use P in \<open>auto simp: configKeys_def\<close>)
    ultimately show "emits (idle_call w) s t \<and> ?P t \<and> vs \<noteq> [] \<and> set vs \<subseteq> V"
      using P run by (simp add: fixes_field_def wp_def)
  qed
  have matrix: "idle w ?P (readMatrix w mc) (\<lambda>x s. ?P s \<and> x = m)"
  proof (rule idlesI)
    fix s x t assume P: "?P s" and run: "readMatrix w mc s = (Ok x, t)"
    have quiet: "keeps (emits (idle_call w)) (readMatrix w mc)" by (intro keeps_intro; simp)
    have "fixes_field ?f s t" by (rule keepsD [OF request_fixed(4) run]) simp_all
    moreover have "emits (idle_call w) s t" by (rule keepsD [OF quiet run])
    moreover have "wp (readMatrix w mc) (\<lambda>x t. x = m \<and> cfg t = cfg s) s" by (rule wp_matrix) (use P url m mc in auto)
    ultimately show "emits (idle_call w) s t \<and> ?P t \<and> x = m" using P run by (simp add: fixes_field_def wp_def)
  qed
  have place: "idle w (at c) (placeCSINamespace w) (\<lambda>_. at c)"
    by (rule idles_reads [where f = cfg and p = "\<lambda>x. x = c"]) (intro keeps_intro; simp)+
  have fetch: "idle w ?P (bindM (getS cfg) (\<lambda>vdo.
      thenM (if cloud_configs vdo \<noteq> [] then FetchCpiDeploymentYamls w m vs k else ret ())
        (thenM (FetchCsiDeploymentYamls w m vs k) (placeCSINamespace w)))) (\<lambda>_. at c)"
    if k: "w_serverVersion w t0 = Inr (major, minor)" "k = major @ ''.'' @ minor" and v: "vs \<noteq> []" "set vs \<subseteq> V" for vs k t0 major minor
  proof -
    have sel: "selectCPI w m vs k = Inr v \<Longrightarrow> cpi = [] \<or> cpi = v" "selectCSI w m vs k = Inr v \<Longrightarrow> csi = [] \<or> csi = v" for v
      using versions k v unfolding versions_settled_def by blast+
    have one: "idle w ?P (if cloud_configs vdo \<noteq> [] then FetchCpiDeploymentYamls w m vs k else ret ())
        (\<lambda>_ s. at c s \<and> CurrentCSIDeployedVersion s = csi)" for vdo
      by (intro idles_if idles_ret idles_mono [OF idle_fetch(1) [OF sel]]) simp_all
    show ?thesis
      by (intro idles_bindM [OF idles_getS [where R = "\<lambda>_. ?P"]] idles_thenM [OF one] idles_thenM [OF idle_fetch(2) [OF sel]] place)
  qed
  have fetched: "idle w (\<lambda>s. ?P s \<and> x = m) (bindM (getS cfg) (\<lambda>vdo.
      thenM (if cloud_configs vdo \<noteq> [] then FetchCpiDeploymentYamls w x vs k else ret ())
        (thenM (FetchCsiDeploymentYamls w x vs k) (placeCSINamespace w)))) (\<lambda>_. at c)"
    if "w_serverVersion w t0 = Inr (major, minor)" "k = major @ ''.'' @ minor" "vs \<noteq> []" "set vs \<subseteq> V" for x vs k t0 major minor
    by (rule idles_assume) (simp only: fetch [OF that])
  have read: "idle w (\<lambda>s. ?P s \<and> vs \<noteq> [] \<and> set vs \<subseteq> V) (bindM (readMatrix w mc) (\<lambda>x. bindM (getS cfg) (\<lambda>vdo.
      thenM (if cloud_configs vdo \<noteq> [] then FetchCpiDeploymentYamls w x vs k else ret ())
        (thenM (FetchCsiDeploymentYamls w x vs k) (placeCSINamespace w))))) (\<lambda>_. at c)"
    if k: "w_serverVersion w t0 = Inr (major, minor)" "k = major @ ''.'' @ minor" for vs k t0 major minor
    by (rule idles_assume, elim conjE, rule idles_bindM [OF matrix fetched [OF k]])
  have "idle w (\<lambda>s. (?P s \<and> cache_in V s) \<and> (\<exists>t major minor. w_serverVersion w t = Inr (major, minor) \<and> k = major @ ''.'' @ minor))
      (bindM (FetchVsphereVersions w req) (\<lambda>vs. bindM (readMatrix w mc) (\<lambda>x. bindM (getS cfg) (\<lambda>vdo.
        thenM (if cloud_configs vdo \<noteq> [] then FetchCpiDeploymentYamls w x vs k else ret ())
          (thenM (FetchCsiDeploymentYamls w x vs k) (placeCSINamespace w)))))) (\<lambda>_. at c)" for k
    by (rule idles_assume, elim exE conjE, rule idles_bindM [OF vs read])
  then have "idle w (\<lambda>s. ?P s \<and> cache_in V s) (CheckCompatAndRetrieveSpec w req mc) (\<lambda>_. at c)"
    unfolding CheckCompatAndRetrieveSpec_def by (rule idles_bindM [OF k8s])
  then show ?thesis by (rule idles_mono) simp_all
qed

section \<open>The whole run\<close>


text \<open>
  The healthy laboratory after the run that brought it there: the phases are stored, and so are the secrets and the
  ConfigMap. The process that sees it is a new one.
\<close>

definition settled_cfg :: VDOConfig where
  "settled_cfg = lab_cfg\<lparr>VdoStatus := \<lparr>StCPI = \<lparr>CpiPhase = Configured, CpiStatusMsg = [],
      CpiNodeStatus = Some [(NodeName lab_node, NodeStatusReady)]\<rparr>, StCSI = \<lparr>CsiPhase = Deployed, CsiStatusMsg = []\<rparr>\<rparr>\<rparr>"

definition settled_secret :: "NamespacedName \<Rightarrow> Secret" where
  "settled_secret k = (if NnName k = ''creds'' then lab_secret else \<lparr>SecretKey = k, SecretType = [],
     SecretData = (if NnName k = SECRET_NAME then secretData [(lab_vcc, ''admin'', ''pw'')] make_map
                   else Some [(CSI_SECRET_CONFIG_FILENAME, ''conf'')])\<rparr>)"

definition settled_map :: "NamespacedName \<Rightarrow> ConfigMap" where
  "settled_map k = \<lparr>CmKey = k, CmData = mput make_map VSPHERECONFIG (p_yamlCpiConfig healthy_world (cpiConfigOf settled_cfg [lab_vcc] cpiKey))\<rparr>"

definition settled_world :: "nat list world" where
  "settled_world = healthy_world\<lparr>w_listVDO := \<lambda>t. Inr [settled_cfg],
     w_getSecret := \<lambda>t k. Inr (settled_secret k), w_getConfigMap := \<lambda>t k. Inr (settled_map k)\<rparr>"

lemma settled_world_sel [simp]:
  "w_getSecret settled_world = (\<lambda>t k. Inr (settled_secret k))" "w_getConfigMap settled_world = (\<lambda>t k. Inr (settled_map k))"
  "w_listVDO settled_world = (\<lambda>t. Inr [settled_cfg])" "w_listNodes settled_world = (\<lambda>t. Inr [lab_node])"
  "w_getVCC settled_world = (\<lambda>t k. Inr lab_vcc)" "w_serverVersion settled_world = (\<lambda>_. Inr (''1'', ''21+''))"
  "w_readFile settled_world = (\<lambda>t f. Inr ''conf'')" "p_yamlCpiConfig settled_world = p_yamlCpiConfig healthy_world"
  "p_jsonMatrix settled_world = (\<lambda>_. Inr sample_matrix)"
  by (simp_all add: settled_world_def)

lemma settled_cfg_sel [simp]:
  "cloud_configs settled_cfg = [''vc1'']" "storage_config settled_cfg = ''vc1''" "cpi_phase settled_cfg = Configured"
  "csi_phase settled_cfg = Deployed" "node_status settled_cfg = Some [(NodeName lab_node, NodeStatusReady)]"
  "CustomKubeletPath (StorageProvider (VdoSpec settled_cfg)) = []"
  by (simp_all add: settled_cfg_def lab_cfg_def empty_cfg_def)

lemma settled_parts: "cpi_settled settled_world ns settled_cfg" "csi_settled settled_world ns settled_cfg"
proof -
  have names [simp]: "SECRET_NAME \<noteq> ''creds''" "CSI_SECRET_NAME \<noteq> ''creds''" "CSI_SECRET_NAME \<noteq> SECRET_NAME"
    by (simp_all add: SECRET_NAME_def CSI_SECRET_NAME_def)
  have items: "list_all2 (shown settled_world ns) [''vc1''] items \<Longrightarrow> items = [lab_vcc]" for items
    by (auto simp: list_all2_Cons1 shown_def)
  have login: "login_of settled_world lab_vcc l \<Longrightarrow> l = (''admin'', ''pw'')" for l
    by (simp add: login_of_def settled_secret_def)
  have creds: "map fst creds = [lab_vcc] \<Longrightarrow> \<forall>(v, l) \<in> set creds. login_of settled_world v l \<Longrightarrow>
      creds = [(lab_vcc, ''admin'', ''pw'')]" for creds :: "(VsphereCloudConfig \<times> string \<times> string) list"
    using login by (cases creds) auto
  show "cpi_settled settled_world ns settled_cfg"
    unfolding cpi_settled_def
  proof (intro conjI allI impI)
    fix nodes t assume "w_listNodes settled_world t = Inr nodes"
    then have "nodes = [lab_node]" by simp
    then show "mlookup (node_status settled_cfg) = (\<lambda>k. if k \<in> NodeName ` set nodes then Some NodeStatusReady else None)"
      "list_all (\<lambda>n. ProviderID n \<noteq> [] \<and> mlookup (NodeLabels n) VDO_NODE_LABEL_KEY \<noteq> None) nodes"
      by (auto simp: mlookup_def lab_node_def)
  next
    fix items creds t assume a: "list_all2 (shown settled_world ns) (cloud_configs settled_cfg) items"
      "map fst creds = items \<and> (\<forall>(v, login)\<in>set creds. login_of settled_world v login)"
    then have "creds = [(lab_vcc, ''admin'', ''pw'')]" using items creds by simp
    then show "\<exists>x. w_getSecret settled_world t cpiKey = Inr x \<and> DeepEqual_map (secretData creds make_map) (SecretData x)"
      by (simp add: settled_secret_def DeepEqual_map_def list_all_iff)
  next
    fix items t assume "list_all2 (shown settled_world ns) (cloud_configs settled_cfg) items"
    then have "items = [lab_vcc]" using items by simp
    then show "\<exists>x. w_getConfigMap settled_world t \<lparr>NnNamespace = VC_CREDS_SECRET_NS, NnName = CONFIGMAP_NAME\<rparr> = Inr x \<and>
        DeepEqual_map (mput make_map VSPHERECONFIG (p_yamlCpiConfig settled_world (cpiConfigOf settled_cfg items cpiKey))) (CmData x)"
      by (simp add: settled_map_def DeepEqual_map_def list_all_iff del: not_None_eq)
  qed simp_all
  show "csi_settled settled_world ns settled_cfg"
    by (simp add: csi_settled_def CompareCSISecret_def settled_secret_def mindex_def mlookup_def)
qed

text \<open>What the matrix supports depends on the parsers and on the spec files alone.\<close>

lemma settled_supported: "supported settled_world sample_matrix {''7.0''}"
proof -
  have parsers: "p_newVersion settled_world = p_newVersion healthy_world" "p_versionCompare settled_world = p_versionCompare healthy_world"
    "p_yamlKind settled_world = p_yamlKind healthy_world" "p_yamlListItems settled_world = p_yamlListItems healthy_world"
    "p_yamlObject settled_world = p_yamlObject healthy_world" "p_yamlDocuments settled_world = p_yamlDocuments healthy_world"
    by (simp_all add: settled_world_def)
  have versions: "compareVersions settled_world = compareVersions healthy_world"
    "compareSkewVersions settled_world = compareSkewVersions healthy_world"
    unfolding compareVersions_def [abs_def] compareSkewVersions_def [abs_def] parsers by (rule refl)+
  have sel: "selectCSI settled_world = selectCSI healthy_world" "selectCPI settled_world = selectCPI healthy_world"
    unfolding selectCSI_def [abs_def] selectCPI_def [abs_def] csiMatches_def [abs_def] cpiMatches_def [abs_def] versions
    by (rule refl)+
  have docs: "planDocs settled_world ds = planDocs healthy_world ds" for ds
  proof -
    have raws: "planRaws settled_world rs = planRaws healthy_world rs" for rs
      by (induction rs) (simp_all only: planRaws.simps parsers)
    have items: "docItems settled_world = docItems healthy_world"
      by (intro ext, unfold docItems_def parsers, rule refl)
    show ?thesis by (induction ds) (simp_all only: planDocs.simps items raws)
  qed
  have decodes: "decodes settled_world buf = decodes healthy_world buf" for buf
    unfolding decodes_def docs parsers by (rule refl)
  have specs: "specs_up settled_world ps = specs_up healthy_world ps" for ps
    unfolding specs_up_def decodes by (simp add: serves_def settled_world_def)
  have ready: "csi_ready settled_world v" if "csi_ready healthy_world v" for v
    using that unfolding csi_ready_def versions by (elim conjE exE) (auto simp del: healthy_world_sel)
  from healthy_supported show ?thesis unfolding supported_def sel specs using ready by fastforce
qed

lemma settled_healthy: "healthy settled_world lab_req settled_cfg sample_matrix {''7.0''}"
proof -
  have "api_up settled_world"
    by (simp add: api_up_def status_echo_def status_accepts_def finds_or_lacks_def accepts_def accepts_new_def settled_world_def)
  moreover have "pods_up settled_world"
    by (simp add: pods_up_def host_paths_def lab_ds_def settled_world_def)
  moreover have "files_up settled_world" by (simp add: files_up_def accepts_def settled_world_def)
  moreover have "vcenters_up settled_world {''7.0''} (configKeys lab_req settled_cfg)"
    by (simp add: vcenters_up_def usable_def settled_world_def settled_secret_def)
  ultimately show ?thesis using settled_supported by (simp add: healthy_def)
qed


end
