(* ===== verification/End_To_End.thy ===== *)
theory End_To_End
  imports Operator Ctl_Validation
begin

text \<open>
  From the dialogue of \<^verbatim>\<open>vdoctl\<close> to the operator: what the operator does with the objects that the dialogue
  wrote, once the cluster gives them back.
\<close>

section \<open>The session of a stored configuration\<close>

lemma fetched_session:
  assumes "w_getVCC v (trace u) \<lparr>NnNamespace = ns, NnName = name\<rparr> = Inr vcc" "Credentials (VccSpec vcc) \<noteq> []"
    and "w_getSecret v (trace u @ [GetVCC \<lparr>NnNamespace = ns, NnName = name\<rparr>])
      \<lparr>NnNamespace = ''kube-system'', NnName = Credentials (VccSpec vcc)\<rparr> = Inr secret"
    and "GetOrCreate v (VcIP (VccSpec vcc)) (DataCenters (VccSpec vcc)) (mindex (SecretData secret) ''username'')
      (mindex (SecretData secret) ''password'') (Thumbprint (VccSpec vcc))
      (u\<lparr>trace := trace u @ [GetVCC \<lparr>NnNamespace = ns, NnName = name\<rparr>,
         GetSecret \<lparr>NnNamespace = ''kube-system'', NnName = Credentials (VccSpec vcc)\<rparr>]\<rparr>) = (Ok sess, u')"
  shows "bindM (fetchVSphereCloudConfig v name ns) (getVcSession v) u = (Ok sess, u')"
  using assms
  by (simp add: fetchVSphereCloudConfig_def getVcSession_def fetchVcCredentials_def VC_CREDS_SECRET_NS_def bindM_def wrapM_def
      ask_def ret_def Let_def)

lemma stored_verified:
  assumes "w_getVCC v (trace u) \<lparr>NnNamespace = ns, NnName = name\<rparr> = Inr vcc" "Credentials (VccSpec vcc) \<noteq> []"
    and "w_getSecret v (trace u @ [GetVCC \<lparr>NnNamespace = ns, NnName = name\<rparr>])
      \<lparr>NnNamespace = ''kube-system'', NnName = Credentials (VccSpec vcc)\<rparr> = Inr secret"
    and "GetOrCreate v (VcIP (VccSpec vcc)) (DataCenters (VccSpec vcc)) (mindex (SecretData secret) ''username'')
      (mindex (SecretData secret) ''password'') (Thumbprint (VccSpec vcc))
      (u\<lparr>trace := trace u @ [GetVCC \<lparr>NnNamespace = ns, NnName = name\<rparr>,
         GetSecret \<lparr>NnNamespace = ''kube-system'', NnName = Credentials (VccSpec vcc)\<rparr>]\<rparr>) = (Ok sess, u')"
    and "w_sessionIsActive v (trace u') (SessClient sess) = Inr b"
  shows "trace (snd (ReconcileVcc v \<lparr>NnNamespace = ns, NnName = name\<rparr> u)) =
    trace u' @ [SessionIsActive (SessClient sess), StatusUpdateVCC (setVccStatus VsphereConfigVerified [] vcc)]"
  using assms
  by (simp add: ReconcileVcc_def reconcileVCCredentials_def vccCredentials_def checkSession_def VC_CREDS_SECRET_NS_def
      bindM_def thenM_def tryM_def wrapM_def ask_def ret_def Let_def split: outcome.split)


text \<open>The user of \<open>answer_world\<close>, and a cluster that gives back what he stored.\<close>

lemma stored_world_session:
  "GetOrCreate (answer_world\<lparr>w_getVCC := f, w_getSecret := g\<rparr>) = GetOrCreate answer_world"
  by (intro ext) (simp add: GetOrCreate_def cachedSession_def sessionActive_def createSession_def newClient_def findDatacenters_def)

lemma answer_GetOrCreate: "\<exists>sess u'. GetOrCreate answer_world a ds usr p th u = (Ok sess, u')"
proof -
  let ?c = "noCredentials\<lparr>vcIp := a, datacenters := ds, username := usr, password := p, thumbprint := th\<rparr>"
  show ?thesis using answer_session [of ?c] by (simp add: yields_def openSession_def)
qed

lemma init_trace: "trace init_St = []"
  by simp


end
