(* ===== verification/Deep_Copy.thy ===== *)
theory Deep_Copy
  imports Api_Types
begin

text \<open>
  The deep copies of the custom resources (\<^verbatim>\<open>api/v1alpha1/zz_generated.deepcopy.go\<close>). The rest of the development
  treats an object as a value; the program shares objects with the cache of controller-runtime, which hands out
  deep copies, so this is right only if a copy shares no memory with its original. Here slices and maps are
  references into a heap of typed cells, and the structs that hold them are generic in the references: the same
  record with the contents in their place is the value that a struct denotes.

  \<^verbatim>\<open>ObjectMeta\<close> and \<^verbatim>\<open>ListMeta\<close> and their copies belong to apimachinery. They are parameters; what the code relies
  on is that their copies obey the locale below.
\<close>

section \<open>Structs, references and the heap\<close>

text \<open>A slice that is not nil is a part of an array; what lies behind it (its capacity) matters to \<^verbatim>\<open>append\<close> only.\<close>

record slice_ref =
  SliceArray :: nat
  SliceOffset :: nat
  SliceLen :: nat

type_synonym sref = "slice_ref option"
type_synonym mref = "nat option"

record TypeMeta =
  TmKind :: string
  TmAPIVersion :: string

record 'n CPIStatusG =
  GPhase :: VDOConfigPhase
  GStatusMsg :: string
  GNodeStatus :: 'n

record 's CloudProviderConfigG =
  GVsphereCloudConfigs :: 's
  GTopology :: TopologyInfo

record ('s, 'p) FileVolumeG =
  GVSanDataStoreUrl :: 's
  GNetPermissions :: 'p

record ('s, 'p) StorageProviderConfigG =
  GVsphereCloudConfig :: string
  GClusterDistribution :: string
  GFileVolumes :: "('s, 'p) FileVolumeG"
  GCustomKubeletPath :: string

record ('s, 'p) VDOConfigSpecG =
  GCloudProvider :: "'s CloudProviderConfigG"
  GStorageProvider :: "('s, 'p) StorageProviderConfigG"

record 'n VDOConfigStatusG =
  GCPIStatus :: "'n CPIStatusG"
  GCSIStatus :: CSIStatus

record ('m, 's, 'p, 'n) VDOConfigG =
  VdoTypeMeta :: TypeMeta
  VdoObjectMeta :: 'm
  GVdoSpec :: "('s, 'p) VDOConfigSpecG"
  GVdoStatus :: "'n VDOConfigStatusG"

record 's VsphereCloudConfigSpecG =
  GVcIP :: string
  GInsecure :: bool
  GCredentials :: string
  GThumbprint :: string
  GDataCenters :: 's

record ('m, 's) VsphereCloudConfigG =
  VccTypeMeta :: TypeMeta
  VccObjectMeta :: 'm
  GVccSpec :: "'s VsphereCloudConfigSpecG"
  GVccStatus :: VsphereCloudConfigStatus

record CompatibilitySpec =
  GMatrixURL :: string

record 'm CompatibilityConfigG =
  CcTypeMeta :: TypeMeta
  CcObjectMeta :: 'm
  GCcSpec :: CompatibilitySpec

text \<open>\<^verbatim>\<open>VDOConfigList\<close>, \<^verbatim>\<open>VsphereCloudConfigList\<close> and \<^verbatim>\<open>CompatibilityConfigList\<close> differ in their items only.\<close>

record ('l, 'i) ListG =
  ListTypeMeta :: TypeMeta
  ListListMeta :: 'l
  Items :: 'i

type_synonym 'm vdo_struct = "('m, sref, sref, mref) VDOConfigG"
type_synonym 'm vcc_struct = "('m, sref) VsphereCloudConfigG"

text \<open>The cells are the backing arrays and the maps of these types, and the cells of the metadata.\<close>

datatype ('m, 'f) cell =
    Strings (strings: "string list")
  | Permissions (permissions: "NetPermission list")
  | NodeStatuses (nodeStatuses: "(string \<times> NodeStatus) list")
  | VDOConfigs (vdoConfigs: "'m vdo_struct list")
  | CloudConfigs (cloudConfigs: "'m vcc_struct list")
  | CompatConfigs (compatConfigs: "'m CompatibilityConfigG list")
  | MetaCell 'f

type_synonym ('m, 'f) heap = "('m, 'f) cell list"
type_synonym ('x, 'c) copier = "'x \<Rightarrow> 'c list \<Rightarrow> 'x \<times> 'c list"

section \<open>Slices and maps\<close>

definition slice_elems :: "('c \<Rightarrow> 'e list) \<Rightarrow> 'c list \<Rightarrow> slice_ref \<Rightarrow> 'e list" where
  "slice_elems elems h s = take (SliceLen s) (drop (SliceOffset s) (elems (h ! SliceArray s)))"

text \<open>\<^verbatim>\<open>make([]T, n)\<close>, and \<^verbatim>\<open>copy\<close>, which copies as many elements as both slices have.\<close>

definition make_slice :: "('e list \<Rightarrow> 'c) \<Rightarrow> 'e \<Rightarrow> nat \<Rightarrow> 'c list \<Rightarrow> slice_ref \<times> 'c list" where
  "make_slice cell zero n h = (\<lparr>SliceArray = length h, SliceOffset = 0, SliceLen = n\<rparr>, h @ [cell (replicate n zero)])"

definition copy_elems ::
  "('e list \<Rightarrow> 'c) \<Rightarrow> ('c \<Rightarrow> 'e list) \<Rightarrow> slice_ref \<Rightarrow> slice_ref \<Rightarrow> 'c list \<Rightarrow> 'c list" where
  "copy_elems cell elems dst src h =
     (let n = min (SliceLen dst) (SliceLen src); old = elems (h ! SliceArray dst) in
      h[SliceArray dst := cell (take (SliceOffset dst) old @ take n (slice_elems elems h src) @
                                drop (SliceOffset dst + n) old)])"

text \<open>A field with a slice of values: nil stays nil.\<close>

definition copy_slice :: "('e list \<Rightarrow> 'c) \<Rightarrow> ('c \<Rightarrow> 'e list) \<Rightarrow> 'e \<Rightarrow> (sref, 'c) copier" where
  "copy_slice cell elems zero s h =
     (case s of None \<Rightarrow> (None, h)
      | Some src \<Rightarrow> (case make_slice cell zero (SliceLen src) h of
          (dst, h1) \<Rightarrow> (Some dst, copy_elems cell elems dst src h1)))"

text \<open>
  A slice of structs that hold references: the structs are copied in the order of the loop. The new array is
  written when its elements are known; nothing reads it before.
\<close>

fun copy_all :: "('e, 'c) copier \<Rightarrow> ('e list, 'c) copier" where
  "copy_all c [] h = ([], h)"
| "copy_all c (x # xs) h = (case c x h of (y, h1) \<Rightarrow> (case copy_all c xs h1 of (ys, h2) \<Rightarrow> (y # ys, h2)))"

definition copy_items :: "('e list \<Rightarrow> 'c) \<Rightarrow> ('c \<Rightarrow> 'e list) \<Rightarrow> ('e, 'c) copier \<Rightarrow> (sref, 'c) copier" where
  "copy_items cell elems c s h =
     (case s of None \<Rightarrow> (None, h)
      | Some src \<Rightarrow> (case copy_all c (slice_elems elems h src) h of
          (ys, h1) \<Rightarrow> (Some \<lparr>SliceArray = length h1, SliceOffset = 0, SliceLen = SliceLen src\<rparr>, h1 @ [cell ys])))"

text \<open>The map of a CPI status: a new map, into which the loop puts every entry.\<close>

definition put_status :: "nat \<Rightarrow> string \<times> NodeStatus \<Rightarrow> ('m, 'f) heap \<Rightarrow> ('m, 'f) heap" where
  "put_status a e h = h[a := NodeStatuses (AList.update (fst e) (snd e) (nodeStatuses (h ! a)))]"

definition copy_statuses :: "(mref, ('m, 'f) cell) copier" where
  "copy_statuses m h =
     (case m of None \<Rightarrow> (None, h)
      | Some a \<Rightarrow> (Some (length h), fold (put_status (length h)) (nodeStatuses (h ! a)) (h @ [NodeStatuses []])))"

section \<open>The generated functions\<close>

text \<open>
  \<^verbatim>\<open>DeepCopyInto\<close> overwrites all of its target: it takes the struct and gives the new one.
  \<^verbatim>\<open>DeepCopy\<close> takes a pointer, \<open>None\<close> for nil, and gives one to a new struct.
\<close>

definition new_copy :: "('x, 'c) copier \<Rightarrow> ('x option, 'c) copier" where
  "new_copy deepCopyInto p h = (case p of None \<Rightarrow> (None, h) | Some x \<Rightarrow> (case deepCopyInto x h of (y, h1) \<Rightarrow> (Some y, h1)))"

definition DeepCopyInto_TopologyInfo :: "(TopologyInfo, ('m, 'f) cell) copier" where
  "DeepCopyInto_TopologyInfo x h = (x, h)"
definition DeepCopyInto_NetPermission :: "(NetPermission, ('m, 'f) cell) copier" where
  "DeepCopyInto_NetPermission x h = (x, h)"
definition DeepCopyInto_CSIStatus :: "(CSIStatus, ('m, 'f) cell) copier" where
  "DeepCopyInto_CSIStatus x h = (x, h)"
definition DeepCopyInto_CompatibilitySpec :: "(CompatibilitySpec, ('m, 'f) cell) copier" where
  "DeepCopyInto_CompatibilitySpec x h = (x, h)"
definition DeepCopyInto_VsphereCloudConfigStatus :: "(VsphereCloudConfigStatus, ('m, 'f) cell) copier" where
  "DeepCopyInto_VsphereCloudConfigStatus x h = (x, h)"

definition DeepCopyInto_CPIStatus :: "(mref CPIStatusG, ('m, 'f) cell) copier" where
  "DeepCopyInto_CPIStatus x h = (case copy_statuses (GNodeStatus x) h of (m, h1) \<Rightarrow> (x\<lparr>GNodeStatus := m\<rparr>, h1))"

definition DeepCopyInto_CloudProviderConfig :: "(sref CloudProviderConfigG, ('m, 'f) cell) copier" where
  "DeepCopyInto_CloudProviderConfig x h =
     (case copy_slice Strings strings [] (GVsphereCloudConfigs x) h of (s, h1) \<Rightarrow>
        (x\<lparr>GVsphereCloudConfigs := s, GTopology := GTopology x\<rparr>, h1))"

definition zeroPermission :: NetPermission where
  "zeroPermission = \<lparr>Ip = [], Permission = [], RootSquash = False\<rparr>"

definition DeepCopyInto_FileVolume :: "((sref, sref) FileVolumeG, ('m, 'f) cell) copier" where
  "DeepCopyInto_FileVolume x h =
     (case copy_slice Strings strings [] (GVSanDataStoreUrl x) h of (s, h1) \<Rightarrow>
      (case copy_slice Permissions permissions zeroPermission (GNetPermissions x) h1 of (p, h2) \<Rightarrow>
        (x\<lparr>GVSanDataStoreUrl := s, GNetPermissions := p\<rparr>, h2)))"

definition DeepCopyInto_StorageProviderConfig :: "((sref, sref) StorageProviderConfigG, ('m, 'f) cell) copier" where
  "DeepCopyInto_StorageProviderConfig x h =
     (case DeepCopyInto_FileVolume (GFileVolumes x) h of (v, h1) \<Rightarrow> (x\<lparr>GFileVolumes := v\<rparr>, h1))"

definition DeepCopyInto_VDOConfigSpec :: "((sref, sref) VDOConfigSpecG, ('m, 'f) cell) copier" where
  "DeepCopyInto_VDOConfigSpec x h =
     (case DeepCopyInto_CloudProviderConfig (GCloudProvider x) h of (c, h1) \<Rightarrow>
      (case DeepCopyInto_StorageProviderConfig (GStorageProvider x) h1 of (s, h2) \<Rightarrow>
        (x\<lparr>GCloudProvider := c, GStorageProvider := s\<rparr>, h2)))"

definition DeepCopyInto_VDOConfigStatus :: "(mref VDOConfigStatusG, ('m, 'f) cell) copier" where
  "DeepCopyInto_VDOConfigStatus x h =
     (case DeepCopyInto_CPIStatus (GCPIStatus x) h of (c, h1) \<Rightarrow> (x\<lparr>GCPIStatus := c, GCSIStatus := GCSIStatus x\<rparr>, h1))"

definition DeepCopyInto_VDOConfig :: "('m, ('m, 'f) cell) copier \<Rightarrow> ('m vdo_struct, ('m, 'f) cell) copier" where
  "DeepCopyInto_VDOConfig objectMeta x h =
     (case objectMeta (VdoObjectMeta x) h of (m, h1) \<Rightarrow>
      (case DeepCopyInto_VDOConfigSpec (GVdoSpec x) h1 of (sp, h2) \<Rightarrow>
       (case DeepCopyInto_VDOConfigStatus (GVdoStatus x) h2 of (st, h3) \<Rightarrow>
         (x\<lparr>VdoTypeMeta := VdoTypeMeta x, VdoObjectMeta := m, GVdoSpec := sp, GVdoStatus := st\<rparr>, h3))))"

definition DeepCopyInto_VsphereCloudConfigSpec :: "(sref VsphereCloudConfigSpecG, ('m, 'f) cell) copier" where
  "DeepCopyInto_VsphereCloudConfigSpec x h =
     (case copy_slice Strings strings [] (GDataCenters x) h of (s, h1) \<Rightarrow> (x\<lparr>GDataCenters := s\<rparr>, h1))"

definition DeepCopyInto_VsphereCloudConfig :: "('m, ('m, 'f) cell) copier \<Rightarrow> ('m vcc_struct, ('m, 'f) cell) copier" where
  "DeepCopyInto_VsphereCloudConfig objectMeta x h =
     (case objectMeta (VccObjectMeta x) h of (m, h1) \<Rightarrow>
      (case DeepCopyInto_VsphereCloudConfigSpec (GVccSpec x) h1 of (sp, h2) \<Rightarrow>
        (x\<lparr>VccTypeMeta := VccTypeMeta x, VccObjectMeta := m, GVccSpec := sp, GVccStatus := GVccStatus x\<rparr>, h2)))"

definition DeepCopyInto_CompatibilityConfig ::
  "('m, ('m, 'f) cell) copier \<Rightarrow> ('m CompatibilityConfigG, ('m, 'f) cell) copier" where
  "DeepCopyInto_CompatibilityConfig objectMeta x h =
     (case objectMeta (CcObjectMeta x) h of (m, h1) \<Rightarrow>
        (x\<lparr>CcTypeMeta := CcTypeMeta x, CcObjectMeta := m, GCcSpec := GCcSpec x\<rparr>, h1))"

definition DeepCopyInto_VDOConfigList ::
  "('m, ('m, 'f) cell) copier \<Rightarrow> ('l, ('m, 'f) cell) copier \<Rightarrow> (('l, sref) ListG, ('m, 'f) cell) copier" where
  "DeepCopyInto_VDOConfigList objectMeta listMeta x h =
     (case listMeta (ListListMeta x) h of (l, h1) \<Rightarrow>
      (case copy_items VDOConfigs vdoConfigs (DeepCopyInto_VDOConfig objectMeta) (Items x) h1 of (i, h2) \<Rightarrow>
        (x\<lparr>ListTypeMeta := ListTypeMeta x, ListListMeta := l, Items := i\<rparr>, h2)))"

definition DeepCopyInto_VsphereCloudConfigList ::
  "('m, ('m, 'f) cell) copier \<Rightarrow> ('l, ('m, 'f) cell) copier \<Rightarrow> (('l, sref) ListG, ('m, 'f) cell) copier" where
  "DeepCopyInto_VsphereCloudConfigList objectMeta listMeta x h =
     (case listMeta (ListListMeta x) h of (l, h1) \<Rightarrow>
      (case copy_items CloudConfigs cloudConfigs (DeepCopyInto_VsphereCloudConfig objectMeta) (Items x) h1 of (i, h2) \<Rightarrow>
        (x\<lparr>ListTypeMeta := ListTypeMeta x, ListListMeta := l, Items := i\<rparr>, h2)))"

definition DeepCopyInto_CompatibilityConfigList ::
  "('m, ('m, 'f) cell) copier \<Rightarrow> ('l, ('m, 'f) cell) copier \<Rightarrow> (('l, sref) ListG, ('m, 'f) cell) copier" where
  "DeepCopyInto_CompatibilityConfigList objectMeta listMeta x h =
     (case listMeta (ListListMeta x) h of (l, h1) \<Rightarrow>
      (case copy_items CompatConfigs compatConfigs (DeepCopyInto_CompatibilityConfig objectMeta) (Items x) h1 of (i, h2) \<Rightarrow>
        (x\<lparr>ListTypeMeta := ListTypeMeta x, ListListMeta := l, Items := i\<rparr>, h2)))"

definition DeepCopy_TopologyInfo :: "((TopologyInfo) option, ('m, 'f) cell) copier" where
  "DeepCopy_TopologyInfo = new_copy DeepCopyInto_TopologyInfo"
definition DeepCopy_NetPermission :: "((NetPermission) option, ('m, 'f) cell) copier" where
  "DeepCopy_NetPermission = new_copy DeepCopyInto_NetPermission"
definition DeepCopy_CSIStatus :: "((CSIStatus) option, ('m, 'f) cell) copier" where
  "DeepCopy_CSIStatus = new_copy DeepCopyInto_CSIStatus"
definition DeepCopy_CompatibilitySpec :: "((CompatibilitySpec) option, ('m, 'f) cell) copier" where
  "DeepCopy_CompatibilitySpec = new_copy DeepCopyInto_CompatibilitySpec"
definition DeepCopy_VsphereCloudConfigStatus :: "((VsphereCloudConfigStatus) option, ('m, 'f) cell) copier" where
  "DeepCopy_VsphereCloudConfigStatus = new_copy DeepCopyInto_VsphereCloudConfigStatus"
definition DeepCopy_CPIStatus :: "((mref CPIStatusG) option, ('m, 'f) cell) copier" where
  "DeepCopy_CPIStatus = new_copy DeepCopyInto_CPIStatus"
definition DeepCopy_CloudProviderConfig :: "((sref CloudProviderConfigG) option, ('m, 'f) cell) copier" where
  "DeepCopy_CloudProviderConfig = new_copy DeepCopyInto_CloudProviderConfig"
definition DeepCopy_FileVolume :: "(((sref, sref) FileVolumeG) option, ('m, 'f) cell) copier" where
  "DeepCopy_FileVolume = new_copy DeepCopyInto_FileVolume"
definition DeepCopy_StorageProviderConfig :: "(((sref, sref) StorageProviderConfigG) option, ('m, 'f) cell) copier" where
  "DeepCopy_StorageProviderConfig = new_copy DeepCopyInto_StorageProviderConfig"
definition DeepCopy_VDOConfigSpec :: "(((sref, sref) VDOConfigSpecG) option, ('m, 'f) cell) copier" where
  "DeepCopy_VDOConfigSpec = new_copy DeepCopyInto_VDOConfigSpec"
definition DeepCopy_VDOConfigStatus :: "((mref VDOConfigStatusG) option, ('m, 'f) cell) copier" where
  "DeepCopy_VDOConfigStatus = new_copy DeepCopyInto_VDOConfigStatus"
definition DeepCopy_VsphereCloudConfigSpec :: "((sref VsphereCloudConfigSpecG) option, ('m, 'f) cell) copier" where
  "DeepCopy_VsphereCloudConfigSpec = new_copy DeepCopyInto_VsphereCloudConfigSpec"

definition DeepCopy_VDOConfig :: "('m, ('m, 'f) cell) copier \<Rightarrow> ('m vdo_struct option, ('m, 'f) cell) copier" where
  "DeepCopy_VDOConfig objectMeta = new_copy (DeepCopyInto_VDOConfig objectMeta)"
definition DeepCopy_VsphereCloudConfig :: "('m, ('m, 'f) cell) copier \<Rightarrow> ('m vcc_struct option, ('m, 'f) cell) copier" where
  "DeepCopy_VsphereCloudConfig objectMeta = new_copy (DeepCopyInto_VsphereCloudConfig objectMeta)"
definition DeepCopy_CompatibilityConfig :: "('m, ('m, 'f) cell) copier \<Rightarrow> ('m CompatibilityConfigG option, ('m, 'f) cell) copier" where
  "DeepCopy_CompatibilityConfig objectMeta = new_copy (DeepCopyInto_CompatibilityConfig objectMeta)"
definition DeepCopy_VDOConfigList ::
  "('m, ('m, 'f) cell) copier \<Rightarrow> ('l, ('m, 'f) cell) copier \<Rightarrow> (('l, sref) ListG option, ('m, 'f) cell) copier" where
  "DeepCopy_VDOConfigList objectMeta listMeta = new_copy (DeepCopyInto_VDOConfigList objectMeta listMeta)"
definition DeepCopy_VsphereCloudConfigList ::
  "('m, ('m, 'f) cell) copier \<Rightarrow> ('l, ('m, 'f) cell) copier \<Rightarrow> (('l, sref) ListG option, ('m, 'f) cell) copier" where
  "DeepCopy_VsphereCloudConfigList objectMeta listMeta = new_copy (DeepCopyInto_VsphereCloudConfigList objectMeta listMeta)"
definition DeepCopy_CompatibilityConfigList ::
  "('m, ('m, 'f) cell) copier \<Rightarrow> ('l, ('m, 'f) cell) copier \<Rightarrow> (('l, sref) ListG option, ('m, 'f) cell) copier" where
  "DeepCopy_CompatibilityConfigList objectMeta listMeta = new_copy (DeepCopyInto_CompatibilityConfigList objectMeta listMeta)"

text \<open>
  A value of the interface \<^verbatim>\<open>runtime.Object\<close>: nil, or one of the six types with a pointer. A pointer that is nil
  does not make the interface nil, which \<^verbatim>\<open>DeepCopyObject\<close> has to avoid.
\<close>

datatype ('m, 'l) Object =
    VDOConfigPtr "'m vdo_struct option"
  | VDOConfigListPtr "('l, sref) ListG option"
  | VsphereCloudConfigPtr "'m vcc_struct option"
  | VsphereCloudConfigListPtr "('l, sref) ListG option"
  | CompatibilityConfigPtr "'m CompatibilityConfigG option"
  | CompatibilityConfigListPtr "('l, sref) ListG option"

definition object_copy :: "('x option \<Rightarrow> ('m, 'l) Object) \<Rightarrow> 'x option \<times> 'h \<Rightarrow> ('m, 'l) Object option \<times> 'h" where
  "object_copy ptr r = (case r of (Some c, h) \<Rightarrow> (Some (ptr (Some c)), h) | (None, h) \<Rightarrow> (None, h))"

definition DeepCopyObject_VDOConfig ::
  "('m, ('m, 'f) cell) copier \<Rightarrow> 'm vdo_struct option \<Rightarrow> ('m, 'f) heap \<Rightarrow> ('m, 'l) Object option \<times> ('m, 'f) heap" where
  "DeepCopyObject_VDOConfig objectMeta p h = object_copy VDOConfigPtr (DeepCopy_VDOConfig objectMeta p h)"
definition DeepCopyObject_VsphereCloudConfig ::
  "('m, ('m, 'f) cell) copier \<Rightarrow> 'm vcc_struct option \<Rightarrow> ('m, 'f) heap \<Rightarrow> ('m, 'l) Object option \<times> ('m, 'f) heap" where
  "DeepCopyObject_VsphereCloudConfig objectMeta p h = object_copy VsphereCloudConfigPtr (DeepCopy_VsphereCloudConfig objectMeta p h)"
definition DeepCopyObject_CompatibilityConfig ::
  "('m, ('m, 'f) cell) copier \<Rightarrow> 'm CompatibilityConfigG option \<Rightarrow> ('m, 'f) heap \<Rightarrow> ('m, 'l) Object option \<times> ('m, 'f) heap" where
  "DeepCopyObject_CompatibilityConfig objectMeta p h = object_copy CompatibilityConfigPtr (DeepCopy_CompatibilityConfig objectMeta p h)"
definition DeepCopyObject_VDOConfigList ::
  "('m, ('m, 'f) cell) copier \<Rightarrow> ('l, ('m, 'f) cell) copier \<Rightarrow> ('l, sref) ListG option \<Rightarrow> ('m, 'f) heap \<Rightarrow>
   ('m, 'l) Object option \<times> ('m, 'f) heap" where
  "DeepCopyObject_VDOConfigList objectMeta listMeta p h = object_copy VDOConfigListPtr (DeepCopy_VDOConfigList objectMeta listMeta p h)"
definition DeepCopyObject_VsphereCloudConfigList ::
  "('m, ('m, 'f) cell) copier \<Rightarrow> ('l, ('m, 'f) cell) copier \<Rightarrow> ('l, sref) ListG option \<Rightarrow> ('m, 'f) heap \<Rightarrow>
   ('m, 'l) Object option \<times> ('m, 'f) heap" where
  "DeepCopyObject_VsphereCloudConfigList objectMeta listMeta p h = object_copy VsphereCloudConfigListPtr (DeepCopy_VsphereCloudConfigList objectMeta listMeta p h)"
definition DeepCopyObject_CompatibilityConfigList ::
  "('m, ('m, 'f) cell) copier \<Rightarrow> ('l, ('m, 'f) cell) copier \<Rightarrow> ('l, sref) ListG option \<Rightarrow> ('m, 'f) heap \<Rightarrow>
   ('m, 'l) Object option \<times> ('m, 'f) heap" where
  "DeepCopyObject_CompatibilityConfigList objectMeta listMeta p h = object_copy CompatibilityConfigListPtr (DeepCopy_CompatibilityConfigList objectMeta listMeta p h)"

section \<open>What a deep copy promises\<close>

text \<open>
  A copier of a type whose values are well-typed in a heap (\<open>ok\<close>), reach some cells of it (\<open>addrs\<close>), and denote
  something (\<open>denotes\<close>). It only allocates; the copy is well-typed, denotes the same, and reaches new cells only.
  Well-typed values reach cells that exist, and depend on nothing but the cells that they reach.
\<close>

locale deep_copier =
  fixes copier :: "'x \<Rightarrow> 'c list \<Rightarrow> 'x \<times> 'c list"
    and ok :: "'c list \<Rightarrow> 'x \<Rightarrow> bool"
    and addrs :: "'c list \<Rightarrow> 'x \<Rightarrow> nat set"
    and denotes :: "'c list \<Rightarrow> 'x \<Rightarrow> 'v"
  assumes allocates: "ok h x \<Longrightarrow> copier x h = (y, h') \<Longrightarrow> \<exists>cells. h' = h @ cells"
    and well_typed: "ok h x \<Longrightarrow> copier x h = (y, h') \<Longrightarrow> ok h' y"
    and same_value: "ok h x \<Longrightarrow> copier x h = (y, h') \<Longrightarrow> denotes h' y = denotes h x"
    and fresh: "ok h x \<Longrightarrow> copier x h = (y, h') \<Longrightarrow> a \<in> addrs h' y \<Longrightarrow> length h \<le> a"
    and bounded: "ok h x \<Longrightarrow> a \<in> addrs h x \<Longrightarrow> a < length h"
    and frame: "ok h x \<Longrightarrow> \<forall>a \<in> addrs h x. a < length k \<and> k ! a = h ! a \<Longrightarrow>
                ok k x \<and> addrs k x = addrs h x \<and> denotes k x = denotes h x"
begin

lemma copies:
  assumes "ok h x" and "copier x h = (y, h')"
  shows "(\<exists>cells. h' = h @ cells) \<and> ok h' y \<and> denotes h' y = denotes h x \<and> (\<forall>a \<in> addrs h' y. length h \<le> a)"
  using allocates [OF assms] well_typed [OF assms] same_value [OF assms] fresh [OF assms] by blast

text \<open>Whatever happens to other cells later.\<close>

lemma later_original:
  assumes "ok h x" and "length h \<le> length k" and "\<forall>a < length h. k ! a = h ! a"
  shows "ok k x \<and> addrs k x = addrs h x \<and> denotes k x = denotes h x"
  using assms bounded [OF assms(1)] by (intro frame) (auto intro: less_le_trans)

lemma grown: "ok h x \<Longrightarrow> ok (h @ cells) x \<and> addrs (h @ cells) x = addrs h x \<and> denotes (h @ cells) x = denotes h x"
  by (rule later_original) (auto simp: nth_append)

lemma later_copy:
  assumes "ok h x" and "copier x h = (y, h')" and "length h' \<le> length k"
    and "\<forall>a. length h \<le> a \<and> a < length h' \<longrightarrow> k ! a = h' ! a"
  shows "ok k y \<and> denotes k y = denotes h x"
proof -
  note y = well_typed [OF assms(1,2)]
  have "\<forall>a \<in> addrs h' y. a < length k \<and> k ! a = h' ! a"
    using fresh [OF assms(1,2)] bounded [OF y] assms(3,4) by (auto intro: less_le_trans)
  from frame [OF y this] same_value [OF assms(1,2)] show ?thesis by simp
qed

end

lemma deep_copierI:
  assumes copies: "\<And>h x y h'. ok h x \<Longrightarrow> copier x h = (y, h') \<Longrightarrow>
      (\<exists>cells. h' = h @ cells) \<and> ok h' y \<and> denotes h' y = denotes h x \<and> (\<forall>a \<in> addrs h' y. length h \<le> a)"
    and bounded: "\<And>h x a. ok h x \<Longrightarrow> a \<in> addrs h x \<Longrightarrow> a < length h"
    and frame: "\<And>h x k. ok h x \<Longrightarrow> \<forall>a \<in> addrs h x. a < length k \<and> k ! a = h ! a \<Longrightarrow>
      ok k x \<and> addrs k x = addrs h x \<and> denotes k x = denotes h x"
  shows "deep_copier copier ok addrs denotes"
proof
  fix h x y h' assume a: "ok h x" "copier x h = (y, h')"
  show "\<exists>cells. h' = h @ cells" "ok h' y" "denotes h' y = denotes h x" using copies [OF a] by simp_all
  show "length h \<le> b" if "b \<in> addrs h' y" for b using copies [OF a] that by simp
qed (fact bounded, fact frame)

section \<open>Copiers of structured types\<close>

lemma plain_copier: "deep_copier (\<lambda>x h. (x, h)) (\<lambda>h x. True) (\<lambda>h x. {}) (\<lambda>h x. x)"
  by unfold_locales auto

text \<open>Two fields after one another.\<close>

definition copy_both :: "('x, 'c) copier \<Rightarrow> ('y, 'c) copier \<Rightarrow> ('x \<times> 'y, 'c) copier" where
  "copy_both c d p h = (case c (fst p) h of (x, h1) \<Rightarrow> (case d (snd p) h1 of (y, h2) \<Rightarrow> ((x, y), h2)))"

lemma both_copier:
  assumes "deep_copier c okc ac vc" and "deep_copier d okd ad vd"
  shows "deep_copier (copy_both c d) (\<lambda>h p. okc h (fst p) \<and> okd h (snd p)) (\<lambda>h p. ac h (fst p) \<union> ad h (snd p))
           (\<lambda>h p. (vc h (fst p), vd h (snd p)))"
proof (rule deep_copierI)
  fix h p q h' assume ok: "okc h (fst p) \<and> okd h (snd p)" and run: "copy_both c d p h = (q, h')"
  from run obtain x y h1 where c: "c (fst p) h = (x, h1)" and d: "d (snd p) h1 = (y, h')" and q: "q = (x, y)"
    by (auto simp: copy_both_def split: prod.splits)
  from ok have okx: "okc h (fst p)" and oky: "okd h (snd p)" by auto
  note cx = deep_copier.copies [OF assms(1) okx c]
  then obtain n1 where h1: "h1 = h @ n1" and okx1: "okc h1 x" by blast
  note y1 = deep_copier.grown [OF assms(2) oky, of n1, folded h1]
  then have oky1: "okd h1 (snd p)" by simp
  note cy = deep_copier.copies [OF assms(2) oky1 d]
  then obtain n2 where h': "h' = h1 @ n2" by blast
  note x1 = deep_copier.grown [OF assms(1) okx1, of n2, folded h']
  have "length h \<le> length h1" using h1 by simp
  then have "\<forall>a \<in> ad h' y. length h \<le> a" using cy by (blast intro: le_trans)
  then have "\<forall>a \<in> ac h' (fst q) \<union> ad h' (snd q). length h \<le> a" using cx x1 by (simp add: q ball_Un)
  moreover have "\<exists>cells. h' = h @ cells" by (simp add: h1 h')
  ultimately
  show "(\<exists>cells. h' = h @ cells) \<and> (okc h' (fst q) \<and> okd h' (snd q)) \<and>
      (vc h' (fst q), vd h' (snd q)) = (vc h (fst p), vd h (snd p)) \<and> (\<forall>a \<in> ac h' (fst q) \<union> ad h' (snd q). length h \<le> a)"
    using cx cy x1 y1 by (simp add: q)
next
  fix h p a assume "okc h (fst p) \<and> okd h (snd p)" and "a \<in> ac h (fst p) \<union> ad h (snd p)"
  then show "a < length h" using deep_copier.bounded [OF assms(1)] deep_copier.bounded [OF assms(2)] by blast
next
  fix h p k assume "okc h (fst p) \<and> okd h (snd p)" and "\<forall>a \<in> ac h (fst p) \<union> ad h (snd p). a < length k \<and> k ! a = h ! a"
  then show "(okc k (fst p) \<and> okd k (snd p)) \<and> ac k (fst p) \<union> ad k (snd p) = ac h (fst p) \<union> ad h (snd p) \<and>
      (vc k (fst p), vd k (snd p)) = (vc h (fst p), vd h (snd p))"
    using deep_copier.frame [OF assms(1), of h "fst p" k] deep_copier.frame [OF assms(2), of h "snd p" k] by simp
qed

text \<open>A struct: a copier of the fields that hold references, the other fields kept.\<close>

lemma struct_copier:
  assumes "deep_copier c ok addrs denotes"
    and run: "\<And>x h. copier x h = (case c (refs x) h of (r, h1) \<Rightarrow> (put x r, h1))"
    and refs: "\<And>x r. refs (put x r) = r" and kept: "\<And>x r v. den (put x r) v = den x v"
  shows "deep_copier copier (\<lambda>h x. ok h (refs x)) (\<lambda>h x. addrs h (refs x)) (\<lambda>h x. den x (denotes h (refs x)))"
proof (rule deep_copierI)
  fix h x y h' assume ok: "ok h (refs x)" and copy: "copier x h = (y, h')"
  then obtain r where y: "y = put x r" and c: "c (refs x) h = (r, h')" by (auto simp: run split: prod.splits)
  show "(\<exists>cells. h' = h @ cells) \<and> ok h' (refs y) \<and> den y (denotes h' (refs y)) = den x (denotes h (refs x)) \<and>
      (\<forall>a \<in> addrs h' (refs y). length h \<le> a)"
    using deep_copier.copies [OF assms(1) ok c] by (simp add: y refs kept)
next
  fix h x k assume "ok h (refs x)" and "\<forall>a \<in> addrs h (refs x). a < length k \<and> k ! a = h ! a"
  from deep_copier.frame [OF assms(1) this]
  show "ok k (refs x) \<and> addrs k (refs x) = addrs h (refs x) \<and> den x (denotes k (refs x)) = den x (denotes h (refs x))"
    by simp
qed (rule deep_copier.bounded [OF assms(1)])

text \<open>A pointer.\<close>

lemma pointer_copier:
  assumes "deep_copier c ok addrs denotes"
  shows "deep_copier (new_copy c) (\<lambda>h p. case p of None \<Rightarrow> True | Some x \<Rightarrow> ok h x)
    (\<lambda>h p. case p of None \<Rightarrow> {} | Some x \<Rightarrow> addrs h x) (\<lambda>h p. case p of None \<Rightarrow> None | Some x \<Rightarrow> Some (denotes h x))"
proof (rule deep_copierI)
  fix h p q h'
  assume ok: "case p of None \<Rightarrow> True | Some x \<Rightarrow> ok h x" and copy: "new_copy c p h = (q, h')"
  show "(\<exists>cells. h' = h @ cells) \<and> (case q of None \<Rightarrow> True | Some x \<Rightarrow> ok h' x) \<and>
      (case q of None \<Rightarrow> None | Some x \<Rightarrow> Some (denotes h' x)) = (case p of None \<Rightarrow> None | Some x \<Rightarrow> Some (denotes h x)) \<and>
      (\<forall>a \<in> (case q of None \<Rightarrow> {} | Some x \<Rightarrow> addrs h' x). length h \<le> a)"
  proof (cases p)
    case None
    with copy show ?thesis by (simp add: new_copy_def)
  next
    case (Some x)
    with copy obtain y where c: "c x h = (y, h')" and q: "q = Some y" by (auto simp: new_copy_def split: prod.splits)
    from ok Some have "ok h x" by simp
    from deep_copier.copies [OF assms(1) this c] Some q show ?thesis by simp
  qed
next
  fix h p a assume "case p of None \<Rightarrow> True | Some x \<Rightarrow> ok h x" and "a \<in> (case p of None \<Rightarrow> {} | Some x \<Rightarrow> addrs h x)"
  then show "a < length h" using deep_copier.bounded [OF assms(1)] by (simp split: option.splits)
next
  fix h p k assume ok: "case p of None \<Rightarrow> True | Some x \<Rightarrow> ok h x"
    and same: "\<forall>a \<in> (case p of None \<Rightarrow> {} | Some x \<Rightarrow> addrs h x). a < length k \<and> k ! a = h ! a"
  show "(case p of None \<Rightarrow> True | Some x \<Rightarrow> ok k x) \<and>
      (case p of None \<Rightarrow> {} | Some x \<Rightarrow> addrs k x) = (case p of None \<Rightarrow> {} | Some x \<Rightarrow> addrs h x) \<and>
      (case p of None \<Rightarrow> None | Some x \<Rightarrow> Some (denotes k x)) = (case p of None \<Rightarrow> None | Some x \<Rightarrow> Some (denotes h x))"
  proof (cases p)
    case (Some x)
    with ok same have "ok h x" "\<forall>a \<in> addrs h x. a < length k \<and> k ! a = h ! a" by simp_all
    from deep_copier.frame [OF assms(1) this] Some show ?thesis by simp
  qed simp
qed

text \<open>The structs of a list, in their order.\<close>

lemma list_copier:
  assumes c: "deep_copier c ok addrs denotes"
  shows "deep_copier (copy_all c) (\<lambda>h xs. \<forall>x \<in> set xs. ok h x) (\<lambda>h xs. \<Union>x \<in> set xs. addrs h x) (\<lambda>h. map (denotes h))"
proof (rule deep_copierI)
  fix h xs ys h' assume "\<forall>x \<in> set xs. ok h x" and "copy_all c xs h = (ys, h')"
  then show "(\<exists>cells. h' = h @ cells) \<and> (\<forall>x \<in> set ys. ok h' x) \<and> map (denotes h') ys = map (denotes h) xs \<and>
      (\<forall>a \<in> (\<Union>x \<in> set ys. addrs h' x). length h \<le> a)"
  proof (induction xs arbitrary: h ys)
    case (Cons x xs)
    from Cons.prems(2) obtain y h1 zs where x: "c x h = (y, h1)" and xs: "copy_all c xs h1 = (zs, h')" and ys: "ys = y # zs"
      by (auto split: prod.splits)
    from Cons.prems(1) have okx: "ok h x" and okxs: "\<forall>z \<in> set xs. ok h z" by auto
    note y = deep_copier.copies [OF c okx x]
    then obtain n1 where h1: "h1 = h @ n1" and oky: "ok h1 y" by blast
    have old: "ok h1 z \<and> addrs h1 z = addrs h z \<and> denotes h1 z = denotes h z" if "z \<in> set xs" for z
      using deep_copier.grown [OF c, of h z n1] okxs that h1 by simp
    then have "\<forall>z \<in> set xs. ok h1 z" by simp
    note zs = Cons.IH [OF this xs]
    then obtain n2 where h': "h' = h1 @ n2" by blast
    note y1 = deep_copier.grown [OF c oky, of n2, folded h']
    have "length h \<le> length h1" by (simp add: h1)
    then have "\<forall>a \<in> (\<Union>z \<in> set zs. addrs h' z). length h \<le> a" using zs le_trans by blast
    moreover have "\<exists>cells. h' = h @ cells" by (simp add: h1 h')
    moreover have "map (denotes h1) xs = map (denotes h) xs" using old by simp
    ultimately show ?case using y y1 zs by (simp add: ys ball_Un)
  qed simp
next
  fix h xs a assume "\<forall>x \<in> set xs. ok h x" and "a \<in> (\<Union>x \<in> set xs. addrs h x)"
  then show "a < length h" using deep_copier.bounded [OF c] by blast
next
  fix h xs k
  assume ok: "\<forall>x \<in> set xs. ok h x" and same: "\<forall>a \<in> (\<Union>x \<in> set xs. addrs h x). a < length k \<and> k ! a = h ! a"
  have "ok k x \<and> addrs k x = addrs h x \<and> denotes k x = denotes h x" if "x \<in> set xs" for x
    by (rule deep_copier.frame [OF c]) (use ok same that in auto)
  then show "(\<forall>x \<in> set xs. ok k x) \<and> (\<Union>x \<in> set xs. addrs k x) = (\<Union>x \<in> set xs. addrs h x) \<and>
      map (denotes k) xs = map (denotes h) xs" by simp
qed

text \<open>A slice: its array has its type, and the slice lies within the array.\<close>

definition slice_typed :: "('e list \<Rightarrow> 'c) \<Rightarrow> ('c \<Rightarrow> 'e list) \<Rightarrow> 'c list \<Rightarrow> slice_ref \<Rightarrow> bool" where
  "slice_typed cell elems h s \<longleftrightarrow> SliceArray s < length h \<and> cell (elems (h ! SliceArray s)) = h ! SliceArray s \<and>
     SliceOffset s + SliceLen s \<le> length (elems (h ! SliceArray s))"

definition items_ok ::
  "('e list \<Rightarrow> 'c) \<Rightarrow> ('c \<Rightarrow> 'e list) \<Rightarrow> ('c list \<Rightarrow> 'e \<Rightarrow> bool) \<Rightarrow> 'c list \<Rightarrow> sref \<Rightarrow> bool" where
  "items_ok cell elems ok h p =
     (case p of None \<Rightarrow> True | Some s \<Rightarrow> slice_typed cell elems h s \<and> (\<forall>x \<in> set (slice_elems elems h s). ok h x))"

definition items_addrs :: "('c \<Rightarrow> 'e list) \<Rightarrow> ('c list \<Rightarrow> 'e \<Rightarrow> nat set) \<Rightarrow> 'c list \<Rightarrow> sref \<Rightarrow> nat set" where
  "items_addrs elems addrs h p =
     (case p of None \<Rightarrow> {} | Some s \<Rightarrow> insert (SliceArray s) (\<Union>x \<in> set (slice_elems elems h s). addrs h x))"

definition items_denote :: "('c \<Rightarrow> 'e list) \<Rightarrow> ('c list \<Rightarrow> 'e \<Rightarrow> 'v) \<Rightarrow> 'c list \<Rightarrow> sref \<Rightarrow> 'v list option" where
  "items_denote elems denotes h p = (case p of None \<Rightarrow> None | Some s \<Rightarrow> Some (map (denotes h) (slice_elems elems h s)))"

lemmas items_defs = items_ok_def items_addrs_def items_denote_def

lemma length_copy_all: "length (fst (copy_all c xs h)) = length xs"
  by (induction c xs h rule: copy_all.induct) (auto split: prod.splits)

lemma length_slice_elems: "slice_typed cell elems h s \<Longrightarrow> length (slice_elems elems h s) = SliceLen s"
  by (auto simp: slice_typed_def slice_elems_def)

lemma items_copier:
  assumes c: "deep_copier c ok addrs denotes" and elems: "\<And>xs. elems (cell xs) = xs"
  shows "deep_copier (copy_items cell elems c) (items_ok cell elems ok) (items_addrs elems addrs) (items_denote elems denotes)"
proof (rule deep_copierI)
  fix h p q h' assume ok: "items_ok cell elems ok h p" and run: "copy_items cell elems c p h = (q, h')"
  show "(\<exists>cells. h' = h @ cells) \<and> items_ok cell elems ok h' q \<and> items_denote elems denotes h' q = items_denote elems denotes h p \<and>
      (\<forall>a \<in> items_addrs elems addrs h' q. length h \<le> a)"
  proof (cases p)
    case None
    with run show ?thesis by (simp add: copy_items_def items_defs)
  next
    case (Some s)
    with ok have typed: "slice_typed cell elems h s" and oks: "\<forall>x \<in> set (slice_elems elems h s). ok h x"
      by (simp_all add: items_ok_def)
    from run Some obtain ys h1 where all: "copy_all c (slice_elems elems h s) h = (ys, h1)" and h': "h' = h1 @ [cell ys]"
      and q: "q = Some \<lparr>SliceArray = length h1, SliceOffset = 0, SliceLen = SliceLen s\<rparr>" (is "_ = Some ?d")
      by (auto simp: copy_items_def split: prod.splits)
    from length_copy_all [of c "slice_elems elems h s" h] all length_slice_elems [OF typed] have len: "length ys = SliceLen s"
      by simp
    note cs = deep_copier.copies [OF list_copier [OF c] oks all]
    then have okys: "\<forall>x \<in> set ys. ok h1 x" by blast
    note gr = deep_copier.grown [OF list_copier [OF c] okys, of "[cell ys]", folded h']
    have el: "slice_elems elems h' ?d = ys" by (simp add: slice_elems_def h' nth_append elems len)
    have "slice_typed cell elems h' ?d" by (simp add: slice_typed_def h' nth_append elems len)
    moreover from cs have "length h \<le> length h1" by auto
    moreover from cs h' have "\<exists>cells. h' = h @ cells" by auto
    ultimately show ?thesis using cs gr by (simp add: items_defs q Some el)
  qed
next
  fix h p a assume "items_ok cell elems ok h p" and "a \<in> items_addrs elems addrs h p"
  then show "a < length h" using deep_copier.bounded [OF c] by (auto simp: items_defs slice_typed_def split: option.splits)
next
  fix h p k assume ok: "items_ok cell elems ok h p" and same: "\<forall>a \<in> items_addrs elems addrs h p. a < length k \<and> k ! a = h ! a"
  show "items_ok cell elems ok k p \<and> items_addrs elems addrs k p = items_addrs elems addrs h p \<and>
      items_denote elems denotes k p = items_denote elems denotes h p"
  proof (cases p)
    case (Some s)
    with same have arr: "SliceArray s < length k" "k ! SliceArray s = h ! SliceArray s"
      and rest: "\<forall>a \<in> (\<Union>x \<in> set (slice_elems elems h s). addrs h x). a < length k \<and> k ! a = h ! a"
      by (simp_all add: items_addrs_def)
    from ok Some have typed: "slice_typed cell elems h s" and oks: "\<forall>x \<in> set (slice_elems elems h s). ok h x"
      by (simp_all add: items_ok_def)
    have "slice_elems elems k s = slice_elems elems h s" "slice_typed cell elems k s"
      using arr typed by (simp_all add: slice_elems_def slice_typed_def)
    with deep_copier.frame [OF list_copier [OF c] oks rest] Some show ?thesis by (simp add: items_defs)
  qed (simp add: items_defs)
qed

text \<open>A slice of values: \<^verbatim>\<open>make\<close> and \<^verbatim>\<open>copy\<close> do what a copy of the elements one by one does.\<close>

lemma copy_all_plain: "copy_all (\<lambda>x h. (x, h)) xs h = (xs, h)"
  by (induction xs) simp_all

lemma copy_slice_items:
  assumes "\<And>xs. elems (cell xs) = xs" and "\<And>s. p = Some s \<Longrightarrow> slice_typed cell elems h s"
  shows "copy_slice cell elems zero p h = copy_items cell elems (\<lambda>x h. (x, h)) p h"
proof (cases p)
  case (Some s)
  from assms(2) [OF this] have "slice_typed cell elems h s" .
  moreover from this have "slice_elems elems (h @ cs) s = slice_elems elems h s" for cs
    by (simp add: slice_elems_def slice_typed_def nth_append)
  ultimately show ?thesis using length_slice_elems [of cell elems h s] assms(1)
    by (simp add: copy_slice_def copy_items_def make_slice_def copy_elems_def copy_all_plain Some Let_def nth_append)
qed (simp add: copy_slice_def copy_items_def)

definition slice_ok :: "('e list \<Rightarrow> 'c) \<Rightarrow> ('c \<Rightarrow> 'e list) \<Rightarrow> 'c list \<Rightarrow> sref \<Rightarrow> bool" where
  "slice_ok cell elems = items_ok cell elems (\<lambda>h x. True)"
definition slice_addrs :: "('c \<Rightarrow> 'e list) \<Rightarrow> 'c list \<Rightarrow> sref \<Rightarrow> nat set" where
  "slice_addrs elems = items_addrs elems (\<lambda>h x. {})"
definition slice_denotes :: "('c \<Rightarrow> 'e list) \<Rightarrow> 'c list \<Rightarrow> sref \<Rightarrow> 'e list option" where
  "slice_denotes elems = items_denote elems (\<lambda>h x. x)"

lemma slice_copier:
  assumes "\<And>xs. elems (cell xs) = xs"
  shows "deep_copier (copy_slice cell elems zero) (slice_ok cell elems) (slice_addrs elems) (slice_denotes elems)"
proof (rule deep_copierI, unfold slice_ok_def slice_addrs_def slice_denotes_def)
  note items = items_copier [OF plain_copier, of elems cell, OF assms]
  {
    fix h p y h' assume ok: "items_ok cell elems (\<lambda>h x. True) h p" and run: "copy_slice cell elems zero p h = (y, h')"
    from ok have "p = Some s \<Longrightarrow> slice_typed cell elems h s" for s by (simp add: items_ok_def)
    from copy_slice_items [of elems cell, OF assms this] run have "copy_items cell elems (\<lambda>x h. (x, h)) p h = (y, h')" by simp
    from deep_copier.copies [OF items ok this]
    show "(\<exists>cells. h' = h @ cells) \<and> items_ok cell elems (\<lambda>h x. True) h' y \<and>
        items_denote elems (\<lambda>h x. x) h' y = items_denote elems (\<lambda>h x. x) h p \<and>
        (\<forall>a \<in> items_addrs elems (\<lambda>h x. {}) h' y. length h \<le> a)" .
  }
  show "a < length h" if "items_ok cell elems (\<lambda>h x. True) h p" "a \<in> items_addrs elems (\<lambda>h x. {}) h p" for h p a
    using deep_copier.bounded [OF items that] .
  show "items_ok cell elems (\<lambda>h x. True) k p \<and> items_addrs elems (\<lambda>h x. {}) k p = items_addrs elems (\<lambda>h x. {}) h p \<and>
      items_denote elems (\<lambda>h x. x) k p = items_denote elems (\<lambda>h x. x) h p"
    if "items_ok cell elems (\<lambda>h x. True) h p" "\<forall>a \<in> items_addrs elems (\<lambda>h x. {}) h p. a < length k \<and> k ! a = h ! a" for h p k
    using deep_copier.frame [OF items that] .
qed

text \<open>The map of node statuses; its value is the map, whose order no program can rely on.\<close>

definition statuses_ok :: "('m, 'f) heap \<Rightarrow> mref \<Rightarrow> bool" where
  "statuses_ok h m = (case m of None \<Rightarrow> True
     | Some a \<Rightarrow> a < length h \<and> NodeStatuses (nodeStatuses (h ! a)) = h ! a \<and> distinct (map fst (nodeStatuses (h ! a))))"
definition statuses_addrs :: "('m, 'f) heap \<Rightarrow> mref \<Rightarrow> nat set" where
  "statuses_addrs h m = set_option m"
definition statuses_denote :: "('m, 'f) heap \<Rightarrow> mref \<Rightarrow> (string \<rightharpoonup> NodeStatus) option" where
  "statuses_denote h m = map_option (\<lambda>a. map_of (nodeStatuses (h ! a))) m"

lemmas statuses_defs = statuses_ok_def statuses_addrs_def statuses_denote_def

lemma fold_put_status:
  "fold (put_status (length h)) es (h @ [NodeStatuses xs]) =
   h @ [NodeStatuses (fold (\<lambda>e. AList.update (fst e) (snd e)) es xs)]"
  by (induction es arbitrary: xs) (simp_all add: put_status_def)

lemma distinct_fold_update:
  "distinct (map fst xs) \<Longrightarrow> distinct (map fst (fold (\<lambda>e. AList.update (fst e) (snd e)) es xs))"
  by (induction es arbitrary: xs) (simp_all add: distinct_update)

lemma map_of_fold_update:
  "distinct (map fst es) \<Longrightarrow> map_of (fold (\<lambda>e. AList.update (fst e) (snd e)) es xs) = map_of xs ++ map_of es"
proof (induction es arbitrary: xs)
  case (Cons e es)
  then have "fst e \<notin> dom (map_of es)" by (simp add: dom_map_of_conv_image_fst)
  with Cons show ?case by (cases e) (simp add: update_conv' fun_eq_iff map_add_def dom_def split: option.split)
qed simp

interpretation statuses: deep_copier copy_statuses statuses_ok statuses_addrs statuses_denote
proof (rule deep_copierI)
  fix h :: "('m, 'f) heap" and m q h' assume "statuses_ok h m" and "copy_statuses m h = (q, h')"
  then show "(\<exists>cells. h' = h @ cells) \<and> statuses_ok h' q \<and> statuses_denote h' q = statuses_denote h m \<and>
      (\<forall>a \<in> statuses_addrs h' q. length h \<le> a)"
    by (cases m) (auto simp: statuses_defs copy_statuses_def fold_put_status distinct_fold_update map_of_fold_update)
qed (auto simp: statuses_defs split: option.splits)

section \<open>The types of the API group\<close>

interpretation stringSlice: deep_copier "copy_slice Strings strings []" "slice_ok Strings strings" "slice_addrs strings"
    "slice_denotes strings"
  by (rule slice_copier) simp

interpretation permissionSlice: deep_copier "copy_slice Permissions permissions zeroPermission"
    "slice_ok Permissions permissions" "slice_addrs permissions" "slice_denotes permissions"
  by (rule slice_copier) simp

text \<open>What a struct denotes is the same struct with the contents of its slices and maps.\<close>

definition cpiStatus_ok :: "('m, 'f) heap \<Rightarrow> mref CPIStatusG \<Rightarrow> bool" where
  "cpiStatus_ok h x = statuses_ok h (GNodeStatus x)"
definition cpiStatus_addrs :: "('m, 'f) heap \<Rightarrow> mref CPIStatusG \<Rightarrow> nat set" where
  "cpiStatus_addrs h x = statuses_addrs h (GNodeStatus x)"
definition cpiStatus_denotes :: "('m, 'f) heap \<Rightarrow> mref CPIStatusG \<Rightarrow> (string \<rightharpoonup> NodeStatus) option CPIStatusG" where
  "cpiStatus_denotes h x =
     \<lparr>GPhase = GPhase x, GStatusMsg = GStatusMsg x, GNodeStatus = statuses_denote h (GNodeStatus x)\<rparr>"

interpretation cpiStatus: deep_copier DeepCopyInto_CPIStatus cpiStatus_ok cpiStatus_addrs cpiStatus_denotes
  using struct_copier [OF statuses.deep_copier_axioms,
      where copier = DeepCopyInto_CPIStatus and refs = GNodeStatus and put = "\<lambda>x m. x\<lparr>GNodeStatus := m\<rparr>"
        and den = "\<lambda>x n. \<lparr>GPhase = GPhase x, GStatusMsg = GStatusMsg x, GNodeStatus = n\<rparr>"]
  by (simp add: DeepCopyInto_CPIStatus_def cpiStatus_ok_def [abs_def] cpiStatus_addrs_def [abs_def]
      cpiStatus_denotes_def [abs_def])

definition cloudProvider_ok :: "('m, 'f) heap \<Rightarrow> sref CloudProviderConfigG \<Rightarrow> bool" where
  "cloudProvider_ok h x = slice_ok Strings strings h (GVsphereCloudConfigs x)"
definition cloudProvider_addrs :: "('m, 'f) heap \<Rightarrow> sref CloudProviderConfigG \<Rightarrow> nat set" where
  "cloudProvider_addrs h x = slice_addrs strings h (GVsphereCloudConfigs x)"
definition cloudProvider_denotes :: "('m, 'f) heap \<Rightarrow> sref CloudProviderConfigG \<Rightarrow> string list option CloudProviderConfigG" where
  "cloudProvider_denotes h x =
     \<lparr>GVsphereCloudConfigs = slice_denotes strings h (GVsphereCloudConfigs x), GTopology = GTopology x\<rparr>"

interpretation cloudProvider: deep_copier DeepCopyInto_CloudProviderConfig cloudProvider_ok cloudProvider_addrs cloudProvider_denotes
  using struct_copier [OF stringSlice.deep_copier_axioms,
      where copier = DeepCopyInto_CloudProviderConfig and refs = GVsphereCloudConfigs
        and put = "\<lambda>x s. x\<lparr>GVsphereCloudConfigs := s, GTopology := GTopology x\<rparr>"
        and den = "\<lambda>x v. \<lparr>GVsphereCloudConfigs = v, GTopology = GTopology x\<rparr>"]
  by (simp add: DeepCopyInto_CloudProviderConfig_def cloudProvider_ok_def [abs_def] cloudProvider_addrs_def [abs_def]
      cloudProvider_denotes_def [abs_def])

definition fileVolume_ok :: "('m, 'f) heap \<Rightarrow> (sref, sref) FileVolumeG \<Rightarrow> bool" where
  "fileVolume_ok h x \<longleftrightarrow>
     slice_ok Strings strings h (GVSanDataStoreUrl x) \<and> slice_ok Permissions permissions h (GNetPermissions x)"
definition fileVolume_addrs :: "('m, 'f) heap \<Rightarrow> (sref, sref) FileVolumeG \<Rightarrow> nat set" where
  "fileVolume_addrs h x = slice_addrs strings h (GVSanDataStoreUrl x) \<union> slice_addrs permissions h (GNetPermissions x)"
definition fileVolume_denotes ::
  "('m, 'f) heap \<Rightarrow> (sref, sref) FileVolumeG \<Rightarrow> (string list option, NetPermission list option) FileVolumeG" where
  "fileVolume_denotes h x = \<lparr>GVSanDataStoreUrl = slice_denotes strings h (GVSanDataStoreUrl x),
     GNetPermissions = slice_denotes permissions h (GNetPermissions x)\<rparr>"

interpretation fileVolume: deep_copier DeepCopyInto_FileVolume fileVolume_ok fileVolume_addrs fileVolume_denotes
  using struct_copier [OF both_copier [OF stringSlice.deep_copier_axioms permissionSlice.deep_copier_axioms],
      where copier = DeepCopyInto_FileVolume and refs = "\<lambda>x. (GVSanDataStoreUrl x, GNetPermissions x)"
        and put = "\<lambda>x r. x\<lparr>GVSanDataStoreUrl := fst r, GNetPermissions := snd r\<rparr>"
        and den = "\<lambda>x v. \<lparr>GVSanDataStoreUrl = fst v, GNetPermissions = snd v\<rparr>"]
  by (simp add: DeepCopyInto_FileVolume_def copy_both_def fileVolume_ok_def [abs_def] fileVolume_addrs_def [abs_def]
      fileVolume_denotes_def [abs_def] split_def)

definition storageProvider_ok :: "('m, 'f) heap \<Rightarrow> (sref, sref) StorageProviderConfigG \<Rightarrow> bool" where
  "storageProvider_ok h x = fileVolume_ok h (GFileVolumes x)"
definition storageProvider_addrs :: "('m, 'f) heap \<Rightarrow> (sref, sref) StorageProviderConfigG \<Rightarrow> nat set" where
  "storageProvider_addrs h x = fileVolume_addrs h (GFileVolumes x)"
definition storageProvider_denotes :: "('m, 'f) heap \<Rightarrow> (sref, sref) StorageProviderConfigG \<Rightarrow>
    (string list option, NetPermission list option) StorageProviderConfigG" where
  "storageProvider_denotes h x = \<lparr>GVsphereCloudConfig = GVsphereCloudConfig x, GClusterDistribution = GClusterDistribution x,
     GFileVolumes = fileVolume_denotes h (GFileVolumes x), GCustomKubeletPath = GCustomKubeletPath x\<rparr>"

interpretation storageProvider:
    deep_copier DeepCopyInto_StorageProviderConfig storageProvider_ok storageProvider_addrs storageProvider_denotes
  using struct_copier [OF fileVolume.deep_copier_axioms, where copier = DeepCopyInto_StorageProviderConfig
        and refs = GFileVolumes and put = "\<lambda>x v. x\<lparr>GFileVolumes := v\<rparr>"
        and den = "\<lambda>x v. \<lparr>GVsphereCloudConfig = GVsphereCloudConfig x, GClusterDistribution = GClusterDistribution x,
           GFileVolumes = v, GCustomKubeletPath = GCustomKubeletPath x\<rparr>"]
  by (simp add: DeepCopyInto_StorageProviderConfig_def storageProvider_ok_def [abs_def] storageProvider_addrs_def [abs_def]
      storageProvider_denotes_def [abs_def])

definition vdoSpec_ok :: "('m, 'f) heap \<Rightarrow> (sref, sref) VDOConfigSpecG \<Rightarrow> bool" where
  "vdoSpec_ok h x \<longleftrightarrow> cloudProvider_ok h (GCloudProvider x) \<and> storageProvider_ok h (GStorageProvider x)"
definition vdoSpec_addrs :: "('m, 'f) heap \<Rightarrow> (sref, sref) VDOConfigSpecG \<Rightarrow> nat set" where
  "vdoSpec_addrs h x = cloudProvider_addrs h (GCloudProvider x) \<union> storageProvider_addrs h (GStorageProvider x)"
definition vdoSpec_denotes ::
  "('m, 'f) heap \<Rightarrow> (sref, sref) VDOConfigSpecG \<Rightarrow> (string list option, NetPermission list option) VDOConfigSpecG" where
  "vdoSpec_denotes h x = \<lparr>GCloudProvider = cloudProvider_denotes h (GCloudProvider x),
     GStorageProvider = storageProvider_denotes h (GStorageProvider x)\<rparr>"

interpretation vdoSpec: deep_copier DeepCopyInto_VDOConfigSpec vdoSpec_ok vdoSpec_addrs vdoSpec_denotes
  using struct_copier [OF both_copier [OF cloudProvider.deep_copier_axioms storageProvider.deep_copier_axioms],
      where copier = DeepCopyInto_VDOConfigSpec and refs = "\<lambda>x. (GCloudProvider x, GStorageProvider x)"
        and put = "\<lambda>x r. x\<lparr>GCloudProvider := fst r, GStorageProvider := snd r\<rparr>"
        and den = "\<lambda>x v. \<lparr>GCloudProvider = fst v, GStorageProvider = snd v\<rparr>"]
  by (simp add: DeepCopyInto_VDOConfigSpec_def copy_both_def vdoSpec_ok_def [abs_def] vdoSpec_addrs_def [abs_def]
      vdoSpec_denotes_def [abs_def] split_def)

definition vdoStatus_ok :: "('m, 'f) heap \<Rightarrow> mref VDOConfigStatusG \<Rightarrow> bool" where
  "vdoStatus_ok h x = cpiStatus_ok h (GCPIStatus x)"
definition vdoStatus_addrs :: "('m, 'f) heap \<Rightarrow> mref VDOConfigStatusG \<Rightarrow> nat set" where
  "vdoStatus_addrs h x = cpiStatus_addrs h (GCPIStatus x)"
definition vdoStatus_denotes :: "('m, 'f) heap \<Rightarrow> mref VDOConfigStatusG \<Rightarrow> (string \<rightharpoonup> NodeStatus) option VDOConfigStatusG" where
  "vdoStatus_denotes h x = \<lparr>GCPIStatus = cpiStatus_denotes h (GCPIStatus x), GCSIStatus = GCSIStatus x\<rparr>"

interpretation vdoStatus: deep_copier DeepCopyInto_VDOConfigStatus vdoStatus_ok vdoStatus_addrs vdoStatus_denotes
  using struct_copier [OF cpiStatus.deep_copier_axioms, where copier = DeepCopyInto_VDOConfigStatus and refs = GCPIStatus
        and put = "\<lambda>x c. x\<lparr>GCPIStatus := c, GCSIStatus := GCSIStatus x\<rparr>"
        and den = "\<lambda>x v. \<lparr>GCPIStatus = v, GCSIStatus = GCSIStatus x\<rparr>"]
  by (simp add: DeepCopyInto_VDOConfigStatus_def vdoStatus_ok_def [abs_def] vdoStatus_addrs_def [abs_def]
      vdoStatus_denotes_def [abs_def])

definition vccSpec_ok :: "('m, 'f) heap \<Rightarrow> sref VsphereCloudConfigSpecG \<Rightarrow> bool" where
  "vccSpec_ok h x = slice_ok Strings strings h (GDataCenters x)"
definition vccSpec_addrs :: "('m, 'f) heap \<Rightarrow> sref VsphereCloudConfigSpecG \<Rightarrow> nat set" where
  "vccSpec_addrs h x = slice_addrs strings h (GDataCenters x)"
definition vccSpec_denotes ::
  "('m, 'f) heap \<Rightarrow> sref VsphereCloudConfigSpecG \<Rightarrow> string list option VsphereCloudConfigSpecG" where
  "vccSpec_denotes h x = \<lparr>GVcIP = GVcIP x, GInsecure = GInsecure x, GCredentials = GCredentials x,
     GThumbprint = GThumbprint x, GDataCenters = slice_denotes strings h (GDataCenters x)\<rparr>"

interpretation vccSpec: deep_copier DeepCopyInto_VsphereCloudConfigSpec vccSpec_ok vccSpec_addrs vccSpec_denotes
  using struct_copier [OF stringSlice.deep_copier_axioms, where copier = DeepCopyInto_VsphereCloudConfigSpec
        and refs = GDataCenters and put = "\<lambda>x s. x\<lparr>GDataCenters := s\<rparr>"
        and den = "\<lambda>x v. \<lparr>GVcIP = GVcIP x, GInsecure = GInsecure x, GCredentials = GCredentials x,
           GThumbprint = GThumbprint x, GDataCenters = v\<rparr>"]
  by (simp add: DeepCopyInto_VsphereCloudConfigSpec_def vccSpec_ok_def [abs_def] vccSpec_addrs_def [abs_def]
      vccSpec_denotes_def [abs_def])

text \<open>The types with metadata: with any copier of the metadata that keeps the promise.\<close>

definition vdo_ok :: "(('m, 'f) heap \<Rightarrow> 'm \<Rightarrow> bool) \<Rightarrow> ('m, 'f) heap \<Rightarrow> 'm vdo_struct \<Rightarrow> bool" where
  "vdo_ok okm h x \<longleftrightarrow> okm h (VdoObjectMeta x) \<and> vdoSpec_ok h (GVdoSpec x) \<and> vdoStatus_ok h (GVdoStatus x)"
definition vdo_addrs :: "(('m, 'f) heap \<Rightarrow> 'm \<Rightarrow> nat set) \<Rightarrow> ('m, 'f) heap \<Rightarrow> 'm vdo_struct \<Rightarrow> nat set" where
  "vdo_addrs am h x = am h (VdoObjectMeta x) \<union> (vdoSpec_addrs h (GVdoSpec x) \<union> vdoStatus_addrs h (GVdoStatus x))"
definition vdo_denotes :: "(('m, 'f) heap \<Rightarrow> 'm \<Rightarrow> 'v) \<Rightarrow> ('m, 'f) heap \<Rightarrow> 'm vdo_struct \<Rightarrow>
    ('v, string list option, NetPermission list option, (string \<rightharpoonup> NodeStatus) option) VDOConfigG" where
  "vdo_denotes vm h x = \<lparr>VdoTypeMeta = VdoTypeMeta x, VdoObjectMeta = vm h (VdoObjectMeta x),
     GVdoSpec = vdoSpec_denotes h (GVdoSpec x), GVdoStatus = vdoStatus_denotes h (GVdoStatus x)\<rparr>"

lemma vdo_copier:
  assumes "deep_copier objectMeta okm am vm"
  shows "deep_copier (DeepCopyInto_VDOConfig objectMeta) (vdo_ok okm) (vdo_addrs am) (vdo_denotes vm)"
  using struct_copier [OF both_copier [OF assms both_copier [OF vdoSpec.deep_copier_axioms vdoStatus.deep_copier_axioms]],
      where copier = "DeepCopyInto_VDOConfig objectMeta" and refs = "\<lambda>x. (VdoObjectMeta x, GVdoSpec x, GVdoStatus x)"
        and put = "\<lambda>x r. x\<lparr>VdoTypeMeta := VdoTypeMeta x, VdoObjectMeta := fst r, GVdoSpec := fst (snd r),
           GVdoStatus := snd (snd r)\<rparr>"
        and den = "\<lambda>x v. \<lparr>VdoTypeMeta = VdoTypeMeta x, VdoObjectMeta = fst v, GVdoSpec = fst (snd v), GVdoStatus = snd (snd v)\<rparr>"]
  by (simp add: DeepCopyInto_VDOConfig_def copy_both_def vdo_ok_def [abs_def] vdo_addrs_def [abs_def]
      vdo_denotes_def [abs_def] split_def)

definition vcc_ok :: "(('m, 'f) heap \<Rightarrow> 'm \<Rightarrow> bool) \<Rightarrow> ('m, 'f) heap \<Rightarrow> 'm vcc_struct \<Rightarrow> bool" where
  "vcc_ok okm h x \<longleftrightarrow> okm h (VccObjectMeta x) \<and> vccSpec_ok h (GVccSpec x)"
definition vcc_addrs :: "(('m, 'f) heap \<Rightarrow> 'm \<Rightarrow> nat set) \<Rightarrow> ('m, 'f) heap \<Rightarrow> 'm vcc_struct \<Rightarrow> nat set" where
  "vcc_addrs am h x = am h (VccObjectMeta x) \<union> vccSpec_addrs h (GVccSpec x)"
definition vcc_denotes ::
  "(('m, 'f) heap \<Rightarrow> 'm \<Rightarrow> 'v) \<Rightarrow> ('m, 'f) heap \<Rightarrow> 'm vcc_struct \<Rightarrow> ('v, string list option) VsphereCloudConfigG" where
  "vcc_denotes vm h x = \<lparr>VccTypeMeta = VccTypeMeta x, VccObjectMeta = vm h (VccObjectMeta x),
     GVccSpec = vccSpec_denotes h (GVccSpec x), GVccStatus = GVccStatus x\<rparr>"

lemma vcc_copier:
  assumes "deep_copier objectMeta okm am vm"
  shows "deep_copier (DeepCopyInto_VsphereCloudConfig objectMeta) (vcc_ok okm) (vcc_addrs am) (vcc_denotes vm)"
  using struct_copier [OF both_copier [OF assms vccSpec.deep_copier_axioms],
      where copier = "DeepCopyInto_VsphereCloudConfig objectMeta" and refs = "\<lambda>x. (VccObjectMeta x, GVccSpec x)"
        and put = "\<lambda>x r. x\<lparr>VccTypeMeta := VccTypeMeta x, VccObjectMeta := fst r, GVccSpec := snd r, GVccStatus := GVccStatus x\<rparr>"
        and den = "\<lambda>x v. \<lparr>VccTypeMeta = VccTypeMeta x, VccObjectMeta = fst v, GVccSpec = snd v, GVccStatus = GVccStatus x\<rparr>"]
  by (simp add: DeepCopyInto_VsphereCloudConfig_def copy_both_def vcc_ok_def [abs_def] vcc_addrs_def [abs_def]
      vcc_denotes_def [abs_def] split_def)

definition compat_denotes :: "(('m, 'f) heap \<Rightarrow> 'm \<Rightarrow> 'v) \<Rightarrow> ('m, 'f) heap \<Rightarrow> 'm CompatibilityConfigG \<Rightarrow> 'v CompatibilityConfigG" where
  "compat_denotes vm h x = \<lparr>CcTypeMeta = CcTypeMeta x, CcObjectMeta = vm h (CcObjectMeta x), GCcSpec = GCcSpec x\<rparr>"

lemma compat_copier:
  assumes "deep_copier objectMeta okm am vm"
  shows "deep_copier (DeepCopyInto_CompatibilityConfig objectMeta) (\<lambda>h x. okm h (CcObjectMeta x)) (\<lambda>h x. am h (CcObjectMeta x))
           (compat_denotes vm)"
  using struct_copier [OF assms,
      where copier = "DeepCopyInto_CompatibilityConfig objectMeta" and refs = CcObjectMeta
        and put = "\<lambda>x m. x\<lparr>CcTypeMeta := CcTypeMeta x, CcObjectMeta := m, GCcSpec := GCcSpec x\<rparr>"
        and den = "\<lambda>x v. \<lparr>CcTypeMeta = CcTypeMeta x, CcObjectMeta = v, GCcSpec = GCcSpec x\<rparr>"]
  by (simp add: DeepCopyInto_CompatibilityConfig_def compat_denotes_def [abs_def])

definition list_ok ::
  "('e list \<Rightarrow> 'c) \<Rightarrow> ('c \<Rightarrow> 'e list) \<Rightarrow> ('c list \<Rightarrow> 'l \<Rightarrow> bool) \<Rightarrow> ('c list \<Rightarrow> 'e \<Rightarrow> bool) \<Rightarrow> 'c list \<Rightarrow>
   ('l, sref) ListG \<Rightarrow> bool" where
  "list_ok cell elems okl ok h x \<longleftrightarrow> okl h (ListListMeta x) \<and> items_ok cell elems ok h (Items x)"
definition list_addrs ::
  "('c \<Rightarrow> 'e list) \<Rightarrow> ('c list \<Rightarrow> 'l \<Rightarrow> nat set) \<Rightarrow> ('c list \<Rightarrow> 'e \<Rightarrow> nat set) \<Rightarrow> 'c list \<Rightarrow> ('l, sref) ListG \<Rightarrow> nat set" where
  "list_addrs elems al addrs h x = al h (ListListMeta x) \<union> items_addrs elems addrs h (Items x)"
definition list_denotes ::
  "('c \<Rightarrow> 'e list) \<Rightarrow> ('c list \<Rightarrow> 'l \<Rightarrow> 'w) \<Rightarrow> ('c list \<Rightarrow> 'e \<Rightarrow> 'v) \<Rightarrow> 'c list \<Rightarrow> ('l, sref) ListG \<Rightarrow>
   ('w, 'v list option) ListG" where
  "list_denotes elems vl denotes h x = \<lparr>ListTypeMeta = ListTypeMeta x, ListListMeta = vl h (ListListMeta x),
     Items = items_denote elems denotes h (Items x)\<rparr>"

lemma list_struct_copier:
  assumes "deep_copier listMeta okl al vl" and "deep_copier c ok addrs denotes" and "\<And>xs. elems (cell xs) = xs"
    and "\<And>x h. copier x h = (case listMeta (ListListMeta x) h of (l, h1) \<Rightarrow>
      (case copy_items cell elems c (Items x) h1 of (i, h2) \<Rightarrow>
        (x\<lparr>ListTypeMeta := ListTypeMeta x, ListListMeta := l, Items := i\<rparr>, h2)))"
  shows "deep_copier copier (list_ok cell elems okl ok) (list_addrs elems al addrs) (list_denotes elems vl denotes)"
  using struct_copier [OF both_copier [OF assms(1) items_copier [of c ok addrs denotes elems cell, OF assms(2,3)]],
      where copier = copier and refs = "\<lambda>x. (ListListMeta x, Items x)"
        and put = "\<lambda>x r. x\<lparr>ListTypeMeta := ListTypeMeta x, ListListMeta := fst r, Items := snd r\<rparr>"
        and den = "\<lambda>x v. \<lparr>ListTypeMeta = ListTypeMeta x, ListListMeta = fst v, Items = snd v\<rparr>"]
  by (simp add: assms(4) copy_both_def list_ok_def [abs_def] list_addrs_def [abs_def] list_denotes_def [abs_def] split_def)

text \<open>The three lists.\<close>

lemma vdoList_copier:
  assumes "deep_copier objectMeta okm am vm" and "deep_copier listMeta okl al vl"
  shows "deep_copier (DeepCopyInto_VDOConfigList objectMeta listMeta) (list_ok VDOConfigs vdoConfigs okl (vdo_ok okm))
    (list_addrs vdoConfigs al (vdo_addrs am)) (list_denotes vdoConfigs vl (vdo_denotes vm))"
  by (rule list_struct_copier [OF assms(2) vdo_copier [OF assms(1)]]) (simp_all add: DeepCopyInto_VDOConfigList_def)

lemma vccList_copier:
  assumes "deep_copier objectMeta okm am vm" and "deep_copier listMeta okl al vl"
  shows "deep_copier (DeepCopyInto_VsphereCloudConfigList objectMeta listMeta) (list_ok CloudConfigs cloudConfigs okl (vcc_ok okm))
    (list_addrs cloudConfigs al (vcc_addrs am)) (list_denotes cloudConfigs vl (vcc_denotes vm))"
  by (rule list_struct_copier [OF assms(2) vcc_copier [OF assms(1)]]) (simp_all add: DeepCopyInto_VsphereCloudConfigList_def)

lemma compatList_copier:
  assumes "deep_copier objectMeta okm am vm" and "deep_copier listMeta okl al vl"
  shows "deep_copier (DeepCopyInto_CompatibilityConfigList objectMeta listMeta)
    (list_ok CompatConfigs compatConfigs okl (\<lambda>h x. okm h (CcObjectMeta x)))
    (list_addrs compatConfigs al (\<lambda>h x. am h (CcObjectMeta x))) (list_denotes compatConfigs vl (compat_denotes vm))"
  by (rule list_struct_copier [OF assms(2) compat_copier [OF assms(1)]]) (simp_all add: DeepCopyInto_CompatibilityConfigList_def)

section \<open>A list with one VDOConfig\<close>

text \<open>Metadata of a name and a slice of finalizers, copied field by field.\<close>

definition sampleMeta :: "(string \<times> sref, (string \<times> sref, unit) cell) copier" where
  "sampleMeta = copy_both (\<lambda>x h. (x, h)) (copy_slice Strings strings [])"

lemma sampleMeta_copier:
  "deep_copier sampleMeta (\<lambda>h p. True \<and> slice_ok Strings strings h (snd p)) (\<lambda>h p. {} \<union> slice_addrs strings h (snd p))
     (\<lambda>h p. (fst p, slice_denotes strings h (snd p)))"
  unfolding sampleMeta_def by (rule both_copier [OF plain_copier stringSlice.deep_copier_axioms])

definition sampleVdo :: "(string \<times> sref) vdo_struct" where
  "sampleVdo = \<lparr>VdoTypeMeta = \<lparr>TmKind = ''VDOConfig'', TmAPIVersion = ''vdo.vmware.com/v1alpha1''\<rparr>,
     VdoObjectMeta = (''vdo'', Some \<lparr>SliceArray = 0, SliceOffset = 1, SliceLen = 1\<rparr>),
     GVdoSpec = \<lparr>GCloudProvider = \<lparr>GVsphereCloudConfigs = Some \<lparr>SliceArray = 0, SliceOffset = 0, SliceLen = 1\<rparr>,
         GTopology = \<lparr>Zone = [], Region = []\<rparr>\<rparr>,
       GStorageProvider = \<lparr>GVsphereCloudConfig = ''vc'', GClusterDistribution = [],
         GFileVolumes = \<lparr>GVSanDataStoreUrl = None, GNetPermissions = Some \<lparr>SliceArray = 1, SliceOffset = 0, SliceLen = 1\<rparr>\<rparr>,
         GCustomKubeletPath = []\<rparr>\<rparr>,
     GVdoStatus = \<lparr>GCPIStatus = \<lparr>GPhase = Configured, GStatusMsg = [], GNodeStatus = Some 2\<rparr>,
       GCSIStatus = \<lparr>CsiPhase = Deployed, CsiStatusMsg = []\<rparr>\<rparr>\<rparr>"

definition sampleHeap :: "(string \<times> sref, unit) heap" where
  "sampleHeap = [Strings [''vc'', ''fin''], Permissions [\<lparr>Ip = ''*'', Permission = ''READ_ONLY'', RootSquash = True\<rparr>],
     NodeStatuses [(''n1'', NodeStatusReady)], VDOConfigs [sampleVdo], CloudConfigs [], CompatConfigs []]"

definition sampleItems :: "nat \<Rightarrow> nat \<Rightarrow> (string, sref) ListG" where
  "sampleItems a n = \<lparr>ListTypeMeta = \<lparr>TmKind = ''List'', TmAPIVersion = ''v1''\<rparr>, ListListMeta = ''7'',
     Items = Some \<lparr>SliceArray = a, SliceOffset = 0, SliceLen = n\<rparr>\<rparr>"

abbreviation sample_oks :: "(string \<times> sref, unit) heap \<Rightarrow> string \<times> sref \<Rightarrow> bool" where
  "sample_oks \<equiv> (\<lambda>h p. True \<and> slice_ok Strings strings h (snd p))"

lemma sampleItems_ok: "list_ok VDOConfigs vdoConfigs (\<lambda>h x. True) (vdo_ok sample_oks) sampleHeap (sampleItems 3 1)"
  by (simp add: list_ok_def items_ok_def slice_typed_def slice_elems_def sampleHeap_def sampleItems_def sampleVdo_def vdo_ok_def
      slice_ok_def vdoSpec_ok_def vdoStatus_ok_def cloudProvider_ok_def storageProvider_ok_def fileVolume_ok_def cpiStatus_ok_def
      statuses_ok_def)

lemma sampleItems_empty_ok:
  "list_ok CloudConfigs cloudConfigs (\<lambda>h x. True) (vcc_ok sample_oks) sampleHeap (sampleItems 4 0)"
  "list_ok CompatConfigs compatConfigs (\<lambda>h x. True) (\<lambda>h x. sample_oks h (CcObjectMeta x)) sampleHeap (sampleItems 5 0)"
  by (simp_all add: list_ok_def items_ok_def slice_typed_def slice_elems_def sampleHeap_def sampleItems_def)

section \<open>Copies are isolated\<close>

lemma new_copy_Some: "new_copy c (Some x) h = (p, h') \<longleftrightarrow> (\<exists>y. p = Some y \<and> c x h = (y, h'))"
  by (auto simp: new_copy_def split: prod.splits)

lemma new_copy_typed:
  assumes "deep_copier c ok addrs denotes" and "ok h x" and "new_copy c (Some x) h = (p, h')"
  shows "\<exists>y cells. p = Some y \<and> h' = h @ cells \<and> ok h' y \<and> (\<forall>a \<in> addrs h' y. length h \<le> a \<and> a < length h')"
proof -
  from assms(3) obtain y where p: "p = Some y" and c: "c x h = (y, h')" by (auto simp: new_copy_Some)
  note cs = deep_copier.copies [OF assms(1,2) c]
  then have "ok h' y" by simp
  from deep_copier.bounded [OF assms(1) this] cs p show ?thesis by blast
qed

text \<open>
  C33. A copy is well-typed: when the original is - every array that a slice refers to has the elements of the slice's
  type and contains the slice, every map has the type of node statuses, down to the items of a list and their
  metadata - then \<^verbatim>\<open>DeepCopy\<close> of a list of resources gives a pointer that is not nil, all cells of the heap are
  kept, new ones are added behind them, the copy is as well-typed in the new heap, and it reaches new cells only.
\<close>

theorem DeepCopy_well_typed:
  assumes "deep_copier objectMeta okm am vm" and "deep_copier listMeta okl al vl"
  shows
    "(list_ok VDOConfigs vdoConfigs okl (vdo_ok okm) h x1 \<longrightarrow> DeepCopy_VDOConfigList objectMeta listMeta (Some x1) h = (p1, h1) \<longrightarrow>
       (\<exists>y cells. p1 = Some y \<and> h1 = h @ cells \<and> list_ok VDOConfigs vdoConfigs okl (vdo_ok okm) h1 y \<and>
         (\<forall>a \<in> list_addrs vdoConfigs al (vdo_addrs am) h1 y. length h \<le> a \<and> a < length h1))) \<and>
     (list_ok CloudConfigs cloudConfigs okl (vcc_ok okm) h x2 \<longrightarrow> DeepCopy_VsphereCloudConfigList objectMeta listMeta (Some x2) h = (p2, h2) \<longrightarrow>
       (\<exists>y cells. p2 = Some y \<and> h2 = h @ cells \<and> list_ok CloudConfigs cloudConfigs okl (vcc_ok okm) h2 y \<and>
         (\<forall>a \<in> list_addrs cloudConfigs al (vcc_addrs am) h2 y. length h \<le> a \<and> a < length h2))) \<and>
     (list_ok CompatConfigs compatConfigs okl (\<lambda>h x. okm h (CcObjectMeta x)) h x3 \<longrightarrow>
      DeepCopy_CompatibilityConfigList objectMeta listMeta (Some x3) h = (p3, h3) \<longrightarrow>
       (\<exists>y cells. p3 = Some y \<and> h3 = h @ cells \<and> list_ok CompatConfigs compatConfigs okl (\<lambda>h x. okm h (CcObjectMeta x)) h3 y \<and>
         (\<forall>a \<in> list_addrs compatConfigs al (\<lambda>h x. am h (CcObjectMeta x)) h3 y. length h \<le> a \<and> a < length h3)))"
  unfolding DeepCopy_VDOConfigList_def DeepCopy_VsphereCloudConfigList_def DeepCopy_CompatibilityConfigList_def
  by (intro conjI impI; rule new_copy_typed [OF vdoList_copier [OF assms]] new_copy_typed [OF vccList_copier [OF assms]]
      new_copy_typed [OF compatList_copier [OF assms]]; assumption)

theorem DeepCopy_well_typed_witness:
  "(\<exists>y cells. fst (DeepCopy_VDOConfigList sampleMeta (\<lambda>x h. (x, h)) (Some (sampleItems 3 1)) sampleHeap) = Some y \<and>
      snd (DeepCopy_VDOConfigList sampleMeta (\<lambda>x h. (x, h)) (Some (sampleItems 3 1)) sampleHeap) = sampleHeap @ cells \<and>
      list_ok VDOConfigs vdoConfigs (\<lambda>h x. True) (vdo_ok sample_oks) (sampleHeap @ cells) y) \<and>
   (\<exists>y cells. fst (DeepCopy_VsphereCloudConfigList sampleMeta (\<lambda>x h. (x, h)) (Some (sampleItems 4 0)) sampleHeap) = Some y \<and>
      snd (DeepCopy_VsphereCloudConfigList sampleMeta (\<lambda>x h. (x, h)) (Some (sampleItems 4 0)) sampleHeap) = sampleHeap @ cells) \<and>
   (\<exists>y cells. fst (DeepCopy_CompatibilityConfigList sampleMeta (\<lambda>x h. (x, h)) (Some (sampleItems 5 0)) sampleHeap) = Some y \<and>
      snd (DeepCopy_CompatibilityConfigList sampleMeta (\<lambda>x h. (x, h)) (Some (sampleItems 5 0)) sampleHeap) = sampleHeap @ cells)"
proof -
  note t = DeepCopy_well_typed [OF sampleMeta_copier plain_copier]
  note a = mp [OF mp [OF conjunct1 [OF t] sampleItems_ok] prod.collapse [symmetric]]
  note b = mp [OF mp [OF conjunct1 [OF conjunct2 [OF t]] sampleItems_empty_ok(1)] prod.collapse [symmetric]]
  note c = mp [OF mp [OF conjunct2 [OF conjunct2 [OF t]] sampleItems_empty_ok(2)] prod.collapse [symmetric]]
  show ?thesis
  proof (intro conjI)
    from a obtain y cells where "fst (DeepCopy_VDOConfigList sampleMeta (\<lambda>x h. (x, h)) (Some (sampleItems 3 1)) sampleHeap) = Some y"
      and "snd (DeepCopy_VDOConfigList sampleMeta (\<lambda>x h. (x, h)) (Some (sampleItems 3 1)) sampleHeap) = sampleHeap @ cells"
      and "list_ok VDOConfigs vdoConfigs (\<lambda>h x. True) (vdo_ok sample_oks)
        (snd (DeepCopy_VDOConfigList sampleMeta (\<lambda>x h. (x, h)) (Some (sampleItems 3 1)) sampleHeap)) y" by blast
    then show "\<exists>y cells. fst (DeepCopy_VDOConfigList sampleMeta (\<lambda>x h. (x, h)) (Some (sampleItems 3 1)) sampleHeap) = Some y \<and>
      snd (DeepCopy_VDOConfigList sampleMeta (\<lambda>x h. (x, h)) (Some (sampleItems 3 1)) sampleHeap) = sampleHeap @ cells \<and>
      list_ok VDOConfigs vdoConfigs (\<lambda>h x. True) (vdo_ok sample_oks) (sampleHeap @ cells) y"
      by (intro exI [of _ y] exI [of _ cells]) simp
  qed (use b c in blast)+
qed

text \<open>
  C13. The list of VDOConfigs that a program gets as an object is its own: \<^verbatim>\<open>DeepCopyObject\<close> of a well-typed list denotes
  the same metadata, specifications and statuses; whatever is written later to the cells of the copy or to new
  ones, the original keeps its value, and whatever is written to the cells that existed before, the copy keeps it.
  A nil pointer gives the nil interface, not an interface with a nil pointer.
\<close>

theorem DeepCopyObject_isolated:
  assumes "deep_copier objectMeta okm am vm" and "deep_copier listMeta okl al vl"
  shows
    "DeepCopyObject_VDOConfigList objectMeta listMeta None h = (None, h) \<and>
     (list_ok VDOConfigs vdoConfigs okl (vdo_ok okm) h x \<longrightarrow>
       (\<exists>y cells. DeepCopyObject_VDOConfigList objectMeta listMeta (Some x) h = (Some (VDOConfigListPtr (Some y)), h @ cells) \<and>
         list_denotes vdoConfigs vl (vdo_denotes vm) (h @ cells) y = list_denotes vdoConfigs vl (vdo_denotes vm) h x \<and>
         (\<forall>k. length h \<le> length k \<longrightarrow> (\<forall>a < length h. k ! a = h ! a) \<longrightarrow>
            list_denotes vdoConfigs vl (vdo_denotes vm) k x = list_denotes vdoConfigs vl (vdo_denotes vm) h x) \<and>
         (\<forall>k. length (h @ cells) \<le> length k \<longrightarrow> (\<forall>a. length h \<le> a \<and> a < length (h @ cells) \<longrightarrow> k ! a = (h @ cells) ! a) \<longrightarrow>
            list_denotes vdoConfigs vl (vdo_denotes vm) k y = list_denotes vdoConfigs vl (vdo_denotes vm) h x)))"
proof (intro conjI impI)
  show "DeepCopyObject_VDOConfigList objectMeta listMeta None h = (None, h)"
    by (simp add: DeepCopyObject_VDOConfigList_def DeepCopy_VDOConfigList_def new_copy_def object_copy_def)
next
  assume ok: "list_ok VDOConfigs vdoConfigs okl (vdo_ok okm) h x"
  note c = vdoList_copier [OF assms]
  obtain y h' where copy: "DeepCopyInto_VDOConfigList objectMeta listMeta x h = (y, h')" by force
  from deep_copier.allocates [OF c ok copy] obtain cells where h': "h' = h @ cells" ..
  have run: "DeepCopyObject_VDOConfigList objectMeta listMeta (Some x) h = (Some (VDOConfigListPtr (Some y)), h @ cells)"
    using copy h' by (simp add: DeepCopyObject_VDOConfigList_def DeepCopy_VDOConfigList_def new_copy_def object_copy_def)
  let ?d = "list_denotes vdoConfigs vl (vdo_denotes vm)"
  have "?d k x = ?d h x" if "length h \<le> length k" "\<forall>a < length h. k ! a = h ! a" for k
    using deep_copier.later_original [OF c ok that] by simp
  moreover have "?d k y = ?d h x"
    if "length (h @ cells) \<le> length k" "\<forall>a. length h \<le> a \<and> a < length (h @ cells) \<longrightarrow> k ! a = (h @ cells) ! a" for k
    using deep_copier.later_copy [OF c ok copy [unfolded h'] that] by simp
  ultimately show "\<exists>y cells. DeepCopyObject_VDOConfigList objectMeta listMeta (Some x) h = (Some (VDOConfigListPtr (Some y)), h @ cells) \<and>
      ?d (h @ cells) y = ?d h x \<and>
      (\<forall>k. length h \<le> length k \<longrightarrow> (\<forall>a < length h. k ! a = h ! a) \<longrightarrow> ?d k x = ?d h x) \<and>
      (\<forall>k. length (h @ cells) \<le> length k \<longrightarrow> (\<forall>a. length h \<le> a \<and> a < length (h @ cells) \<longrightarrow> k ! a = (h @ cells) ! a) \<longrightarrow>
         ?d k y = ?d h x)"
    using run by (intro exI [of _ y] exI [of _ cells]) blast
qed

theorem DeepCopyObject_isolated_witness:
  "\<exists>y cells. DeepCopyObject_VDOConfigList sampleMeta (\<lambda>x h. (x, h)) (Some (sampleItems 3 1)) sampleHeap =
       (Some (VDOConfigListPtr (Some y)), sampleHeap @ cells) \<and>
     list_denotes vdoConfigs (\<lambda>h x. x) (vdo_denotes (\<lambda>h p. (fst p, slice_denotes strings h (snd p))))
         ((sampleHeap @ cells)[0 := Strings [''changed'', ''changed'']]) y =
     list_denotes vdoConfigs (\<lambda>h x. x) (vdo_denotes (\<lambda>h p. (fst p, slice_denotes strings h (snd p)))) sampleHeap (sampleItems 3 1)"
proof -
  note t = mp [OF conjunct2 [OF DeepCopyObject_isolated [OF sampleMeta_copier plain_copier]] sampleItems_ok]
  then obtain y cells where run: "DeepCopyObject_VDOConfigList sampleMeta (\<lambda>x h. (x, h)) (Some (sampleItems 3 1)) sampleHeap =
       (Some (VDOConfigListPtr (Some y)), sampleHeap @ cells)"
    and later: "\<forall>k. length (sampleHeap @ cells) \<le> length k \<longrightarrow>
       (\<forall>a. length sampleHeap \<le> a \<and> a < length (sampleHeap @ cells) \<longrightarrow> k ! a = (sampleHeap @ cells) ! a) \<longrightarrow>
       list_denotes vdoConfigs (\<lambda>h x. x) (vdo_denotes (\<lambda>h p. (fst p, slice_denotes strings h (snd p)))) k y =
       list_denotes vdoConfigs (\<lambda>h x. x) (vdo_denotes (\<lambda>h p. (fst p, slice_denotes strings h (snd p)))) sampleHeap (sampleItems 3 1)"
    by blast
  let ?k = "(sampleHeap @ cells)[0 := Strings [''changed'', ''changed'']]"
  have "0 < length sampleHeap" by (simp add: sampleHeap_def)
  then have "\<forall>a. length sampleHeap \<le> a \<and> a < length (sampleHeap @ cells) \<longrightarrow> ?k ! a = (sampleHeap @ cells) ! a"
    by (auto simp: nth_list_update)
  with later have "list_denotes vdoConfigs (\<lambda>h x. x) (vdo_denotes (\<lambda>h p. (fst p, slice_denotes strings h (snd p)))) ?k y =
       list_denotes vdoConfigs (\<lambda>h x. x) (vdo_denotes (\<lambda>h p. (fst p, slice_denotes strings h (snd p)))) sampleHeap (sampleItems 3 1)"
    by simp
  with run show ?thesis by blast
qed

end
