(* ===== verification/Spec2Isabelle.thy ===== *)
theory Spec2Isabelle
  imports Operator Ctl_Version Ctl_Commands Convergence Settled End_To_End Deep_Copy
begin

text \<open>
  The vSphere Kubernetes drivers operator (VDO): a model of its Go code and the theorems that make it
  correct.

  \<^bold>\<open>The program.\<close> The operator watches three custom resources (\<^verbatim>\<open>api/v1alpha1\<close>). A
  \<^verbatim>\<open>VsphereCloudConfig\<close> names a vCenter and a secret with its credentials; the reconciler in
  \<^verbatim>\<open>controllers/vspherecloudconfig_controller.go\<close> logs in and records in the status whether that works. A
  \<^verbatim>\<open>VDOConfig\<close> says which of them the cloud provider (CPI) and the storage driver (CSI) use; the reconciler in
  \<^verbatim>\<open>controllers/vdoconfig_controller.go\<close> reads the compatibility matrix, selects the versions that fit the vSphere and
  Kubernetes versions, writes the secrets and configuration maps of the drivers, applies their spec files
  through \<^verbatim>\<open>pkg/client/dynamic_client.go\<close>, watches the rollout and keeps phase, message and node states in the
  status. The third reconciler (\<^verbatim>\<open>compatibilityconfig_controller.go\<close>) does nothing. \<^verbatim>\<open>main.go\<close> parses the flags, registers
  the three and starts the manager. The command line tool
  \<^verbatim>\<open>vdoctl\<close> deploys and deletes the operator, stores the matrix in a ConfigMap that the operator
  watches, and creates the custom resources in a dialogue.

  \<^bold>\<open>State and effects.\<close> (\<^verbatim>\<open>Effects\<close>) The state \<open>St\<close> has the fields of the reconcilers, the package variables, the
  process environment and the session cache. What is outside the repository is a \<open>world\<close>: the Kubernetes API,
  vCenter (\<^verbatim>\<open>govmomi\<close>), files, HTTP, the terminal, and the pure functions of libraries (parsing of URLs, addresses and
  versions, YAML, JSON and INI). Every request is an event of type \<open>call\<close> in the \<open>trace\<close>, and the reply is any
  function of the requests so far: it may fail anywhere and show what other actors did meanwhile. An operation
  is a function in \<open>'a M\<close>, from a state to an outcome (a value, an error, or a panic) and the next state; \<open>bindM\<close>
  stops at the first error as \<^verbatim>\<open>if err != nil { return err }\<close>, \<open>tryM\<close> is \<^verbatim>\<open>x, err := f()\<close>. No theorem assumes
  anything about the world except what its statement says; the witnesses run the model in concrete worlds
  (\<^verbatim>\<open>Sample_World\<close>).

  \<^bold>\<open>Theories.\<close>

  \<^item> \<^verbatim>\<open>Vdo_Prelude\<close>, \<^verbatim>\<open>Go_Strings\<close>, \<^verbatim>\<open>Go_Maps\<close>: outcomes, the collections of rules, Go's \<^verbatim>\<open>strings\<close> functions,
    maps (nil or a list of entries in the order of \<^verbatim>\<open>range\<close>) and slices.
  \<^item> \<^verbatim>\<open>Api_Types\<close>: the custom resources, the matrix (\<^verbatim>\<open>pkg/models\<close>), the constants of the controllers.
  \<^item> \<^verbatim>\<open>Effects\<close>: requests, world, state, combinators; the locale \<open>step_relation\<close> (what every operation keeps, by rules
    collected in \<open>keeps_intro\<close>), interpreted for \<open>emits Q\<close> (all new requests satisfy \<open>Q\<close>), \<open>fixes_field f\<close> and others.
  \<^item> \<^verbatim>\<open>Dyn_Client\<close> (\<^verbatim>\<open>dynamic_client.go\<close>), \<^verbatim>\<open>Vc_Session\<close> (\<^verbatim>\<open>pkg/session\<close>), \<^verbatim>\<open>Cpi_Driver\<close> and \<^verbatim>\<open>Csi_Driver\<close> (\<^verbatim>\<open>pkg/drivers\<close>).
  \<^item> \<^verbatim>\<open>vdoconfig_controller.go\<close> by its parts: \<^verbatim>\<open>Phase_Status\<close> (status updates; the locale \<open>phase_writer\<close> is interpreted for CPI and CSI), \<^verbatim>\<open>Driver_Specs\<close> (choice of versions; the locale
    \<open>driver\<close> is interpreted for CSI and CPI), \<^verbatim>\<open>Compat_Check\<close> (\<open>CheckCompatAndRetrieveSpec\<close> and the source of the
    matrix), \<^verbatim>\<open>Secrets\<close> (the locale \<open>stored_object\<close>: a reconciled object converges to the wanted one), \<^verbatim>\<open>Node_Sync\<close>, \<^verbatim>\<open>Rollout\<close>, \<^verbatim>\<open>Vdo_Reconcile\<close> (\<open>Reconcile\<close> and its two halves), \<^verbatim>\<open>Vdo_Phases\<close>
    (the phases over a whole run).
  \<^item> \<^verbatim>\<open>Cloud_Config\<close>: the other two reconcilers. \<^verbatim>\<open>Operator\<close>: the three reconcilers over one state, as the inductive
    relation \<open>operator\<close> of the reachable states; the locale \<open>process_relation\<close> says what every run keeps, and is interpreted for
    the invariant of the process and, in \<^verbatim>\<open>Convergence\<close>, for the vSphere versions of the cached sessions. \<^verbatim>\<open>Startup\<close> (\<^verbatim>\<open>main.go\<close> and the three \<^verbatim>\<open>SetupWithManager\<close>): flags, the steps of the
    start and its exit codes, and the requests that an event of the cluster becomes.
  \<^item> \<^verbatim>\<open>Progress\<close>: a weakest precondition \<open>wp\<close> for operations that must return a value, what a healthy cluster is, and what one
    run achieves in it. \<^verbatim>\<open>Frame\<close>: a run of \<open>Reconcile\<close> sees the cloud configurations as they are when it starts, because it
    never writes their status. \<^verbatim>\<open>Convergence\<close>: the API server keeps the configurations with the status of their last update, and
    the reconcilers meet through it. \<^verbatim>\<open>Settled\<close>: a logic \<open>idles\<close> of partial correctness for the runs that only look, and what a run does in a
    cluster that is already as it should be.
  \<^item> \<^verbatim>\<open>Deep_Copy\<close> (\<^verbatim>\<open>zz_generated.deepcopy.go\<close>): slices and maps as references into a heap, the generated copies over it, and the
    locale \<open>deep_copier\<close> of what a copy promises, interpreted for every type of the API group. It is what allows the other
    theories to treat objects as values.
  \<^item> \<^verbatim>\<open>vdoctl\<close>: \<^verbatim>\<open>Ctl_Root\<close> (\<^verbatim>\<open>vdoctl/main.go\<close>, \<^verbatim>\<open>root.go\<close>: the start, the cluster and its client), \<^verbatim>\<open>Ctl_Commands\<close> (the tree of commands of the
    \<^verbatim>\<open>init\<close> functions, what a command line can request, and the registered types of \<^verbatim>\<open>groupversion_info.go\<close>), \<^verbatim>\<open>Ctl_Prompt\<close> (\<^verbatim>\<open>promptutil.go\<close>), \<^verbatim>\<open>Ctl_Matrix\<close> (\<^verbatim>\<open>configure_matrix.go\<close>, \<^verbatim>\<open>update_matrix.go\<close>),
    \<^verbatim>\<open>Ctl_Lifecycle\<close> (\<^verbatim>\<open>deploy.go\<close>, \<^verbatim>\<open>delete_vdo.go\<close>, \<^verbatim>\<open>status.go\<close>, \<^verbatim>\<open>version.go\<close>), \<^verbatim>\<open>Ctl_Version\<close> (what the version command shows), \<^verbatim>\<open>Ctl_Drivers\<close> (the dialogue of
    \<^verbatim>\<open>drivers.go\<close>), \<^verbatim>\<open>Ctl_Dialogue\<close> (it ends, and what it stores was checked), \<^verbatim>\<open>Ctl_Validation\<close> (the addresses it stores) and
    \<^verbatim>\<open>End_To_End\<close> (the operator logs in with what the dialogue stored).

  \<^bold>\<open>What is shown.\<close> Safety: nothing is written unless the gates of \<open>Reconcile\<close> are passed, and for CPI unless every
  vCenter was found verified; what a run never writes, and which words a request of \<^verbatim>\<open>vdoctl\<close> needs on its command line; a \<^verbatim>\<open>VDOConfig\<close> from the
  dialogue names only what was stored and logged in with. Convergence: after a successful
  reconciliation the secrets and the ConfigMap hold what the cloud configurations say, as abstract
  functions of them. Status: phases and node states after success and after failure. Selection: the version that is
  installed, independent of the order of Go's maps, and the one that \<^verbatim>\<open>vdoctl version\<close> shows. Totality: \<open>Reconcile\<close> and the dialogue do not panic. Progress: in a healthy cluster one run of
  \<open>Reconcile\<close> brings both drivers to their final phase, from any state; in the closed loop with the configurations that the
  API server keeps it does so after any sequence of events in which each configuration was handled. Quiescence: where everything is as wanted, a run succeeds and
  writes nothing, except the switch in the ConfigMap of the storage driver, which every run sets again from version 2.5.0 on. Start: the manager starts last and only after
  everything before it succeeded; \<^verbatim>\<open>vdoctl\<close> does nothing without a client. Memory: a deep copy denotes what its
  original denotes and shares no cell with it. Invariant:
  the state of the process between two events. Bounds: how many network permissions keep a section of their own. Round trips: the name of a node request, the
  matrix and the credentials from \<^verbatim>\<open>vdoctl\<close> to the operator, the flags. Some theorems state behaviour that the authors did not intend (a phase that is
  never written, a failure recorded on the wrong driver, a check that crashes, an update that is rejected).

  \<^bold>\<open>Termination and fuel.\<close> All functions are total. The recursions are structural, except the loops of the
  dialogue, which run as long as the user answers: \<open>loopM n\<close> and \<open>selectLoop n\<close> do at most \<open>n\<close> rounds and end in the
  panic \<open>outOfFuel\<close>. Every round asks a question, so if the terminal closes after \<open>N\<close> requests, and with it no selection adds an entry, \<open>N + 1\<close> rounds are
  enough (\<open>drivers_terminates\<close>).

  \<^bold>\<open>Simplifications.\<close> Strings are lists of bytes. Reconcilers run one after the other: each has one worker,
  and they share only the session cache, whose operation is atomic under its mutex. Log output
  is left out. An object of the API has the fields that the code reads or writes.

  \<^bold>\<open>Not modelled.\<close> What only calls or configures libraries: the manager and the work queues of controller-runtime, klog and
  zap (they answer the steps of \<^verbatim>\<open>Startup\<close>); cobra and viper (they answer those of \<^verbatim>\<open>Ctl_Root\<close>, and what cobra makes of the
  arguments is a parameter, with its documentation as the hypothesis \<open>cobra_finds\<close> of \<^verbatim>\<open>Ctl_Commands\<close>); the help texts; \<^verbatim>\<open>pkg/context\<close> (a logger in a context); the tests.
\<close>

section \<open>The process between events\<close>


lemma full_operator:
  "\<exists>s. operator {full_world} s \<and> CurrentCSIDeployedVersion s = ''2.4.0''"
proof -
  let ?s = "init_St\<lparr>environ := environ run_St\<rparr>"
  obtain t where "handle full_world (VdoEvent lab_req) ?s = (Ok (), t)" "CurrentCSIDeployedVersion t = ''2.4.0''"
    using full_run_from [of ?s] by auto
  then show ?thesis using operator.event [OF operator.start] by blast
qed


end
